(* ===== verification/Js_Prelude.thy ===== *)
theory Js_Prelude
  imports Main "HOL-Library.AList" "HOL-Library.List_Lexorder" "HOL-Library.Char_ord" "HOL-Library.Multiset" "HOL-Library.Sublist"
begin

text \<open>
  The part of JavaScript and of its standard library that every component of the port uses:
  results that may be a thrown error, the string methods, the insertion-ordered \<open>Map\<close> and
  \<open>Set\<close>, and the stable \<open>Array.prototype.sort\<close>. A JavaScript string is a list of
  characters (its UTF-16 code units below 256); a \<open>Map\<close> is an association list in insertion
  order, whose \<open>set\<close> overwrites in place or appends.
\<close>

named_theorems res_simps \<open>evaluation and inversion of results that may be errors\<close>

section \<open>Results\<close>

text \<open>A computation that may throw is a value of a sum: \<open>Inl\<close> is the error thrown.\<close>

definition ebind :: "'e + 'a \<Rightarrow> ('a \<Rightarrow> 'e + 'b) \<Rightarrow> 'e + 'b" where
  "ebind r f = (case r of Inl e \<Rightarrow> Inl e | Inr x \<Rightarrow> f x)"

definition ensure :: "bool \<Rightarrow> 'e \<Rightarrow> 'e + unit" where
  "ensure b e = (if b then Inr () else Inl e)"

text \<open>A \<open>for ... of\<close> loop over a state whose body may throw, and \<open>map\<close> with such a callback.\<close>

fun efold :: "('a \<Rightarrow> 's \<Rightarrow> 'e + 's) \<Rightarrow> 'a list \<Rightarrow> 's \<Rightarrow> 'e + 's" where
  "efold f [] s = Inr s"
| "efold f (x # xs) s = (case f x s of Inl e \<Rightarrow> Inl e | Inr s' \<Rightarrow> efold f xs s')"

fun emap :: "('a \<Rightarrow> 'e + 'b) \<Rightarrow> 'a list \<Rightarrow> 'e + 'b list" where
  "emap f [] = Inr []"
| "emap f (x # xs) =
     (case f x of Inl e \<Rightarrow> Inl e
      | Inr y \<Rightarrow> (case emap f xs of Inl e \<Rightarrow> Inl e | Inr ys \<Rightarrow> Inr (y # ys)))"

lemma ebind_Inl [simp, res_simps]: "ebind (Inl e) f = Inl e"
  by (simp add: ebind_def)

lemma ebind_Inr [simp, res_simps]: "ebind (Inr x) f = f x"
  by (simp add: ebind_def)

lemma ebind_eq_Inr [res_simps]: "ebind r f = Inr y \<longleftrightarrow> (\<exists>x. r = Inr x \<and> f x = Inr y)"
  by (cases r) auto

lemma ebind_eq_Inl [res_simps]: "ebind r f = Inl e \<longleftrightarrow> r = Inl e \<or> (\<exists>x. r = Inr x \<and> f x = Inl e)"
  by (cases r) auto

lemma ensure_eq_Inr [simp, res_simps]: "ensure b e = Inr u \<longleftrightarrow> b"
  by (simp add: ensure_def)

lemma ensure_eq_Inl [simp, res_simps]: "ensure b e = Inl e' \<longleftrightarrow> \<not> b \<and> e' = e"
  by (auto simp: ensure_def)

lemma ensure_True [simp]: "ensure True e = Inr ()"
  by (simp add: ensure_def)

lemma ensure_False [simp]: "ensure False e = Inl e"
  by (simp add: ensure_def)

lemma efold_append: "efold f (xs @ ys) s = ebind (efold f xs s) (efold f ys)"
  by (induction xs arbitrary: s) (auto simp: ebind_def split: sum.splits)

lemma efold_preserves:
  assumes "efold f xs s = Inr t" and "P s"
    and "\<And>x s s'. x \<in> set xs \<Longrightarrow> P s \<Longrightarrow> f x s = Inr s' \<Longrightarrow> P s'"
  shows "P t"
  using assms
proof (induction xs arbitrary: s)
  case Nil
  then show ?case by simp
next
  case (Cons x xs)
  from Cons.prems(1) obtain s' where s': "f x s = Inr s'" "efold f xs s' = Inr t"
    by (auto split: sum.splits)
  have "P s'" using Cons.prems(2,3) s'(1) by auto
  then show ?case using Cons.IH [OF s'(2)] Cons.prems(3) by auto
qed

lemma efold_all_steps:
  assumes "efold f xs s = Inr t" and "x \<in> set xs"
  shows "\<exists>s1 s2. f x s1 = Inr s2"
  using assms
proof (induction xs arbitrary: s)
  case Nil
  then show ?case by simp
next
  case (Cons y ys)
  then show ?case by (cases "f y s") auto
qed

lemma emap_eq_Inr: "emap f xs = Inr ys \<longleftrightarrow> list_all2 (\<lambda>x y. f x = Inr y) xs ys"
proof (induction xs arbitrary: ys)
  case Nil
  then show ?case by auto
next
  case (Cons x xs)
  then show ?case
    by (cases ys; cases "f x"; cases "emap f xs") auto
qed

lemma emap_length: "emap f xs = Inr ys \<Longrightarrow> length ys = length xs"
  by (auto simp: emap_eq_Inr dest: list_all2_lengthD)

lemma emap_set: "emap f xs = Inr ys \<Longrightarrow> y \<in> set ys \<Longrightarrow> \<exists>x\<in>set xs. f x = Inr y"
  by (induction xs arbitrary: ys) (auto split: sum.splits)

lemma emap_set_dom: "emap f xs = Inr ys \<Longrightarrow> x \<in> set xs \<Longrightarrow> \<exists>y\<in>set ys. f x = Inr y"
  by (induction xs arbitrary: ys) (auto split: sum.splits)

section \<open>Characters and strings\<close>

abbreviation code_unit :: "char \<Rightarrow> nat" where
  "code_unit c \<equiv> of_char c"

definition is_digit :: "char \<Rightarrow> bool" where
  "is_digit c = (48 \<le> code_unit c \<and> code_unit c \<le> 57)"

definition is_upper :: "char \<Rightarrow> bool" where
  "is_upper c = (65 \<le> code_unit c \<and> code_unit c \<le> 90)"

definition is_lower :: "char \<Rightarrow> bool" where
  "is_lower c = (97 \<le> code_unit c \<and> code_unit c \<le> 122)"

definition is_alpha :: "char \<Rightarrow> bool" where
  "is_alpha c = (is_upper c \<or> is_lower c)"

definition is_alnum :: "char \<Rightarrow> bool" where
  "is_alnum c = (is_alpha c \<or> is_digit c)"

definition is_octal :: "char \<Rightarrow> bool" where
  "is_octal c = (48 \<le> code_unit c \<and> code_unit c \<le> 55)"

text \<open>\<open>[0-9a-f]\<close> and \<open>[0-9A-F]\<close>.\<close>

definition is_lower_hex :: "char \<Rightarrow> bool" where
  "is_lower_hex c = (is_digit c \<or> (97 \<le> code_unit c \<and> code_unit c \<le> 102))"

definition is_upper_hex :: "char \<Rightarrow> bool" where
  "is_upper_hex c = (is_digit c \<or> (65 \<le> code_unit c \<and> code_unit c \<le> 70))"

text \<open>\<open>[\u0000-\u001f\u007f]\<close>.\<close>

definition is_control :: "char \<Rightarrow> bool" where
  "is_control c = (code_unit c \<le> 31 \<or> code_unit c = 127)"

text \<open>The white space and line terminators that \<open>trim\<close> removes and \<open>\s\<close> matches, below 256.\<close>

definition is_space :: "char \<Rightarrow> bool" where
  "is_space c = (code_unit c \<in> {9, 10, 11, 12, 13, 32, 160})"

lemmas char_class_defs = is_digit_def is_upper_def is_lower_def is_alpha_def is_alnum_def
  is_octal_def is_lower_hex_def is_upper_hex_def is_control_def is_space_def

text \<open>\<open>toLowerCase\<close>, on the code units below 256 (the letters A-Z and the Latin-1 capitals).\<close>

definition lower_char :: "char \<Rightarrow> char" where
  "lower_char c =
     (let n = code_unit c in
      if (65 \<le> n \<and> n \<le> 90) \<or> (192 \<le> n \<and> n \<le> 222 \<and> n \<noteq> 215) then char_of (n + 32) else c)"

definition to_lower :: "string \<Rightarrow> string" where
  "to_lower s = map lower_char s"

text \<open>\<open>toUpperCase\<close>, on ASCII.\<close>

definition upper_char :: "char \<Rightarrow> char" where
  "upper_char c = (if is_lower c then char_of (code_unit c - 32) else c)"

definition to_upper :: "string \<Rightarrow> string" where
  "to_upper s = map upper_char s"

lemma code_unit_less: "code_unit c < 256"
  by (rule nat_of_char_less_256)

lemma lower_char_idem [simp]: "lower_char (lower_char c) = lower_char c"
  using code_unit_less [of c] by (auto simp: lower_char_def Let_def)

lemma to_lower_idem [simp]: "to_lower (to_lower s) = to_lower s"
  by (simp add: to_lower_def)

lemma length_to_lower [simp]: "length (to_lower s) = length s"
  by (simp add: to_lower_def)

lemma upper_char_idem [simp]: "upper_char (upper_char c) = upper_char c"
  using code_unit_less [of c] by (auto simp: upper_char_def is_lower_def)

lemma to_upper_idem [simp]: "to_upper (to_upper s) = to_upper s"
  by (simp add: to_upper_def)

definition trim :: "string \<Rightarrow> string" where
  "trim s = rev (dropWhile is_space (rev (dropWhile is_space s)))"

lemma trim_id: "s \<noteq> [] \<Longrightarrow> \<not> is_space (hd s) \<Longrightarrow> \<not> is_space (last s) \<Longrightarrow> trim s = s"
proof -
  assume s: "s \<noteq> []" "\<not> is_space (hd s)" "\<not> is_space (last s)"
  then have "dropWhile is_space s = s" by (cases s) auto
  moreover have "dropWhile is_space (rev s) = rev s"
    using s(1,3) by (cases s rule: rev_cases) auto
  ultimately show "trim s = s" by (simp add: trim_def)
qed

lemma trim_no_space: "\<forall>c\<in>set s. \<not> is_space c \<Longrightarrow> trim s = s"
proof -
  assume n: "\<forall>c\<in>set s. \<not> is_space c"
  then have "dropWhile is_space s = s" by (auto simp: dropWhile_eq_self_iff)
  moreover have "dropWhile is_space (rev s) = rev s"
    unfolding dropWhile_eq_self_iff using n by (metis list.set_sel(1) set_rev)
  ultimately show ?thesis by (simp add: trim_def)
qed

definition starts_with :: "string \<Rightarrow> string \<Rightarrow> bool" where
  "starts_with p s = (take (length p) s = p)"

definition ends_with :: "string \<Rightarrow> string \<Rightarrow> bool" where
  "ends_with p s = starts_with (rev p) (rev s)"

fun index_of_nat :: "string \<Rightarrow> string \<Rightarrow> nat option" where
  "index_of_nat n [] = (if n = [] then Some 0 else None)"
| "index_of_nat n (c # s) =
     (if starts_with n (c # s) then Some 0 else map_option Suc (index_of_nat n s))"

definition str_includes :: "string \<Rightarrow> string \<Rightarrow> bool" where
  "str_includes n s = (index_of_nat n s \<noteq> None)"

lemma starts_with_iff: "starts_with p s \<longleftrightarrow> (\<exists>r. s = p @ r)"
  unfolding starts_with_def by (metis append_eq_conv_conj append_take_drop_id)

lemma starts_with_append [simp]: "starts_with p (p @ r)"
  by (auto simp: starts_with_iff)

lemma starts_with_Nil [simp]: "starts_with [] s"
  by (simp add: starts_with_def)

lemma starts_with_prefix: "starts_with p s = prefix p s"
  by (auto simp: starts_with_iff prefix_def)

text \<open>\<open>String.prototype.split\<close> with a one-character separator: never the empty list.\<close>

fun split_char :: "char \<Rightarrow> string \<Rightarrow> string list" where
  "split_char d [] = [[]]"
| "split_char d (c # s) =
     (if c = d then [] # split_char d s
      else (case split_char d s of [] \<Rightarrow> [[c]] | w # ws \<Rightarrow> (c # w) # ws))"

text \<open>\<open>split\<close> at runs of a character class, as with \<open>/[...]+/\<close>, empty pieces dropped.\<close>

fun split_class :: "(char \<Rightarrow> bool) \<Rightarrow> string \<Rightarrow> string \<Rightarrow> string list" where
  "split_class P acc [] = (if acc = [] then [] else [rev acc])"
| "split_class P acc (c # s) =
     (if P c then (if acc = [] then [] else [rev acc]) @ split_class P [] s
      else split_class P (c # acc) s)"

fun join :: "string \<Rightarrow> string list \<Rightarrow> string" where
  "join sep [] = []"
| "join sep [w] = w"
| "join sep (w # v # ws) = w @ sep @ join sep (v # ws)"

lemma split_char_nonempty [simp]: "split_char d s \<noteq> []"
  by (induction s) (auto split: list.splits)

lemma split_char_no_sep: "w \<in> set (split_char d s) \<Longrightarrow> d \<notin> set w"
proof (induction s arbitrary: w)
  case (Cons c s)
  then show ?case
    by (cases "split_char d s") (auto split: if_splits)
qed simp

lemma split_char_id: "d \<notin> set w \<Longrightarrow> split_char d w = [w]"
  by (induction w) auto

lemma split_char_cons: "d \<notin> set w \<Longrightarrow> split_char d (w @ d # s) = w # split_char d s"
  by (induction w) auto

lemma split_char_join:
  "ws \<noteq> [] \<Longrightarrow> (\<And>w. w \<in> set ws \<Longrightarrow> d \<notin> set w) \<Longrightarrow> split_char d (join [d] ws) = ws"
proof (induction ws rule: induct_list012)
  case (2 w)
  then show ?case by (simp add: split_char_id)
next
  case (3 w v ws)
  then show ?case by (simp add: split_char_cons)
qed simp

lemma split_class_members:
  "\<forall>c\<in>set acc. \<not> P c \<Longrightarrow> w \<in> set (split_class P acc s) \<Longrightarrow> w \<noteq> [] \<and> (\<forall>c\<in>set w. \<not> P c)"
proof (induction s arbitrary: acc)
  case Nil
  then show ?case by (auto split: if_splits)
next
  case (Cons c s)
  show ?case
  proof (cases "P c")
    case True
    with Cons.prems consider "acc \<noteq> [] \<and> w = rev acc" | "w \<in> set (split_class P [] s)"
      by (auto split: if_splits)
    then show ?thesis
    proof cases
      case 1
      then show ?thesis using Cons.prems(1) by auto
    next
      case 2
      show ?thesis by (rule Cons.IH [OF _ 2]) simp
    qed
  next
    case False
    then have "w \<in> set (split_class P (c # acc) s)" using Cons.prems(2) by simp
    moreover have "\<forall>x\<in>set (c # acc). \<not> P x" using False Cons.prems(1) by simp
    ultimately show ?thesis by (rule Cons.IH [rotated])
  qed
qed

lemma split_class_run:
  "\<forall>c\<in>set w. \<not> P c \<Longrightarrow> split_class P acc (w @ s) = split_class P (rev w @ acc) s"
  by (induction w arbitrary: acc) auto

lemma split_class_join:
  assumes "P d" and "\<forall>w\<in>set ws. w \<noteq> [] \<and> (\<forall>c\<in>set w. \<not> P c)"
  shows "split_class P [] (join [d] ws) = ws"
  using assms(2)
proof (induction ws rule: induct_list012)
  case 1
  then show ?case by simp
next
  case (2 w)
  then show ?case using split_class_run [of w P "[]" "[]"] by auto
next
  case (3 w v ws)
  then have "split_class P [] (w @ d # join [d] (v # ws)) = split_class P (rev w) (d # join [d] (v # ws))"
    using split_class_run [of w P "[]" "d # join [d] (v # ws)"] by simp
  with 3 assms(1) show ?case by simp
qed

text \<open>Decimal numerals: \<open>String(n)\<close> and template interpolation of a number.\<close>

definition digit_char :: "nat \<Rightarrow> char" where
  "digit_char n = char_of (48 + n)"

fun nat_str :: "nat \<Rightarrow> string" where
  "nat_str n = (if n < 10 then [digit_char n] else nat_str (n div 10) @ [digit_char (n mod 10)])"

declare nat_str.simps [simp del]

definition int_str :: "int \<Rightarrow> string" where
  "int_str i = (if i < 0 then CHR ''-'' # nat_str (nat (- i)) else nat_str (nat i))"

fun digits_value :: "nat \<Rightarrow> string \<Rightarrow> nat" where
  "digits_value acc [] = acc"
| "digits_value acc (c # s) = digits_value (10 * acc + (code_unit c - 48)) s"

lemma digits_value_append: "digits_value a (s @ t) = digits_value (digits_value a s) t"
  by (induction s arbitrary: a) auto

lemma digits_value_nat_str: "digits_value 0 (nat_str n) = n"
proof (induction n rule: nat_str.induct)
  case (1 n)
  show ?case
  proof (cases "n < 10")
    case True
    then show ?thesis by (subst nat_str.simps) (simp add: digit_char_def)
  next
    case False
    with 1 have "digits_value 0 (nat_str (n div 10)) = n div 10" by simp
    with False show ?thesis
      by (subst nat_str.simps) (simp add: digit_char_def digits_value_append)
  qed
qed

lemma nat_str_inject [simp]: "nat_str m = nat_str n \<longleftrightarrow> m = n"
  using digits_value_nat_str by metis

lemma nat_str_digits: "c \<in> set (nat_str n) \<Longrightarrow> is_digit c"
proof (induction n rule: nat_str.induct)
  case (1 n)
  have d: "is_digit (digit_char k)" if "k < 10" for k
    using that by (simp add: is_digit_def digit_char_def)
  show ?case
  proof (cases "n < 10")
    case True
    with 1(2) d show ?thesis by (subst (asm) nat_str.simps) simp
  next
    case False
    with 1(2) have "c \<in> set (nat_str (n div 10)) \<or> c = digit_char (n mod 10)"
      by (subst (asm) nat_str.simps) auto
    with 1(1) False d show ?thesis by auto
  qed
qed

section \<open>Maps and sets in insertion order\<close>

text \<open>\<open>[...new Set(xs)]\<close>: each element once, at its first position.\<close>

fun uniq_from :: "'a set \<Rightarrow> 'a list \<Rightarrow> 'a list" where
  "uniq_from S [] = []"
| "uniq_from S (x # xs) = (if x \<in> S then uniq_from S xs else x # uniq_from (insert x S) xs)"

definition uniq :: "'a list \<Rightarrow> 'a list" where
  "uniq xs = uniq_from {} xs"

lemma set_uniq_from [simp]: "set (uniq_from S xs) = set xs - S"
  by (induction xs arbitrary: S) auto

lemma distinct_uniq_from [simp]: "distinct (uniq_from S xs)"
  by (induction xs arbitrary: S) auto

lemma set_uniq [simp]: "set (uniq xs) = set xs"
  by (simp add: uniq_def)

lemma distinct_uniq [simp]: "distinct (uniq xs)"
  by (simp add: uniq_def)

lemma uniq_from_distinct: "distinct xs \<Longrightarrow> set xs \<inter> S = {} \<Longrightarrow> uniq_from S xs = xs"
  by (induction xs arbitrary: S) auto

lemma uniq_idem [simp]: "uniq (uniq xs) = uniq xs"
  by (simp add: uniq_def uniq_from_distinct)

lemma uniq_eq_Nil [simp]: "uniq xs = [] \<longleftrightarrow> xs = []"
  by (metis set_empty set_uniq)

text \<open>\<open>Map\<close>: \<open>get\<close>, \<open>set\<close>, \<open>delete\<close> and the keys in insertion order.\<close>

type_synonym ('k, 'v) jsmap = "('k \<times> 'v) list"

definition map_get :: "('k, 'v) jsmap \<Rightarrow> 'k \<Rightarrow> 'v option" where
  "map_get m k = map_of m k"

definition map_set :: "'k \<Rightarrow> 'v \<Rightarrow> ('k, 'v) jsmap \<Rightarrow> ('k, 'v) jsmap" where
  "map_set k v m = AList.update k v m"

definition map_del :: "'k \<Rightarrow> ('k, 'v) jsmap \<Rightarrow> ('k, 'v) jsmap" where
  "map_del k m = AList.delete k m"

definition map_keys :: "('k, 'v) jsmap \<Rightarrow> 'k list" where
  "map_keys m = map fst m"

text \<open>\<open>new Map(entries)\<close>.\<close>

definition map_new :: "('k \<times> 'v) list \<Rightarrow> ('k, 'v) jsmap" where
  "map_new es = fold (\<lambda>(k, v). map_set k v) es []"

text \<open>
  The contract of a map on which the components rely, and what follows from it for the loops
  that fill one.
\<close>

locale ordered_map =
  fixes get :: "'m \<Rightarrow> 'k \<Rightarrow> 'v option"
    and put :: "'k \<Rightarrow> 'v \<Rightarrow> 'm \<Rightarrow> 'm"
    and del :: "'k \<Rightarrow> 'm \<Rightarrow> 'm"
    and keys :: "'m \<Rightarrow> 'k list"
    and empty :: "'m"
  assumes get_empty: "get empty k = None"
    and get_put: "get (put k v m) k' = (if k' = k then Some v else get m k')"
    and get_del: "get (del k m) k' = (if k' = k then None else get m k')"
    and keys_get: "k \<in> set (keys m) \<longleftrightarrow> get m k \<noteq> None"
    and keys_put: "keys (put k v m) = (if k \<in> set (keys m) then keys m else keys m @ [k])"
    and keys_empty: "keys empty = []"
begin

definition put_all :: "('k \<times> 'v) list \<Rightarrow> 'm \<Rightarrow> 'm" where
  "put_all es m = fold (\<lambda>(k, v). put k v) es m"

lemma put_all_simps [simp]:
  "put_all [] m = m"
  "put_all ((k, v) # es) m = put_all es (put k v m)"
  by (simp_all add: put_all_def)

lemma get_put_all: "get (put_all es m) k = (case map_of (rev es) k of Some v \<Rightarrow> Some v | None \<Rightarrow> get m k)"
proof (induction es arbitrary: m)
  case (Cons e es)
  obtain a b where "e = (a, b)" by (cases e)
  with Cons show ?case
    by (auto simp: get_put map_add_def split: option.splits)
qed simp

lemma keys_put_all: "keys (put_all es m) = keys m @ uniq_from (set (keys m)) (map fst es)"
proof (induction es arbitrary: m)
  case (Cons e es)
  obtain a b where "e = (a, b)" by (cases e)
  with Cons show ?case by (simp add: keys_put)
qed simp

lemma keys_put_all_empty: "keys (put_all es empty) = uniq (map fst es)"
  by (simp add: keys_put_all keys_empty uniq_def)

lemma distinct_keys_put: "distinct (keys m) \<Longrightarrow> distinct (keys (put k v m))"
  by (simp add: keys_put)

lemma get_put_all_distinct:
  "distinct (map fst es) \<Longrightarrow> get (put_all es empty) k = map_of es k"
proof -
  assume d: "distinct (map fst es)"
  have "map_of (rev es) k = map_of es k"
    using map_of_inject_set [of "rev es" es] d by (simp add: rev_map [symmetric])
  then show ?thesis by (simp add: get_put_all get_empty split: option.split)
qed

end

interpretation jsm: ordered_map map_get map_set map_del map_keys "[] :: ('k, 'v) jsmap"
proof unfold_locales
  fix k k' :: 'k and v :: 'v and m :: "('k, 'v) jsmap"
  show "map_get ([] :: ('k, 'v) jsmap) k = None" by (simp add: map_get_def)
  show "map_get (map_set k v m) k' = (if k' = k then Some v else map_get m k')"
    by (simp add: map_get_def map_set_def update_conv')
  show "map_get (map_del k m) k' = (if k' = k then None else map_get m k')"
    by (simp add: map_get_def map_del_def delete_conv')
  show "k \<in> set (map_keys m) \<longleftrightarrow> map_get m k \<noteq> None"
    by (auto simp: map_get_def map_keys_def map_of_eq_None_iff)
  show "map_keys (map_set k v m) = (if k \<in> set (map_keys m) then map_keys m else map_keys m @ [k])"
    by (auto simp: map_keys_def map_set_def update_keys)
  show "map_keys ([] :: ('k, 'v) jsmap) = []" by (simp add: map_keys_def)
qed

lemma map_new_put_all: "map_new es = jsm.put_all es []"
  by (simp add: map_new_def jsm.put_all_def)

lemma map_get_set_same [simp]: "map_get (map_set k v m) k = Some v"
  by (simp add: jsm.get_put)

lemma map_get_set_other [simp]: "k' \<noteq> k \<Longrightarrow> map_get (map_set k v m) k' = map_get m k'"
  by (simp add: jsm.get_put)

lemma map_get_Nil [simp]: "map_get [] k = None"
  by (simp add: map_get_def)

lemma map_get_new_in: "map_get (map_new es) k = Some v \<Longrightarrow> (k, v) \<in> set es"
  by (auto simp: map_new_put_all jsm.get_put_all split: option.splits dest: map_of_SomeD)

lemma map_get_new_None: "map_get (map_new es) k = None \<longleftrightarrow> k \<notin> fst ` set es"
proof -
  have "map_of (rev es) k = None \<longleftrightarrow> k \<notin> fst ` set es" by (simp add: map_of_eq_None_iff)
  then show ?thesis
    by (auto simp: map_new_put_all jsm.get_put_all split: option.splits)
qed

section \<open>Sorting\<close>

text \<open>
  \<open>Array.prototype.sort(cmp)\<close>: stable, and sorted when \<open>cmp\<close> is a consistent comparator
  in the sense of ECMA-262. The insertion below puts an element before every element it does
  not exceed, so equal elements keep their order.
\<close>

fun js_insert :: "('a \<Rightarrow> 'a \<Rightarrow> int) \<Rightarrow> 'a \<Rightarrow> 'a list \<Rightarrow> 'a list" where
  "js_insert cmp x [] = [x]"
| "js_insert cmp x (y # ys) = (if cmp x y \<le> 0 then x # y # ys else y # js_insert cmp x ys)"

definition js_sort :: "('a \<Rightarrow> 'a \<Rightarrow> int) \<Rightarrow> 'a list \<Rightarrow> 'a list" where
  "js_sort cmp xs = foldr (js_insert cmp) xs []"

lemma mset_js_insert [simp]: "mset (js_insert cmp x xs) = add_mset x (mset xs)"
  by (induction xs) auto

lemma mset_js_sort [simp]: "mset (js_sort cmp xs) = mset xs"
  by (induction xs) (auto simp: js_sort_def)

lemma set_js_sort [simp]: "set (js_sort cmp xs) = set xs"
  by (metis mset_js_sort set_mset_mset)

lemma length_js_sort [simp]: "length (js_sort cmp xs) = length xs"
  by (metis mset_js_sort size_mset)

lemma distinct_map_js_sort [simp]: "distinct (map f (js_sort cmp xs)) \<longleftrightarrow> distinct (map f xs)"
  by (metis mset_js_sort mset_map mset_eq_imp_distinct_iff)

lemma js_sort_eq_Nil [simp]: "js_sort cmp xs = [] \<longleftrightarrow> xs = []"
  by (metis length_0_conv length_js_sort)

lemma set_js_insert [simp]: "set (js_insert cmp x xs) = insert x (set xs)"
  by (induction xs) auto

locale consistent_comparator =
  fixes cmp :: "'a \<Rightarrow> 'a \<Rightarrow> int"
  assumes cmp_refl: "cmp x x = 0"
    and cmp_total: "cmp x y \<le> 0 \<or> cmp y x \<le> 0"
    and cmp_trans: "cmp x y \<le> 0 \<Longrightarrow> cmp y z \<le> 0 \<Longrightarrow> cmp x z \<le> 0"
begin

lemma sorted_insert:
  "sorted_wrt (\<lambda>x y. cmp x y \<le> 0) xs \<Longrightarrow> sorted_wrt (\<lambda>x y. cmp x y \<le> 0) (js_insert cmp x xs)"
proof (induction xs)
  case (Cons y ys)
  show ?case
  proof (cases "cmp x y \<le> 0")
    case True
    with Cons.prems show ?thesis by (auto intro: cmp_trans)
  next
    case False
    then have "cmp y x \<le> 0" using cmp_total by blast
    with False Cons show ?thesis by simp
  qed
qed simp

lemma sorted_sort: "sorted_wrt (\<lambda>x y. cmp x y \<le> 0) (js_sort cmp xs)"
  by (induction xs) (auto simp: js_sort_def sorted_insert)

lemma insert_stable:
  "filter (\<lambda>y. cmp a y \<le> 0 \<and> cmp y a \<le> 0) (js_insert cmp x xs) =
   filter (\<lambda>y. cmp a y \<le> 0 \<and> cmp y a \<le> 0) (x # xs)"
proof (induction xs)
  case (Cons y ys)
  show ?case
  proof (cases "cmp x y \<le> 0")
    case False
    then have "\<not> ((cmp a x \<le> 0 \<and> cmp x a \<le> 0) \<and> (cmp a y \<le> 0 \<and> cmp y a \<le> 0))"
      using cmp_trans by blast
    with False Cons show ?thesis by auto
  qed simp
qed simp

lemma sort_stable:
  "filter (\<lambda>y. cmp a y \<le> 0 \<and> cmp y a \<le> 0) (js_sort cmp xs) =
   filter (\<lambda>y. cmp a y \<le> 0 \<and> cmp y a \<le> 0) xs"
  by (induction xs) (simp_all add: js_sort_def insert_stable)

lemma sort_sorted_id: "sorted_wrt (\<lambda>x y. cmp x y \<le> 0) xs \<Longrightarrow> js_sort cmp xs = xs"
proof (induction xs)
  case (Cons x xs)
  then have "js_sort cmp xs = xs" by simp
  with Cons.prems show ?case by (cases xs) (auto simp: js_sort_def)
qed (simp add: js_sort_def)

lemma sort_idem: "js_sort cmp (js_sort cmp xs) = js_sort cmp xs"
  by (rule sort_sorted_id) (rule sorted_sort)

end

text \<open>
  The default comparison of \<open>sort()\<close> is by code units; \<open>localeCompare\<close> in the default
  (root) collation compares first the letters without their case, punctuation before digits
  before letters, and only then lower case before upper case.
\<close>

definition order_cmp :: "'a::linorder \<Rightarrow> 'a \<Rightarrow> int" where
  "order_cmp x y = (if x < y then - 1 else if x = y then 0 else 1)"

lemma order_cmp_le [simp]: "order_cmp x y \<le> 0 \<longleftrightarrow> x \<le> y"
  by (auto simp: order_cmp_def)

lemma order_cmp_zero [simp]: "order_cmp x y = 0 \<longleftrightarrow> x = y"
  by (auto simp: order_cmp_def)

lemma order_cmp_less [simp]: "order_cmp x y < 0 \<longleftrightarrow> x < y"
  by (auto simp: order_cmp_def)

interpretation units: consistent_comparator "order_cmp :: string \<Rightarrow> string \<Rightarrow> int"
  by unfold_locales auto

definition collation_order :: string where
  "collation_order = ''_-,;:!?.'' @ [CHR 39, CHR 34] @ ''()[]{}@*/'' @ [CHR 92] @ ''&#%'' @ [CHR 96] @ ''^+<=>|~$0123456789''"

fun position :: "'a \<Rightarrow> 'a list \<Rightarrow> nat" where
  "position x [] = 0"
| "position x (y # ys) = (if x = y then 0 else Suc (position x ys))"

definition primary_weight :: "char \<Rightarrow> nat" where
  "primary_weight c =
     (if is_space c then code_unit c
      else if is_alpha c then 1000 + code_unit (lower_char c)
      else if c \<in> set collation_order then 500 + position c collation_order
      else 2000 + code_unit c)"

definition tertiary_weight :: "char \<Rightarrow> nat" where
  "tertiary_weight c = (if is_upper c then 1 else 0)"

definition locale_compare :: "string \<Rightarrow> string \<Rightarrow> int" where
  "locale_compare s t =
     (let p = order_cmp (map primary_weight s) (map primary_weight t) in
      if p \<noteq> 0 then p else order_cmp (map tertiary_weight s) (map tertiary_weight t))"

lemma locale_compare_le:
  "locale_compare s t \<le> 0 \<longleftrightarrow>
     map primary_weight s < map primary_weight t \<or>
     map primary_weight s = map primary_weight t \<and> map tertiary_weight s \<le> map tertiary_weight t"
  by (auto simp: locale_compare_def Let_def order_cmp_def)

interpretation collate: consistent_comparator locale_compare
proof unfold_locales
  fix x y z :: string
  show "locale_compare x x = 0" by (simp add: locale_compare_def)
  show "locale_compare x y \<le> 0 \<or> locale_compare y x \<le> 0" by (auto simp: locale_compare_le)
  show "locale_compare x y \<le> 0 \<Longrightarrow> locale_compare y z \<le> 0 \<Longrightarrow> locale_compare x z \<le> 0"
    by (auto simp: locale_compare_le)
qed

end
