(* ===== verification/Node_Path.thy ===== *)
theory Node_Path
  imports Js_Prelude
begin

text \<open>
  Node's \<open>path.posix\<close> as the port uses it: \<open>normalize\<close>, \<open>join\<close>, \<open>resolve\<close>,
  \<open>relative\<close>, \<open>basename\<close> and \<open>isAbsolute\<close>. A path is a string; its segments are
  what \<open>/\<close> separates. \<open>normalize_segments\<close> is Node's \<open>normalizeString\<close>: it drops empty
  and \<open>.\<close> segments and lets \<open>..\<close> cancel the segment before it.
\<close>

abbreviation slash :: char where
  "slash \<equiv> CHR ''/''"

abbreviation dotdot :: string where
  "dotdot \<equiv> ''..''"

definition is_absolute :: "string \<Rightarrow> bool" where
  "is_absolute p = starts_with ''/'' p"

definition segments :: "string \<Rightarrow> string list" where
  "segments p = split_char slash p"

text \<open>The accumulator holds the segments kept so far, the last one first.\<close>

fun norm_acc :: "bool \<Rightarrow> string list \<Rightarrow> string list \<Rightarrow> string list" where
  "norm_acc up acc [] = rev acc"
| "norm_acc up acc (s # ss) =
     (if s = [] \<or> s = ''.'' then norm_acc up acc ss
      else if s = dotdot then
        (case acc of
           [] \<Rightarrow> norm_acc up (if up then [dotdot] else []) ss
         | t # ts \<Rightarrow>
             if t = dotdot then norm_acc up (if up then dotdot # acc else acc) ss
             else norm_acc up ts ss)
      else norm_acc up (s # acc) ss)"

definition normalize_segments :: "bool \<Rightarrow> string list \<Rightarrow> string list" where
  "normalize_segments up ss = norm_acc up [] ss"

definition path_normalize :: "string \<Rightarrow> string" where
  "path_normalize p =
     (if p = [] then ''.''
      else let absolute = is_absolute p; trailing = ends_with ''/'' p;
               body = join ''/'' (normalize_segments (\<not> absolute) (segments p))
           in if body = [] then (if absolute then ''/'' else if trailing then ''./'' else ''.'')
              else (if absolute then ''/'' else []) @ body @ (if trailing then ''/'' else []))"

definition path_join :: "string list \<Rightarrow> string" where
  "path_join ps =
     (let joined = join ''/'' (filter (\<lambda>p. p \<noteq> []) ps)
      in if joined = [] then ''.'' else path_normalize joined)"

text \<open>
  \<open>resolve\<close> takes its arguments from the right until the path is absolute, starting from
  the working directory \<open>cwd\<close>. The result is the list of its segments; \<open>abs_path\<close> writes
  it as a string.
\<close>

fun resolve_parts :: "string \<Rightarrow> string list \<Rightarrow> string list" where
  "resolve_parts cwd [] = segments cwd"
| "resolve_parts cwd (p # ps) =
     (if p = [] then resolve_parts cwd ps
      else if is_absolute p then segments p
      else resolve_parts cwd ps @ segments p)"

definition resolve_segments :: "string \<Rightarrow> string list \<Rightarrow> string list" where
  "resolve_segments cwd ps = normalize_segments False (resolve_parts cwd (rev ps))"

definition abs_path :: "string list \<Rightarrow> string" where
  "abs_path ss = CHR ''/'' # join ''/'' ss"

definition path_resolve :: "string \<Rightarrow> string list \<Rightarrow> string" where
  "path_resolve cwd ps = abs_path (resolve_segments cwd ps)"

fun drop_common :: "string list \<Rightarrow> string list \<Rightarrow> string list \<times> string list" where
  "drop_common (a # as) (b # bs) = (if a = b then drop_common as bs else (a # as, b # bs))"
| "drop_common as bs = (as, bs)"

text \<open>\<open>path.relative\<close> between two resolved paths, as its segments and as a string.\<close>

definition relative_segments :: "string list \<Rightarrow> string list \<Rightarrow> string list" where
  "relative_segments from to =
     (case drop_common from to of (fs, ts) \<Rightarrow> replicate (length fs) dotdot @ ts)"

definition path_relative :: "string list \<Rightarrow> string list \<Rightarrow> string" where
  "path_relative from to = join ''/'' (relative_segments from to)"

definition path_basename :: "string \<Rightarrow> string" where
  "path_basename p = (case filter (\<lambda>s. s \<noteq> []) (segments p) of [] \<Rightarrow> [] | ss \<Rightarrow> last ss)"

section \<open>Laws\<close>

text \<open>A segment that survives normalisation is a real name: not empty, not a dot.\<close>

definition real_name :: "string \<Rightarrow> bool" where
  "real_name s = (s \<noteq> [] \<and> s \<noteq> ''.'' \<and> s \<noteq> dotdot)"

definition plain_segment :: "string \<Rightarrow> bool" where
  "plain_segment s = (real_name s \<and> slash \<notin> set s)"

lemma norm_acc_real [simp]: "real_name s \<Longrightarrow> norm_acc up acc (s # ss) = norm_acc up (s # acc) ss"
  by (simp add: real_name_def)

lemma norm_acc_skip [simp]: "s = [] \<or> s = ''.'' \<Longrightarrow> norm_acc up acc (s # ss) = norm_acc up acc ss"
  by simp

lemma norm_acc_up:
  "list_all real_name acc \<Longrightarrow> norm_acc False acc (dotdot # ss) = norm_acc False (tl acc) ss"
  by (cases acc) (auto simp: real_name_def)

lemma norm_acc_plain_id: "list_all real_name ss \<Longrightarrow> norm_acc up acc ss = rev acc @ ss"
  by (induction ss arbitrary: acc) (auto simp del: norm_acc.simps(2))

lemma norm_acc_no_dots:
  "list_all real_name acc \<Longrightarrow> list_all real_name (norm_acc False acc ss)"
proof (induction ss arbitrary: acc)
  case (Cons s ss)
  have tl: "list_all real_name (tl acc)" using Cons.prems by (cases acc) auto
  consider "s = [] \<or> s = ''.''" | "s = dotdot" | "real_name s" by (auto simp: real_name_def)
  then show ?case
  proof cases
    case 1
    then show ?thesis using Cons by (simp only: norm_acc_skip)
  next
    case 2
    then show ?thesis using Cons.IH [OF tl] Cons.prems by (simp only: norm_acc_up)
  next
    case 3
    then show ?thesis using Cons.IH [of "s # acc"] Cons.prems by (simp del: norm_acc.simps(2))
  qed
qed simp

lemma segments_no_slash: "s \<in> set (segments p) \<Longrightarrow> slash \<notin> set s"
  unfolding segments_def by (rule split_char_no_sep)

lemma norm_acc_subset:
  "list_all real_name acc \<Longrightarrow> set (norm_acc False acc ss) \<subseteq> set acc \<union> set ss"
proof (induction ss arbitrary: acc)
  case (Cons s ss)
  have tl: "list_all real_name (tl acc)" "set (tl acc) \<subseteq> set acc"
    using Cons.prems by (cases acc; auto)+
  consider "s = [] \<or> s = ''.''" | "s = dotdot" | "real_name s" by (auto simp: real_name_def)
  then show ?case
  proof cases
    case 1
    then have "norm_acc False acc (s # ss) = norm_acc False acc ss" by (rule norm_acc_skip)
    then show ?thesis using Cons.IH [OF Cons.prems] by auto
  next
    case 2
    then have "norm_acc False acc (s # ss) = norm_acc False (tl acc) ss"
      using norm_acc_up [OF Cons.prems] by simp
    then show ?thesis using Cons.IH [OF tl(1)] tl(2) by auto
  next
    case 3
    then have "norm_acc False acc (s # ss) = norm_acc False (s # acc) ss" by (rule norm_acc_real)
    then show ?thesis using Cons.IH [of "s # acc"] Cons.prems 3 by auto
  qed
qed simp

lemma normalize_segments_plain:
  assumes "\<forall>s\<in>set ss. slash \<notin> set s"
  shows "\<forall>s\<in>set (normalize_segments False ss). plain_segment s"
  using norm_acc_no_dots [of "[]" ss] norm_acc_subset [of "[]" ss] assms
  unfolding normalize_segments_def plain_segment_def list_all_iff by auto

lemma normalize_segments_id:
  "\<forall>s\<in>set ss. plain_segment s \<Longrightarrow> normalize_segments up ss = ss"
  unfolding normalize_segments_def plain_segment_def
  using norm_acc_plain_id [of ss up "[]"] by (simp add: list_all_iff)

lemma drop_common_self [simp]: "drop_common xs xs = ([], [])"
  by (induction xs) auto

lemma drop_common_Nil [simp]: "drop_common [] ys = ([], ys)"
  by (cases ys) auto

lemma drop_common_prefix [simp]: "drop_common xs (xs @ ys) = ([], ys)"
  by (induction xs) auto

lemma drop_common_iff: "drop_common xs ys = ([], zs) \<longleftrightarrow> ys = xs @ zs"
  by (induction xs ys rule: drop_common.induct) (auto split: if_splits)

lemma relative_segments_below [simp]: "relative_segments root (root @ rest) = rest"
  by (simp add: relative_segments_def)

text \<open>
  Where no \<open>..\<close> segment comes first, the target lies below the root: this is what the
  checks on \<open>path.relative\<close> in the source rest on.
\<close>

lemma relative_segments_inside:
  assumes "relative_segments root target = rest" and "rest = [] \<or> hd rest \<noteq> dotdot"
  shows "target = root @ rest"
proof -
  obtain fs ts where d: "drop_common root target = (fs, ts)" by fastforce
  with assms have "fs = []" by (cases fs) (auto simp: relative_segments_def)
  with d assms(1) show ?thesis by (simp add: relative_segments_def drop_common_iff)
qed

end
