(* ===== verification/Linux_Target.thy ===== *)
theory Linux_Target
  imports Node_Path
begin

text \<open>
  \<open>scripts/lib/linux-target-context.js\<close>: what the port knows about the Linux host it builds
  for. The host is a parameter (\<open>host\<close>): which files can be read or executed, and the process's
  environment, architecture and kernel release. \<open>undefined\<close> and \<open>null\<close> are \<open>None\<close>.
\<close>

section \<open>Tokens and values\<close>

definition is_quote :: "char \<Rightarrow> bool" where
  "is_quote c = (c = CHR 34 \<or> c = CHR 39)"

definition orEmpty :: "string option \<Rightarrow> string" where
  "orEmpty v = (case v of None \<Rightarrow> [] | Some s \<Rightarrow> s)"

text \<open>\<open>a || b\<close> on strings that may be missing: the empty string is falsy.\<close>

definition orElse :: "string option \<Rightarrow> string option \<Rightarrow> string option" where
  "orElse a b = (case a of Some (c # s) \<Rightarrow> a | _ \<Rightarrow> b)"

definition trimOsReleaseValue :: "string option \<Rightarrow> string" where
  "trimOsReleaseValue value =
     (let t = trim (orEmpty value);
          u = (case t of [] \<Rightarrow> [] | c # r \<Rightarrow> if is_quote c then r else t)
      in if u \<noteq> [] \<and> is_quote (last u) then butlast u else u)"

definition normalizeToken :: "string option \<Rightarrow> string" where
  "normalizeToken value = to_lower (trim (orEmpty value))"

definition normalizeArch :: "string option \<Rightarrow> string" where
  "normalizeArch value =
     (let arch = normalizeToken value in
      if arch = ''x64'' then ''x86_64''
      else if arch = ''arm64'' then ''aarch64''
      else if arch = ''ia32'' then ''i686''
      else arch)"

definition splitTokens :: "string option \<Rightarrow> string list" where
  "splitTokens value =
     filter (\<lambda>t. t \<noteq> []) (map (\<lambda>t. normalizeToken (Some t)) (split_class is_space [] (orEmpty value)))"

definition booleanOverride :: "string option \<Rightarrow> bool option" where
  "booleanOverride value =
     (let normalized = normalizeToken value in
      if normalized = [] then None
      else if normalized \<in> {''1'', ''true'', ''yes'', ''on''} then Some True
      else if normalized \<in> {''0'', ''false'', ''no'', ''off''} then Some False
      else None)"

text \<open>Rest arguments may be arrays of arrays; \<open>flattenValues\<close> is their fringe.\<close>

datatype nested = Value string | Values "nested list"

fun flatten1 :: "nested \<Rightarrow> string list" where
  "flatten1 (Value s) = [s]"
| "flatten1 (Values vs) = concat (map flatten1 vs)"

definition flattenValues :: "nested list \<Rightarrow> string list" where
  "flattenValues vs = concat (map flatten1 vs)"

text \<open>\<open>split(/\r?\n/)\<close>.\<close>

definition chomp_cr :: "string \<Rightarrow> string" where
  "chomp_cr l = (if l \<noteq> [] \<and> last l = CHR 13 then butlast l else l)"

definition split_lines :: "string \<Rightarrow> string list" where
  "split_lines s =
     (let ls = split_char (CHR 10) s in map chomp_cr (butlast ls) @ [last ls])"

definition parseOsRelease_line :: "string \<Rightarrow> (string, string) jsmap \<Rightarrow> (string, string) jsmap" where
  "parseOsRelease_line line fields =
     (let trimmed = trim line in
      if trimmed = [] \<or> starts_with ''#'' trimmed then fields
      else case index_of_nat ''='' trimmed of
             None \<Rightarrow> fields
           | Some sep \<Rightarrow>
               if sep = 0 then fields
               else map_set (take sep trimmed)
                      (trimOsReleaseValue (Some (drop (Suc sep) trimmed))) fields)"

definition parseOsRelease :: "string option \<Rightarrow> (string, string) jsmap" where
  "parseOsRelease content = fold parseOsRelease_line (split_lines (orEmpty content)) []"

section \<open>Versions\<close>

definition versionMajor :: "string option \<Rightarrow> nat option" where
  "versionMajor versionId =
     (let ds = takeWhile is_digit (orEmpty versionId) in
      if ds = [] then None else Some (digits_value 0 ds))"

definition versionParts :: "string option \<Rightarrow> nat list" where
  "versionParts versionId =
     map (digits_value 0) (split_class (\<lambda>c. \<not> is_digit c) [] (orEmpty versionId))"

text \<open>The loop over \<open>max(left.length, right.length)\<close> positions, a missing part being 0.\<close>

fun compareVersionParts :: "nat list \<Rightarrow> nat list \<Rightarrow> int" where
  "compareVersionParts [] [] = 0"
| "compareVersionParts (l # ls) [] = (if l \<noteq> 0 then 1 else compareVersionParts ls [])"
| "compareVersionParts [] (r # rs) = (if 0 \<noteq> r then - 1 else compareVersionParts [] rs)"
| "compareVersionParts (l # ls) (r # rs) =
     (if l \<noteq> r then (if l > r then 1 else - 1) else compareVersionParts ls rs)"

section \<open>The host\<close>

datatype host_file = Readable string | Unreadable

record host =
  files :: "string \<Rightarrow> host_file option"
  canExecute :: "string \<Rightarrow> bool"
  env :: "string \<Rightarrow> string option"
  process_arch :: string
  os_release :: string

definition existsSync :: "host \<Rightarrow> string \<Rightarrow> bool" where
  "existsSync h p = (files h p \<noteq> None)"

fun readFirstOsRelease :: "host \<Rightarrow> string option list \<Rightarrow> string option \<times> (string, string) jsmap" where
  "readFirstOsRelease h [] = (None, [])"
| "readFirstOsRelease h (p # ps) =
     (case p of
        None \<Rightarrow> readFirstOsRelease h ps
      | Some filePath \<Rightarrow>
          if filePath = [] \<or> \<not> existsSync h filePath then readFirstOsRelease h ps
          else (case files h filePath of
                  Some (Readable content) \<Rightarrow> (Some filePath, parseOsRelease (Some content))
                | _ \<Rightarrow> readFirstOsRelease h ps))"

definition executableExists :: "host \<Rightarrow> string \<Rightarrow> bool" where
  "executableExists h command =
     (if command = [] then False
      else if is_absolute command then canExecute h command
      else list_ex (\<lambda>dir. dir \<noteq> [] \<and> canExecute h (path_join [dir, command]))
             (split_char (CHR '':'') (orEmpty (env h ''PATH''))))"

definition tokenMatches :: "string list \<Rightarrow> nested list \<Rightarrow> bool" where
  "tokenMatches tokens expected =
     (let wanted = filter (\<lambda>t. t \<noteq> []) (map (\<lambda>v. normalizeToken (Some v)) (flattenValues expected))
      in list_ex (\<lambda>token. token \<in> set wanted) tokens)"

definition DEB_IDS :: "string list" where
  "DEB_IDS = [''debian'', ''ubuntu'', ''linuxmint'', ''pop'', ''elementary'', ''zorin'']"

definition RPM_IDS :: "string list" where
  "RPM_IDS = [''fedora'', ''rhel'', ''centos'', ''rocky'', ''almalinux'', ''ol'', ''sles'', ''suse'',
     ''opensuse'']"

definition PACMAN_IDS :: "string list" where
  "PACMAN_IDS = [''arch'', ''archlinux'', ''manjaro'', ''endeavouros'', ''artix'']"

definition detectPackageFormat :: "host \<Rightarrow> string list \<Rightarrow> string" where
  "detectPackageFormat h tokens =
     (let override = normalizeToken (env h ''CHATGPT_LINUX_TARGET_PACKAGE_FORMAT'') in
      if override \<noteq> [] then override
      else if tokenMatches tokens (map Value PACMAN_IDS) then ''pacman''
      else if tokenMatches tokens (map Value RPM_IDS) then ''rpm''
      else if tokenMatches tokens (map Value DEB_IDS) then ''deb''
      else if executableExists h ''pacman'' \<and> \<not> executableExists h ''dpkg-deb'' then ''pacman''
      else if executableExists h ''rpmbuild'' \<and> \<not> executableExists h ''dpkg-deb'' then ''rpm''
      else if executableExists h ''dpkg-deb'' then ''deb''
      else if executableExists h ''rpm'' \<or> executableExists h ''rpmbuild'' then ''rpm''
      else if executableExists h ''pacman'' then ''pacman''
      else ''unknown'')"

definition detectPackageManager :: "host \<Rightarrow> string list \<Rightarrow> nat option \<Rightarrow> bool \<Rightarrow> string" where
  "detectPackageManager h tokens versionMajorValue atomic =
     (let override = normalizeToken (env h ''CHATGPT_LINUX_TARGET_PACKAGE_MANAGER'') in
      if override \<noteq> [] then override
      else if tokenMatches tokens (map Value PACMAN_IDS) then ''pacman''
      else if tokenMatches tokens (map Value DEB_IDS) then ''apt''
      else if tokenMatches tokens (map Value [''opensuse'', ''suse'', ''sles'']) then ''zypper''
      else if tokenMatches tokens (map Value [''fedora'', ''rhel'', ''centos'', ''rocky'', ''almalinux'', ''ol''])
      then
        (if atomic \<and> executableExists h ''rpm-ostree'' then ''rpm-ostree''
         else if tokens \<noteq> [] \<and> hd tokens = ''fedora'' \<and>
                 (case versionMajorValue of None \<Rightarrow> False | Some v \<Rightarrow> v < 41)
         then (if executableExists h ''dnf'' then ''dnf'' else ''unknown'')
         else if executableExists h ''dnf5'' then ''dnf5''
         else if executableExists h ''dnf'' then ''dnf''
         else ''unknown'')
      else (case List.find (executableExists h) [''apt'', ''dnf5'', ''dnf'', ''pacman'', ''zypper''] of
              Some command \<Rightarrow> command
            | None \<Rightarrow> ''unknown''))"

definition desktop_value :: "host \<Rightarrow> string" where
  "desktop_value h =
     orEmpty (orElse (env h ''CHATGPT_LINUX_TARGET_DESKTOP'')
       (orElse (env h ''XDG_CURRENT_DESKTOP'') (orElse (env h ''DESKTOP_SESSION'') (Some []))))"

definition buildDesktopTokens :: "host \<Rightarrow> string list" where
  "buildDesktopTokens h =
     splitTokens (Some (map (\<lambda>c. if c = CHR '':'' \<or> c = CHR '';'' then CHR '' '' else c) (desktop_value h)))"

section \<open>The target context\<close>

record target_options =
  opt_osReleasePaths :: "string option list option"
  opt_osReleaseFields :: "(string, string) jsmap option"
  opt_osReleasePath :: "string option"
  opt_atomic :: "bool option"
  opt_ostreeBootedPath :: "string option"

definition no_options :: target_options where
  "no_options = \<lparr>opt_osReleasePaths = None, opt_osReleaseFields = None, opt_osReleasePath = None,
     opt_atomic = None, opt_ostreeBootedPath = None\<rparr>"

record distro_info =
  distro_id :: string
  idLike :: "string list"
  versionId :: string
  version_major :: "nat option"
  prettyName :: string

record linux_target =
  osReleasePath :: "string option"
  arch :: string
  kernelRelease :: string
  distro :: distro_info
  packageFormat :: string
  packageManager :: string
  desktop_raw :: string
  desktop_tokens :: "string list"
  sessionType :: string
  wayland :: bool
  x11 :: bool
  target_atomic :: bool

definition detectAtomicDesktop :: "host \<Rightarrow> target_options \<Rightarrow> bool" where
  "detectAtomicDesktop h options =
     (case opt_atomic options of
        Some b \<Rightarrow> b
      | None \<Rightarrow>
          (case booleanOverride (env h ''CHATGPT_LINUX_TARGET_ATOMIC'') of
             Some b \<Rightarrow> b
           | None \<Rightarrow>
               (let p = (case opt_ostreeBootedPath options of
                           Some q \<Rightarrow> q
                         | None \<Rightarrow> (case env h ''OSTREE_BOOTED_FILE'' of
                                      Some q \<Rightarrow> q
                                    | None \<Rightarrow> ''/run/ostree-booted''))
                in p \<noteq> [] \<and> existsSync h p)))"

definition truthy :: "string option \<Rightarrow> bool" where
  "truthy v = (orEmpty v \<noteq> [])"

definition detectLinuxTargetContext :: "host \<Rightarrow> target_options \<Rightarrow> linux_target" where
  "detectLinuxTargetContext h options =
     (let paths = (case opt_osReleasePaths options of
                     Some ps \<Rightarrow> ps
                   | None \<Rightarrow> [env h ''OS_RELEASE_FILE'', Some ''/etc/os-release'', Some ''/usr/lib/os-release'']);
          (release_path, fields) =
            (case opt_osReleaseFields options of
               None \<Rightarrow> readFirstOsRelease h paths
             | Some fs \<Rightarrow> (opt_osReleasePath options, fs));
          id = normalizeToken (orElse (env h ''CHATGPT_LINUX_TARGET_ID'') (map_get fields ''ID''));
          likes = splitTokens (orElse (env h ''CHATGPT_LINUX_TARGET_ID_LIKE'') (map_get fields ''ID_LIKE''));
          version = orEmpty (orElse (env h ''CHATGPT_LINUX_TARGET_VERSION_ID'') (map_get fields ''VERSION_ID''));
          major = versionMajor (Some version);
          tokens = filter (\<lambda>t. t \<noteq> []) (id # likes);
          session = normalizeToken (orElse (env h ''CHATGPT_LINUX_TARGET_SESSION_TYPE'') (env h ''XDG_SESSION_TYPE''));
          is_atomic = detectAtomicDesktop h options
      in \<lparr>osReleasePath = release_path,
          arch = normalizeArch (orElse (env h ''CHATGPT_LINUX_TARGET_ARCH'') (Some (process_arch h))),
          kernelRelease = orEmpty (orElse (env h ''CHATGPT_LINUX_TARGET_KERNEL_RELEASE'') (Some (os_release h))),
          distro = \<lparr>distro_id = id, idLike = likes, versionId = version, version_major = major,
            prettyName = orEmpty (orElse (env h ''CHATGPT_LINUX_TARGET_PRETTY_NAME'') (map_get fields ''PRETTY_NAME''))\<rparr>,
          packageFormat = detectPackageFormat h tokens,
          packageManager = detectPackageManager h tokens major is_atomic,
          desktop_raw = desktop_value h,
          desktop_tokens = buildDesktopTokens h,
          sessionType = session,
          wayland = (session = ''wayland'' \<or> truthy (env h ''WAYLAND_DISPLAY'')),
          x11 = (session = ''x11'' \<or> truthy (env h ''DISPLAY'')),
          target_atomic = is_atomic\<rparr>)"

text \<open>The methods \<open>createHelpers\<close> puts on the target.\<close>

definition matchesId :: "linux_target \<Rightarrow> nested list \<Rightarrow> bool" where
  "matchesId target ids = tokenMatches (distro_id (distro target) # idLike (distro target)) ids"

definition packageFormatIs :: "linux_target \<Rightarrow> nested list \<Rightarrow> bool" where
  "packageFormatIs target formats = tokenMatches [packageFormat target] formats"

definition packageManagerIs :: "linux_target \<Rightarrow> nested list \<Rightarrow> bool" where
  "packageManagerIs target managers = tokenMatches [packageManager target] managers"

definition desktopMatches :: "linux_target \<Rightarrow> nested list \<Rightarrow> bool" where
  "desktopMatches target desktops = tokenMatches (desktop_tokens target) desktops"

definition versionAtLeast :: "linux_target \<Rightarrow> string option \<Rightarrow> bool" where
  "versionAtLeast target minimum =
     (let current = versionParts (Some (versionId (distro target))); wanted = versionParts minimum in
      if current = [] \<or> wanted = [] then False else compareVersionParts current wanted \<ge> 0)"

definition linuxTargetSummary :: "linux_target \<Rightarrow> string" where
  "linuxTargetSummary target =
     (let id = (if distro_id (distro target) = [] then ''unknown'' else distro_id (distro target));
          version = (if versionId (distro target) = [] then [] else '':'' @ versionId (distro target));
          format = (if packageFormat target = [] then ''unknown'' else packageFormat target);
          desktop = (if desktop_tokens target = [] then [] else '':'' @ join ''+'' (desktop_tokens target))
      in id @ version @ ''/'' @ format @ desktop)"

section \<open>Versions compare as zero-padded lists\<close>

definition pad :: "nat \<Rightarrow> nat list \<Rightarrow> nat list" where
  "pad n xs = xs @ replicate (n - length xs) 0"

lemma pad_Cons [simp]: "pad (Suc n) (x # xs) = x # pad n xs"
  by (simp add: pad_def)

lemma pad_Nil [simp]: "pad (Suc n) [] = 0 # pad n []"
  by (simp add: pad_def)

lemma order_cmp_Cons: "order_cmp (x # xs) (y # ys) = (if x = y then order_cmp xs ys else order_cmp x y)"
  by (auto simp: order_cmp_def)

lemma compareVersionParts_padded:
  "max (length l) (length r) \<le> n \<Longrightarrow> compareVersionParts l r = order_cmp (pad n l) (pad n r)"
proof (induction l r arbitrary: n rule: compareVersionParts.induct)
  case 1
  then show ?case by (simp add: order_cmp_def)
next
  case (2 l ls)
  then show ?case by (cases n) (auto simp: order_cmp_Cons order_cmp_def)
next
  case (3 r rs)
  then show ?case by (cases n) (auto simp: order_cmp_Cons order_cmp_def)
next
  case (4 l ls r rs)
  then show ?case by (cases n) (auto simp: order_cmp_Cons order_cmp_def)
qed

interpretation versions: consistent_comparator compareVersionParts
proof unfold_locales
  fix x y z :: "nat list"
  let ?n = "max (length x) (max (length y) (length z))"
  note p = compareVersionParts_padded [where n = ?n]
  show "compareVersionParts x x = 0" using p [of x x] by simp
  show "compareVersionParts x y \<le> 0 \<or> compareVersionParts y x \<le> 0"
    using p [of x y] p [of y x] by auto
  show "compareVersionParts x y \<le> 0 \<Longrightarrow> compareVersionParts y z \<le> 0 \<Longrightarrow> compareVersionParts x z \<le> 0"
    using p [of x y] p [of y z] p [of x z] by auto
qed

lemma compareVersionParts_swap: "compareVersionParts l r = - compareVersionParts r l"
  by (induction l r rule: compareVersionParts.induct) auto

section \<open>Reading os-release\<close>

definition os_release_line :: "string \<times> string \<Rightarrow> string" where
  "os_release_line kv = fst kv @ ''='' @ [CHR 34] @ snd kv @ [CHR 34]"

text \<open>A key that survives the line's trimming and is not a comment; a value without a line feed.\<close>

definition os_release_field :: "string \<times> string \<Rightarrow> bool" where
  "os_release_field kv =
     (fst kv \<noteq> [] \<and> \<not> is_space (hd (fst kv)) \<and> hd (fst kv) \<noteq> CHR ''#'' \<and>
      CHR ''='' \<notin> set (fst kv) \<and> CHR 10 \<notin> set (fst kv) \<and> CHR 10 \<notin> set (snd kv))"

lemma index_of_first: "d \<notin> set k \<Longrightarrow> index_of_nat [d] (k @ d # r) = Some (length k)"
  by (induction k) (auto simp: starts_with_def)

lemma trimOsReleaseValue_quoted: "trimOsReleaseValue (Some (CHR 34 # v @ [CHR 34])) = v"
proof -
  have "\<not> is_space (CHR 34)" by (simp add: is_space_def)
  then have "trim (CHR 34 # v @ [CHR 34]) = CHR 34 # v @ [CHR 34]" by (intro trim_id) auto
  then show ?thesis
    by (simp add: trimOsReleaseValue_def orEmpty_def is_quote_def)
qed

lemma parseOsRelease_line_field:
  assumes "os_release_field kv"
  shows "parseOsRelease_line (os_release_line kv) m = map_set (fst kv) (snd kv) m"
proof -
  obtain k v where kv: "kv = (k, v)" by (cases kv)
  let ?l = "k @ CHR ''='' # CHR 34 # v @ [CHR 34]"
  have l: "os_release_line (k, v) = ?l" by (simp add: os_release_line_def)
  have k: "k \<noteq> []" "\<not> is_space (hd k)" "hd k \<noteq> CHR ''#''" "CHR ''='' \<notin> set k"
    using assms by (auto simp: kv os_release_field_def)
  have "trim ?l = ?l"
    using k by (intro trim_id) (auto simp: is_space_def)
  moreover have "\<not> starts_with ''#'' ?l"
    using k by (cases k) (auto simp: starts_with_def)
  moreover have "index_of_nat ''='' ?l = Some (length k)"
    using k(4) by (rule index_of_first)
  ultimately show ?thesis
    using k(1) unfolding kv
    by (simp add: parseOsRelease_line_def l trimOsReleaseValue_quoted Let_def)
qed

lemma split_lines_join:
  assumes "ls \<noteq> []" and "\<forall>l\<in>set ls. CHR 10 \<notin> set l \<and> (l \<noteq> [] \<longrightarrow> last l \<noteq> CHR 13)"
  shows "split_lines (join [CHR 10] ls) = ls"
proof -
  have "split_char (CHR 10) (join [CHR 10] ls) = ls"
    using assms by (intro split_char_join) auto
  moreover have "chomp_cr x = x" if "x \<in> set (butlast ls)" for x
    using assms(2) in_set_butlastD [OF that] by (auto simp: chomp_cr_def)
  then have "map chomp_cr (butlast ls) = butlast ls" by (simp add: map_idI)
  ultimately show ?thesis using assms(1) by (simp add: split_lines_def)
qed

lemma fold_parse_lines:
  "\<forall>kv\<in>set kvs. os_release_field kv \<Longrightarrow>
   fold parseOsRelease_line (map os_release_line kvs) m = fold (\<lambda>(k, v). map_set k v) kvs m"
  by (induction kvs arbitrary: m) (auto simp: parseOsRelease_line_field)

section \<open>Properties\<close>

text \<open>Comparing versions part by part is comparing them as lists padded with zeros to the
  same length, so missing parts count as zero and the order is total.\<close>

theorem version_compare_is_padded_lexicographic:
  "compareVersionParts l r =
     order_cmp (pad (max (length l) (length r)) l) (pad (max (length l) (length r)) r)"
  by (rule compareVersionParts_padded) simp

text \<open>What is written to an os-release file in the quoted form is read back, field by field,
  a repeated key keeping its place and its last value.\<close>

theorem parseOsRelease_roundtrip:
  assumes "\<forall>kv\<in>set kvs. os_release_field kv"
  shows "parseOsRelease (Some (join [CHR 10] (map os_release_line kvs))) = map_new kvs"
proof (cases "kvs = []")
  case True
  then show ?thesis
    by (simp add: parseOsRelease_def orEmpty_def split_lines_def map_new_def parseOsRelease_line_def trim_def)
next
  case False
  have "\<forall>l\<in>set (map os_release_line kvs). CHR 10 \<notin> set l \<and> (l \<noteq> [] \<longrightarrow> last l \<noteq> CHR 13)"
    using assms by (auto simp: os_release_line_def os_release_field_def)
  then have "split_lines (join [CHR 10] (map os_release_line kvs)) = map os_release_line kvs"
    using False by (intro split_lines_join) auto
  then show ?thesis
    using fold_parse_lines [OF assms] by (simp add: parseOsRelease_def orEmpty_def map_new_def)
qed

theorem parseOsRelease_roundtrip_witness:
  "parseOsRelease (Some (join [CHR 10] (map os_release_line [(''ID'', ''fedora''), (''VERSION_ID'', ''41'')])))
     = map_new [(''ID'', ''fedora''), (''VERSION_ID'', ''41'')]"
  by (rule parseOsRelease_roundtrip) (simp add: os_release_field_def is_space_def)

end
