(* ===== verification/Patch_Report.thy ===== *)
theory Patch_Report
  imports Linux_Target
begin

text \<open>
  \<open>scripts/lib/patch-report.js\<close>: the report every patch run leaves behind, one entry per
  descriptor, and the questions the gates ask of it. An entry's own metadata (any keys a
  descriptor adds) is an insertion-ordered map of \<open>mval\<close>s; a field that is \<open>undefined\<close> is
  absent, one that is \<open>null\<close> is \<open>MNull\<close>, and \<open>nullish\<close> reads both as \<open>None\<close>, as
  \<open>??\<close> does.
\<close>

section \<open>Statuses and policies\<close>

abbreviation PATCH_STATUS_APPLIED :: string where
  "PATCH_STATUS_APPLIED \<equiv> ''applied''"
abbreviation PATCH_STATUS_ALREADY_APPLIED :: string where
  "PATCH_STATUS_ALREADY_APPLIED \<equiv> ''already-applied''"
abbreviation PATCH_STATUS_APPLIED_WITH_WARNINGS :: string where
  "PATCH_STATUS_APPLIED_WITH_WARNINGS \<equiv> ''applied-with-warnings''"
abbreviation PATCH_STATUS_FAILED_REQUIRED :: string where
  "PATCH_STATUS_FAILED_REQUIRED \<equiv> ''failed-required''"
abbreviation PATCH_STATUS_SKIPPED_DISABLED :: string where
  "PATCH_STATUS_SKIPPED_DISABLED \<equiv> ''skipped-disabled''"
abbreviation PATCH_STATUS_SKIPPED_OPTIONAL :: string where
  "PATCH_STATUS_SKIPPED_OPTIONAL \<equiv> ''skipped-optional''"
abbreviation PATCH_STATUS_SKIPPED_TARGET :: string where
  "PATCH_STATUS_SKIPPED_TARGET \<equiv> ''skipped-target''"

definition success_status :: "string \<Rightarrow> bool" where
  "success_status s = (s \<in> {PATCH_STATUS_APPLIED, PATCH_STATUS_ALREADY_APPLIED})"

definition not_applicable_status :: "string \<Rightarrow> bool" where
  "not_applicable_status s = (s \<in> {PATCH_STATUS_SKIPPED_TARGET, PATCH_STATUS_SKIPPED_DISABLED})"

datatype mval = MNull | MBool bool | MNum int | MStr string | MStrs "string list" | MPairs "(string \<times> string) list"

record entry =
  entry_name :: string
  entry_status :: string
  entry_reason :: "string option"
  entry_meta :: "(string, mval) jsmap"

definition nullish :: "mval option \<Rightarrow> mval option" where
  "nullish v = (case v of Some MNull \<Rightarrow> None | r \<Rightarrow> r)"

definition field :: "entry \<Rightarrow> string \<Rightarrow> mval option" where
  "field e k = nullish (map_get (entry_meta e) k)"

definition isCriticalPolicy :: "mval option \<Rightarrow> bool" where
  "isCriticalPolicy p = (p = Some (MStr ''required-official-dmg'') \<or> p = Some (MStr ''required-upstream''))"

definition critical_entry :: "entry \<Rightarrow> bool" where
  "critical_entry e = isCriticalPolicy (field e ''ciPolicy'')"

record patch_report =
  generatedAt :: string
  report_target :: "string option"
  mainBundle :: "string option"
  iconAsset :: "string option"
  desktopName :: "string option"
  report_linuxTarget :: "linux_target option"
  enabledIntegrations :: "string list option"
  enabledFeatures :: "string list option"
  mutationIntegrity :: "(string \<times> string) option"
  postPatchFindings :: "(string option \<times> string option \<times> string option) list option"
  patches :: "entry list"

text \<open>\<open>createPatchReport\<close>, its time stamp given.\<close>

definition createPatchReport :: "string \<Rightarrow> patch_report" where
  "createPatchReport now =
     \<lparr>generatedAt = now, report_target = None, mainBundle = None, iconAsset = None,
      desktopName = None, report_linuxTarget = None, enabledIntegrations = Some [],
      enabledFeatures = None, mutationIntegrity = None, postPatchFindings = None, patches = []\<rparr>"

section \<open>Recording\<close>

definition reserved_key :: "string \<Rightarrow> bool" where
  "reserved_key k = (k \<in> {''name'', ''status'', ''reason'', ''__proto__'', ''prototype'', ''constructor''})"

definition set_meta :: "string \<times> mval \<Rightarrow> (string, mval) jsmap \<Rightarrow> (string, mval) jsmap" where
  "set_meta kv m = (if reserved_key (fst kv) then m else map_set (fst kv) (snd kv) m)"

definition make_entry :: "string \<Rightarrow> string \<Rightarrow> string option \<Rightarrow> (string, mval) jsmap option \<Rightarrow> entry" where
  "make_entry name status reason metadata =
     \<lparr>entry_name = name, entry_status = status,
      entry_reason = (case reason of Some (c # s) \<Rightarrow> reason | _ \<Rightarrow> None),
      entry_meta = (case metadata of None \<Rightarrow> [] | Some kvs \<Rightarrow> fold set_meta kvs [])\<rparr>"

definition recordPatch ::
  "patch_report option \<Rightarrow> string \<Rightarrow> string \<Rightarrow> string option \<Rightarrow> (string, mval) jsmap option
     \<Rightarrow> patch_report option" where
  "recordPatch report name status reason metadata =
     map_option (\<lambda>r. r\<lparr>patches := patches r @ [make_entry name status reason metadata]\<rparr>) report"

definition patchStatusFromChange :: "bool \<Rightarrow> string list \<Rightarrow> mval option \<Rightarrow> string" where
  "patchStatusFromChange changed warnings ciPolicy =
     (let required = isCriticalPolicy ciPolicy in
      if changed then
        (if length warnings > 0 then
           (if required then PATCH_STATUS_FAILED_REQUIRED else PATCH_STATUS_APPLIED_WITH_WARNINGS)
         else PATCH_STATUS_APPLIED)
      else if length warnings > 0 then
        (if required then PATCH_STATUS_FAILED_REQUIRED else PATCH_STATUS_SKIPPED_OPTIONAL)
      else PATCH_STATUS_ALREADY_APPLIED)"

section \<open>Reading a report\<close>

record failure =
  f_name :: string
  f_status :: string
  f_reason :: "string option"

definition reportEntryFailure :: "entry \<Rightarrow> failure" where
  "reportEntryFailure e = \<lparr>f_name = entry_name e, f_status = entry_status e, f_reason = entry_reason e\<rparr>"

definition failing :: "entry \<Rightarrow> bool" where
  "failing e = (\<not> success_status (entry_status e) \<and> \<not> not_applicable_status (entry_status e))"

definition report_patches :: "patch_report option \<Rightarrow> entry list" where
  "report_patches report = (case report of None \<Rightarrow> [] | Some r \<Rightarrow> patches r)"

definition criticalFailuresFromReport :: "patch_report option \<Rightarrow> failure list" where
  "criticalFailuresFromReport report =
     map reportEntryFailure (filter failing (filter critical_entry (report_patches report)))"

definition optionalDriftFromReport :: "patch_report option \<Rightarrow> failure list" where
  "optionalDriftFromReport report =
     map reportEntryFailure (filter failing (filter (\<lambda>e. \<not> critical_entry e) (report_patches report)))"

definition enabled_set :: "patch_report option \<Rightarrow> string list" where
  "enabled_set report =
     (case report of
        None \<Rightarrow> []
      | Some r \<Rightarrow> (case enabledIntegrations r of
                    Some ids \<Rightarrow> ids
                  | None \<Rightarrow> (case enabledFeatures r of Some ids \<Rightarrow> ids | None \<Rightarrow> [])))"

definition entry_integration :: "entry \<Rightarrow> mval option" where
  "entry_integration e = (case field e ''integrationId'' of None \<Rightarrow> field e ''featureId'' | r \<Rightarrow> r)"

definition integration_kind :: "entry \<Rightarrow> bool" where
  "integration_kind e =
     (field e ''sourceKind'' = Some (MStr ''integration'') \<or> field e ''sourceKind'' = Some (MStr ''feature''))"

definition enabledIntegrationFailuresFromReport :: "patch_report option \<Rightarrow> (failure \<times> mval option) list" where
  "enabledIntegrationFailuresFromReport report =
     map (\<lambda>e. (reportEntryFailure e, entry_integration e))
       (filter failing
         (filter (\<lambda>e. integration_kind e \<and>
                       (case entry_integration e of Some (MStr i) \<Rightarrow> i \<in> set (enabled_set report) | _ \<Rightarrow> False))
           (report_patches report)))"

section \<open>The summary\<close>

datatype patch_group = RequiredCore | OptionalCore | OptionalIntegrations

definition patchGroupForEntry :: "entry \<Rightarrow> patch_group" where
  "patchGroupForEntry e =
     (if critical_entry e then RequiredCore
      else if integration_kind e then OptionalIntegrations
      else OptionalCore)"

record tally =
  tally_count :: nat
  statusCounts :: "(string, nat) jsmap"

definition empty_tally :: tally where
  "empty_tally = \<lparr>tally_count = 0, statusCounts = []\<rparr>"

definition add_to_tally :: "string \<Rightarrow> tally \<Rightarrow> tally" where
  "add_to_tally status t =
     \<lparr>tally_count = tally_count t + 1,
      statusCounts = map_set status
        ((case map_get (statusCounts t) status of None \<Rightarrow> 0 | Some n \<Rightarrow> n) + 1) (statusCounts t)\<rparr>"

text \<open>An object key: the value as a string.\<close>

fun mval_str :: "mval \<Rightarrow> string" where
  "mval_str MNull = ''null''"
| "mval_str (MBool b) = (if b then ''true'' else ''false'')"
| "mval_str (MNum i) = int_str i"
| "mval_str (MStr s) = s"
| "mval_str (MStrs ss) = join '','' ss"
| "mval_str (MPairs ps) = join '','' (map (\<lambda>p. ''[object Object]'') ps)"

record summary =
  requiredCore :: tally
  optionalCore :: tally
  optionalIntegrations :: tally
  byIntegration :: "(string, tally) jsmap"

definition empty_summary :: summary where
  "empty_summary = \<lparr>requiredCore = empty_tally, optionalCore = empty_tally,
     optionalIntegrations = empty_tally, byIntegration = []\<rparr>"

definition summarize_entry :: "entry \<Rightarrow> summary \<Rightarrow> summary" where
  "summarize_entry e s =
     (case patchGroupForEntry e of
        RequiredCore \<Rightarrow> s\<lparr>requiredCore := add_to_tally (entry_status e) (requiredCore s)\<rparr>
      | OptionalCore \<Rightarrow> s\<lparr>optionalCore := add_to_tally (entry_status e) (optionalCore s)\<rparr>
      | OptionalIntegrations \<Rightarrow>
          (let i = (case entry_integration e of None \<Rightarrow> ''unknown-integration'' | Some v \<Rightarrow> mval_str v);
               g = (case map_get (byIntegration s) i of None \<Rightarrow> empty_tally | Some g \<Rightarrow> g)
           in s\<lparr>optionalIntegrations := add_to_tally (entry_status e) (optionalIntegrations s),
                byIntegration := map_set i (add_to_tally (entry_status e) g) (byIntegration s)\<rparr>))"

definition summarizePatchReport :: "patch_report option \<Rightarrow> string list \<times> summary" where
  "summarizePatchReport report =
     ((case report of
         None \<Rightarrow> []
       | Some r \<Rightarrow> (case enabledIntegrations r of Some ids \<Rightarrow> ids | None \<Rightarrow> [])),
      fold summarize_entry (report_patches report) empty_summary)"

section \<open>Laws\<close>

lemma recordPatch_None [simp]: "recordPatch None n s r m = None"
  by (simp add: recordPatch_def)

lemma report_patches_record [simp]:
  "report_patches (recordPatch (Some r) n s x m) = patches r @ [make_entry n s x m]"
  by (simp add: recordPatch_def report_patches_def)

lemma fold_set_meta_get:
  "\<not> reserved_key k \<Longrightarrow>
   map_get (fold set_meta kvs m) k = (case map_of (rev kvs) k of Some v \<Rightarrow> Some v | None \<Rightarrow> map_get m k)"
proof (induction kvs arbitrary: m)
  case (Cons kv kvs)
  then show ?case
    by (cases kv) (auto simp: set_meta_def map_add_def jsm.get_put split: option.splits)
qed simp

lemma field_make_entry:
  "\<not> reserved_key k \<Longrightarrow> field (make_entry n s r (Some kvs)) k = nullish (map_of (rev kvs) k)"
  by (simp add: field_def make_entry_def fold_set_meta_get split: option.splits)

lemma critical_or_optional:
  "f \<in> set (criticalFailuresFromReport r) \<union> set (optionalDriftFromReport r) \<longleftrightarrow>
   (\<exists>e\<in>set (report_patches r). failing e \<and> f = reportEntryFailure e)"
  by (auto simp: criticalFailuresFromReport_def optionalDriftFromReport_def)

definition tally_of :: "entry list \<Rightarrow> tally \<Rightarrow> bool" where
  "tally_of es t \<longleftrightarrow> tally_count t = length es \<and>
     (\<forall>s. map_get (statusCounts t) s =
        (let n = length (filter (\<lambda>e. entry_status e = s) es) in if n = 0 then None else Some n))"

lemma tally_of_empty: "tally_of [] empty_tally"
  by (simp add: tally_of_def empty_tally_def)

lemma tally_of_add: "tally_of es t \<Longrightarrow> tally_of (es @ [e]) (add_to_tally (entry_status e) t)"
  by (auto simp: tally_of_def add_to_tally_def jsm.get_put Let_def split: if_splits)

definition integration_key :: "entry \<Rightarrow> string" where
  "integration_key e = (case entry_integration e of None \<Rightarrow> ''unknown-integration'' | Some v \<Rightarrow> mval_str v)"

definition in_group :: "patch_group \<Rightarrow> entry \<Rightarrow> bool" where
  "in_group g e = (patchGroupForEntry e = g)"

definition share :: "string \<Rightarrow> entry list \<Rightarrow> entry list" where
  "share i es = filter (\<lambda>e. in_group OptionalIntegrations e \<and> integration_key e = i) es"

definition shares_of :: "entry list \<Rightarrow> (string, tally) jsmap \<Rightarrow> bool" where
  "shares_of es m \<longleftrightarrow>
     (\<forall>i. case map_get m i of None \<Rightarrow> share i es = [] | Some t \<Rightarrow> share i es \<noteq> [] \<and> tally_of (share i es) t)"

lemma shares_of_add:
  assumes "shares_of es m" and e: "in_group OptionalIntegrations e"
    and g: "g = (case map_get m (integration_key e) of None \<Rightarrow> empty_tally | Some g \<Rightarrow> g)"
  shows "shares_of (es @ [e]) (map_set (integration_key e) (add_to_tally (entry_status e) g) m)"
  unfolding shares_of_def
proof
  fix i
  let ?m = "map_set (integration_key e) (add_to_tally (entry_status e) g) m"
  have i: "case map_get m i of None \<Rightarrow> share i es = [] | Some t \<Rightarrow> share i es \<noteq> [] \<and> tally_of (share i es) t"
    using assms(1) by (simp add: shares_of_def)
  show "case map_get ?m i of None \<Rightarrow> share i (es @ [e]) = []
    | Some t \<Rightarrow> share i (es @ [e]) \<noteq> [] \<and> tally_of (share i (es @ [e])) t"
  proof (cases "i = integration_key e")
    case True
    then have "tally_of (share i es) g"
      using i g by (auto simp: tally_of_empty split: option.splits)
    moreover have "share i (es @ [e]) = share i es @ [e]" using True e by (simp add: share_def)
    ultimately show ?thesis using True by (simp add: tally_of_add)
  next
    case False
    then have "share i (es @ [e]) = share i es" by (simp add: share_def)
    with False i show ?thesis by (simp cong: option.case_cong)
  qed
qed

lemma shares_of_skip: "\<not> in_group OptionalIntegrations e \<Longrightarrow> shares_of es m \<Longrightarrow> shares_of (es @ [e]) m"
  by (simp add: shares_of_def share_def cong: option.case_cong)

definition summary_of :: "entry list \<Rightarrow> summary \<Rightarrow> bool" where
  "summary_of es s \<longleftrightarrow>
     tally_of (filter (in_group RequiredCore) es) (requiredCore s) \<and>
     tally_of (filter (in_group OptionalCore) es) (optionalCore s) \<and>
     tally_of (filter (in_group OptionalIntegrations) es) (optionalIntegrations s) \<and>
     shares_of es (byIntegration s)"

lemma summary_of_step:
  assumes "summary_of es s"
  shows "summary_of (es @ [e]) (summarize_entry e s)"
proof -
  have grp: "in_group g e \<longleftrightarrow> patchGroupForEntry e = g" for g by (simp add: in_group_def)
  have k: "(case entry_integration e of None \<Rightarrow> ''unknown-integration'' | Some v \<Rightarrow> mval_str v) = integration_key e"
    by (simp add: integration_key_def)
  show ?thesis
  proof (cases "patchGroupForEntry e")
    case RequiredCore
    with assms show ?thesis
      by (simp add: summary_of_def summarize_entry_def grp tally_of_add shares_of_skip)
  next
    case OptionalCore
    with assms show ?thesis
      by (simp add: summary_of_def summarize_entry_def grp tally_of_add shares_of_skip)
  next
    case OptionalIntegrations
    with assms shares_of_add [of es "byIntegration s" e, OF _ _ refl] show ?thesis
      by (simp add: summary_of_def summarize_entry_def grp tally_of_add k Let_def)
  qed
qed

lemma summary_of_fold: "summary_of es s \<Longrightarrow> summary_of (es @ fs) (fold summarize_entry fs s)"
proof (induction fs arbitrary: es s)
  case (Cons f fs)
  from Cons.IH [OF summary_of_step [OF Cons.prems]] show ?case by simp
qed simp

lemma summary_of_empty: "summary_of [] empty_summary"
  by (simp add: summary_of_def empty_summary_def tally_of_empty shares_of_def share_def)

section \<open>Properties\<close>

text \<open>The summary counts the report exactly: each of the three groups, each status in it, and
  each integration's share of the optional integrations.\<close>

theorem summary_counts_report:
  "summary_of (report_patches report) (snd (summarizePatchReport report))"
  using summary_of_fold [OF summary_of_empty, of "report_patches report"]
  by (simp add: summarizePatchReport_def)

text \<open>The status a change is given is a success exactly when there was no warning; with a
  critical policy every warning makes it a required failure, and without one none does.\<close>

theorem patchStatusFromChange_sound:
  "(success_status (patchStatusFromChange changed warnings policy) \<longleftrightarrow> warnings = []) \<and>
   (patchStatusFromChange changed warnings policy = PATCH_STATUS_FAILED_REQUIRED \<longleftrightarrow>
     isCriticalPolicy policy \<and> warnings \<noteq> []) \<and>
   \<not> not_applicable_status (patchStatusFromChange changed warnings policy)"
  by (auto simp: patchStatusFromChange_def success_status_def not_applicable_status_def Let_def)

end
