(* ===== verification/Patch_Descriptor.thy ===== *)
theory Patch_Descriptor
  imports Patch_Report
begin

text \<open>
  Patch descriptors: \<open>scripts/patches/descriptor.js\<close>, which checks them where they are
  declared, and the first half of \<open>scripts/patches/engine.js\<close>, which normalises, checks and
  orders what it discovers. A descriptor is an object with optional fields: a field that is
  absent or \<open>null\<close> is \<open>None\<close>, fields of any type are \<open>mval\<close>s, and a field that should
  hold a function says whether it does. Orders are integers (\<open>assertDescriptorBase\<close> rejects
  other numbers). Patch functions act on a context with an arbitrary world \<open>'w\<close> (the extracted
  app's files and whatever else they reach).
\<close>

section \<open>Values and contexts\<close>

text \<open>What a patch may throw: a \<open>GeneratedAppIntegrityError\<close> with its reason, code and operation, another
  \<open>Error\<close> with its message, or any other value, as \<open>String\<close> prints it.\<close>

datatype thrown = Integrity string string string | Error string | Thrown_Value string

fun isGeneratedAppIntegrityError :: "thrown \<Rightarrow> bool" where
  "isGeneratedAppIntegrityError (Integrity why c opn) = True"
| "isGeneratedAppIntegrityError _ = False"

datatype pvalue = Undefined | Text string | Info "(string, mval) jsmap"

record 'w patch_context =
  linux :: "linux_target option"
  reportWarnings :: "string list option"
  computerUseSupport :: bool
  contextIcon :: "string option"
  contextIntegration :: "string option"
  world :: 'w

record 'w applied =
  outcome :: "thrown + pvalue"
  warned :: "string list"
  strategies_noted :: "(string \<times> string) list"
  context_after :: "'w patch_context"

datatype 'f slot = Missing | is_NotFunction: NotFunction | Fun (the_fun: 'f)

datatype 'w target_summary = Summary_Fun "'w patch_context \<Rightarrow> string" | Summary_Text string

datatype status_result = Plain_Status string | Status_Reason string "string option"

record 'w descriptor =
  d_id :: "mval option"
  d_name :: "mval option"
  d_phase :: "mval option"
  d_ciPolicy :: "mval option"
  d_sourceKind :: "mval option"
  d_integrationId :: "mval option"
  d_featureId :: "mval option"
  d_order :: "int option"
  d_sourcePath :: "string option"
  d_apply :: "(pvalue \<Rightarrow> 'w patch_context \<Rightarrow> 'w applied) slot"
  d_assetMatch :: "(string \<Rightarrow> string \<Rightarrow> 'w patch_context \<Rightarrow> bool) slot"
  d_appliesTo :: "('w patch_context \<Rightarrow> bool) option"
  d_enabled :: "('w patch_context \<Rightarrow> bool) option"
  d_status :: "(pvalue \<Rightarrow> string list \<Rightarrow> 'w patch_context \<Rightarrow> status_result) option"
  d_targetSummary :: "'w target_summary option"
  d_assetPattern :: "(string \<Rightarrow> bool) option"
  d_pattern :: "(string \<Rightarrow> bool) option"
  d_missingDescription :: "string option"
  d_skipDescription :: "string option"
  d_missingWarning :: "string option"
  d_ambiguousWarning :: "string option"

section \<open>Phases and policies\<close>

abbreviation PHASE_MAIN_BUNDLE :: mval where
  "PHASE_MAIN_BUNDLE \<equiv> MStr ''main-bundle''"
abbreviation PHASE_EXTRACTED_APP_PRE_WEBVIEW :: mval where
  "PHASE_EXTRACTED_APP_PRE_WEBVIEW \<equiv> MStr ''extracted-app:pre-webview''"
abbreviation PHASE_WEBVIEW_ASSET :: mval where
  "PHASE_WEBVIEW_ASSET \<equiv> MStr ''webview-asset''"
abbreviation PHASE_EXTRACTED_APP_POST_WEBVIEW :: mval where
  "PHASE_EXTRACTED_APP_POST_WEBVIEW \<equiv> MStr ''extracted-app:post-webview''"

definition PATCH_PHASES :: "mval list" where
  "PATCH_PHASES = [PHASE_MAIN_BUNDLE, PHASE_EXTRACTED_APP_PRE_WEBVIEW, PHASE_WEBVIEW_ASSET,
     PHASE_EXTRACTED_APP_POST_WEBVIEW]"

definition EXTRACTED_APP_PHASES :: "mval list" where
  "EXTRACTED_APP_PHASES = [PHASE_EXTRACTED_APP_PRE_WEBVIEW, PHASE_EXTRACTED_APP_POST_WEBVIEW]"

definition CI_POLICIES :: "mval list" where
  "CI_POLICIES = [MStr ''required-official-dmg'', MStr ''required-upstream'', MStr ''optional'',
     MStr ''opt-in'']"

definition normalizeCiPolicy :: "mval \<Rightarrow> mval" where
  "normalizeCiPolicy p = (if p = MStr ''required-upstream'' then MStr ''required-official-dmg'' else p)"

text \<open>\<open>a ?? b\<close>.\<close>

definition coalesce :: "mval option \<Rightarrow> mval option \<Rightarrow> mval option" where
  "coalesce a b = (case nullish a of None \<Rightarrow> nullish b | Some v \<Rightarrow> Some v)"

definition descriptorId :: "'w descriptor \<Rightarrow> mval option" where
  "descriptorId d = coalesce (d_id d) (d_name d)"

definition descriptor_policy :: "'w descriptor \<Rightarrow> mval" where
  "descriptor_policy d =
     normalizeCiPolicy (case nullish (d_ciPolicy d) of None \<Rightarrow> MStr ''optional'' | Some p \<Rightarrow> p)"

definition or_text :: "mval option \<Rightarrow> string \<Rightarrow> mval option" where
  "or_text a t = (case nullish a of None \<Rightarrow> Some (MStr t) | Some v \<Rightarrow> Some v)"

datatype descriptor_error =
    Not_An_Object | No_Id | No_Apply string | Bad_Asset_Match string
  | Bad_Policy string mval | Bad_Phase string mval | Unsupported_Phase mval
  | No_Pattern | Wrong_Extracted_Phase
  | Duplicate_Id string string string

section \<open>Declaring a descriptor\<close>

definition assertDescriptorBase :: "'w descriptor option \<Rightarrow> descriptor_error + string" where
  "assertDescriptorBase desc =
     (case desc of
        None \<Rightarrow> Inl Not_An_Object
      | Some d \<Rightarrow>
          (case descriptorId d of
             Some (MStr (c # cs)) \<Rightarrow>
               (let ident = c # cs in
                case d_apply d of
                  Fun f \<Rightarrow> (if descriptor_policy d \<in> set CI_POLICIES then Inr ident
                            else Inl (Bad_Policy ident (descriptor_policy d)))
                | _ \<Rightarrow> Inl (No_Apply ident))
           | _ \<Rightarrow> Inl No_Id))"

definition patchDescriptor :: "mval \<Rightarrow> 'w descriptor option \<Rightarrow> descriptor_error + 'w descriptor" where
  "patchDescriptor phase desc =
     (if phase \<notin> set PATCH_PHASES then Inl (Unsupported_Phase phase)
      else case assertDescriptorBase desc of
        Inl e \<Rightarrow> Inl e
      | Inr ident \<Rightarrow>
          (let d = the desc in
           Inr (d\<lparr>d_id := Some (MStr ident), d_name := or_text (d_name d) ident,
                  d_phase := Some phase, d_ciPolicy := Some (descriptor_policy d)\<rparr>)))"

definition mainBundlePatch :: "'w descriptor option \<Rightarrow> descriptor_error + 'w descriptor" where
  "mainBundlePatch desc = patchDescriptor PHASE_MAIN_BUNDLE desc"

definition webviewAssetPatch :: "'w descriptor option \<Rightarrow> descriptor_error + 'w descriptor" where
  "webviewAssetPatch desc =
     (case desc of
        None \<Rightarrow> Inl No_Pattern
      | Some d \<Rightarrow>
          if d_assetPattern d = None \<and> d_pattern d = None then Inl No_Pattern
          else (case d_assetMatch d of
                  NotFunction \<Rightarrow> Inl (Bad_Asset_Match [])
                | _ \<Rightarrow> patchDescriptor PHASE_WEBVIEW_ASSET desc))"

definition extractedAppPatch :: "'w descriptor option \<Rightarrow> descriptor_error + 'w descriptor" where
  "extractedAppPatch desc =
     (case desc of
        None \<Rightarrow> Inl Wrong_Extracted_Phase
      | Some d \<Rightarrow>
          (case d_phase d of
             Some p \<Rightarrow> if p \<in> set EXTRACTED_APP_PHASES then patchDescriptor p desc
                       else Inl Wrong_Extracted_Phase
           | None \<Rightarrow> Inl Wrong_Extracted_Phase))"

section \<open>Normalising what is discovered\<close>

definition source_kind_default :: "'w descriptor \<Rightarrow> string" where
  "source_kind_default d =
     (if nullish (d_integrationId d) \<noteq> None then ''integration''
      else if nullish (d_featureId d) \<noteq> None then ''feature'' else ''core'')"

definition normalizeDescriptor ::
  "'w descriptor option \<Rightarrow> string option \<Rightarrow> nat \<Rightarrow> descriptor_error + 'w descriptor" where
  "normalizeDescriptor desc sourcePath index =
     (case desc of
        None \<Rightarrow> Inl Not_An_Object
      | Some d \<Rightarrow>
          (case descriptorId d of
             Some (MStr (c # cs)) \<Rightarrow>
               (let ident = c # cs;
                    phase = (case nullish (d_phase d) of None \<Rightarrow> PHASE_MAIN_BUNDLE | Some p \<Rightarrow> p)
                in case d_apply d of
                     Fun f \<Rightarrow>
                       if is_NotFunction (d_assetMatch d) then Inl (Bad_Asset_Match ident)
                       else if descriptor_policy d \<notin> set CI_POLICIES
                       then Inl (Bad_Policy ident (descriptor_policy d))
                       else if phase \<notin> set PATCH_PHASES then Inl (Bad_Phase ident phase)
                       else Inr (d\<lparr>d_ciPolicy := Some (descriptor_policy d),
                                   d_id := Some (MStr ident),
                                   d_name := or_text (d_name d) ident,
                                   d_phase := Some phase,
                                   d_sourceKind := or_text (d_sourceKind d) (source_kind_default d),
                                   d_order := Some (case d_order d of None \<Rightarrow> 10000 + int index | Some i \<Rightarrow> i),
                                   d_sourcePath := sourcePath\<rparr>)
                   | _ \<Rightarrow> Inl (No_Apply ident))
           | _ \<Rightarrow> Inl No_Id))"

definition id_text :: "'w descriptor \<Rightarrow> string" where
  "id_text d = (case d_id d of Some v \<Rightarrow> mval_str v | None \<Rightarrow> ''undefined'')"

definition order_of :: "'w descriptor \<Rightarrow> int" where
  "order_of d = (case d_order d of Some i \<Rightarrow> i | None \<Rightarrow> 0)"

definition sort_label :: "'w descriptor \<Rightarrow> string" where
  "sort_label d = orEmpty (d_sourcePath d) @ '':'' @ id_text d"

definition compareDescriptors :: "'w descriptor \<Rightarrow> 'w descriptor \<Rightarrow> int" where
  "compareDescriptors l r =
     (if order_of l \<noteq> order_of r then order_of l - order_of r
      else locale_compare (sort_label l) (sort_label r))"

definition sortPatchDescriptors :: "'w descriptor list \<Rightarrow> 'w descriptor list" where
  "sortPatchDescriptors ds = js_sort compareDescriptors ds"

definition source_text :: "'w descriptor \<Rightarrow> string" where
  "source_text d = (case d_sourcePath d of None \<Rightarrow> ''inline descriptor'' | Some p \<Rightarrow> p)"

definition note_patch_id ::
  "'w descriptor \<Rightarrow> (mval option, string) jsmap \<Rightarrow> descriptor_error + (mval option, string) jsmap" where
  "note_patch_id d seen =
     (case map_get seen (d_id d) of
        Some previous \<Rightarrow> Inl (Duplicate_Id (id_text d) (source_text d) previous)
      | None \<Rightarrow> Inr (map_set (d_id d) (source_text d) seen))"

definition assertUniquePatchIds :: "'w descriptor list \<Rightarrow> descriptor_error + unit" where
  "assertUniquePatchIds ds = ebind (efold note_patch_id ds []) (\<lambda>_. Inr ())"

definition normalizePatchDescriptors :: "'w descriptor list \<Rightarrow> descriptor_error + 'w descriptor list" where
  "normalizePatchDescriptors ds =
     ebind (emap (\<lambda>(index, d). normalizeDescriptor (Some d) (d_sourcePath d) index) (enumerate 0 ds))
       (\<lambda>normalized. ebind (assertUniquePatchIds normalized)
         (\<lambda>_. Inr (sortPatchDescriptors normalized)))"

definition patchTargetSummary :: "'w descriptor \<Rightarrow> 'w patch_context \<Rightarrow> string" where
  "patchTargetSummary d c =
     (case d_targetSummary d of
        Some (Summary_Fun f) \<Rightarrow> f c
      | Some (Summary_Text t) \<Rightarrow> t
      | None \<Rightarrow>
          (case d_appliesTo d of
             None \<Rightarrow> ''all-linux''
           | Some a \<Rightarrow> (case linux c of
                         None \<Rightarrow> ''conditional-linux''
                       | Some target \<Rightarrow> ''conditional-linux:'' @ linuxTargetSummary target)))"

text \<open>Discovery: every \<open>patch.js\<close> under a directory, the names of each directory sorted.\<close>

datatype tree = File | Dir "(string \<times> tree) list"

fun walk_patch_files :: "string \<Rightarrow> tree \<Rightarrow> string list" where
  "walk_patch_files dir File = []"
| "walk_patch_files dir (Dir children) =
     concat (map snd (js_sort (\<lambda>x y. order_cmp (fst x) (fst y))
       (map (\<lambda>(name, t). (name,
          (case t of
             Dir _ \<Rightarrow> walk_patch_files (dir @ ''/'' @ name) t
           | File \<Rightarrow> if name = ''patch.js'' then [dir @ ''/'' @ name] else []))) children)))"

definition discoverPatchFiles :: "string \<Rightarrow> tree option \<Rightarrow> string list" where
  "discoverPatchFiles rt t = (if rt = [] then [] else case t of None \<Rightarrow> [] | Some d \<Rightarrow> walk_patch_files rt d)"

text \<open>What a patch module exports: a \<open>descriptors\<close> field or the module itself, one or an array.\<close>

datatype 'w exported = One "'w descriptor option" | Many "'w descriptor option list"

definition exported_list :: "'w exported \<Rightarrow> 'w descriptor option list" where
  "exported_list x = (case x of One d \<Rightarrow> [d] | Many ds \<Rightarrow> ds)"

definition descriptorListFromExports :: "'w exported \<Rightarrow> string option \<Rightarrow> descriptor_error + 'w descriptor list" where
  "descriptorListFromExports x sourcePath =
     emap (\<lambda>(index, d). normalizeDescriptor d sourcePath index) (enumerate 0 (exported_list x))"

definition discoverCorePatchDescriptors ::
  "(string \<Rightarrow> 'w exported) \<Rightarrow> string \<Rightarrow> tree option \<Rightarrow> descriptor_error + 'w descriptor list" where
  "discoverCorePatchDescriptors load rt t =
     ebind (emap (\<lambda>file. descriptorListFromExports (load file) (Some file)) (discoverPatchFiles rt t))
       (\<lambda>dss. Inr (sortPatchDescriptors (concat dss)))"

section \<open>Laws\<close>

interpretation descriptors: consistent_comparator compareDescriptors
proof unfold_locales
  fix x y z :: "'w descriptor"
  show "compareDescriptors x x = 0"
    by (simp add: compareDescriptors_def collate.cmp_refl)
  show "compareDescriptors x y \<le> 0 \<or> compareDescriptors y x \<le> 0"
    using collate.cmp_total [of "sort_label x" "sort_label y"] by (auto simp: compareDescriptors_def)
  show "compareDescriptors x y \<le> 0 \<Longrightarrow> compareDescriptors y z \<le> 0 \<Longrightarrow> compareDescriptors x z \<le> 0"
    using collate.cmp_trans [of "sort_label x" "sort_label y" "sort_label z"]
    by (auto simp: compareDescriptors_def split: if_splits)
qed

text \<open>What a normalised descriptor satisfies.\<close>

definition normal_descriptor :: "'w descriptor \<Rightarrow> bool" where
  "normal_descriptor d \<longleftrightarrow>
     (\<exists>i. d_id d = Some (MStr i) \<and> i \<noteq> []) \<and> (\<exists>f. d_apply d = Fun f) \<and>
     \<not> is_NotFunction (d_assetMatch d) \<and>
     (\<exists>p\<in>set PATCH_PHASES. d_phase d = Some p) \<and>
     (\<exists>p\<in>set CI_POLICIES. d_ciPolicy d = Some p \<and> normalizeCiPolicy p = p) \<and>
     d_order d \<noteq> None \<and> nullish (d_name d) \<noteq> None \<and> nullish (d_sourceKind d) \<noteq> None"

lemma normalizeCiPolicy_idem [simp]: "normalizeCiPolicy (normalizeCiPolicy p) = normalizeCiPolicy p"
  by (simp add: normalizeCiPolicy_def)

lemma nullish_MStr [simp]: "nullish (Some (MStr s)) = Some (MStr s)"
  by (simp add: nullish_def)

lemma nullish_or_text: "nullish (or_text a t) = or_text a t" and or_text_not_None: "or_text a t \<noteq> None"
  by (auto simp: or_text_def nullish_def split: option.splits mval.splits)

lemma normalizeDescriptor_normal:
  "normalizeDescriptor desc p i = Inr d \<Longrightarrow> normal_descriptor d"
  unfolding normal_descriptor_def nullish_or_text
  by (auto simp: normalizeDescriptor_def descriptor_policy_def Let_def nullish_or_text
      or_text_not_None [unfolded not_None_eq]
      split: option.splits mval.splits list.splits slot.splits if_splits)

lemma normalizeDescriptor_id:
  "normalizeDescriptor (Some d) p i = Inr d' \<Longrightarrow> d_id d' = descriptorId d"
  by (auto simp: normalizeDescriptor_def Let_def
      split: option.splits mval.splits list.splits slot.splits if_splits)

lemma note_patch_id_keys:
  assumes "efold note_patch_id ds m = Inr m'"
  shows "distinct (map d_id ds) \<and> set (map d_id ds) \<inter> set (map_keys m) = {}"
  using assms
proof (induction ds arbitrary: m)
  case (Cons d ds)
  from Cons.prems have new: "map_get m (d_id d) = None"
    and rest: "efold note_patch_id ds (map_set (d_id d) (source_text d) m) = Inr m'"
    by (cases "map_get m (d_id d)"; simp add: note_patch_id_def [of d])+
  from new have "d_id d \<notin> set (map_keys m)" by (simp add: jsm.keys_get)
  with Cons.IH [OF rest] show ?case by (auto simp: jsm.keys_put)
qed simp

lemma note_patch_id_total:
  assumes "distinct (map d_id ds)" and "set (map d_id ds) \<inter> set (map_keys m) = {}"
  shows "\<exists>m'. efold note_patch_id ds m = Inr m'"
  using assms
proof (induction ds arbitrary: m)
  case (Cons d ds)
  then have new: "map_get m (d_id d) = None" by (auto simp: jsm.keys_get)
  then have "d_id d \<notin> set (map_keys m)" by (simp add: jsm.keys_get)
  with Cons.IH [of "map_set (d_id d) (source_text d) m"] Cons.prems new show ?case
    by (auto simp: note_patch_id_def jsm.keys_put)
qed simp

lemma map_keys_Nil [simp]: "map_keys [] = []"
  by (simp add: map_keys_def)

lemma assertUniquePatchIds_iff: "assertUniquePatchIds ds = Inr () \<longleftrightarrow> distinct (map d_id ds)"
proof
  assume "assertUniquePatchIds ds = Inr ()"
  then obtain m where "efold note_patch_id ds [] = Inr m"
    by (auto simp: assertUniquePatchIds_def ebind_eq_Inr)
  then show "distinct (map d_id ds)" using note_patch_id_keys by blast
next
  assume "distinct (map d_id ds)"
  then obtain m where "efold note_patch_id ds [] = Inr m"
    using note_patch_id_total [of ds "[]"] by auto
  then show "assertUniquePatchIds ds = Inr ()" by (simp add: assertUniquePatchIds_def)
qed

section \<open>Properties\<close>

text \<open>C33: normalising a list of descriptors gives descriptors that are well-formed, carry the ids
  they came with, all different, and stand in the order the engine runs them; it succeeds on as
  many as it was given.\<close>

theorem normalizePatchDescriptors_sound:
  assumes "normalizePatchDescriptors ds = Inr out"
  shows "list_all normal_descriptor out \<and> distinct (map d_id out) \<and>
    mset (map d_id out) = mset (map descriptorId ds) \<and>
    sorted_wrt (\<lambda>l r. compareDescriptors l r \<le> 0) out"
proof -
  let ?norm = "\<lambda>(index, d). normalizeDescriptor (Some d) (d_sourcePath d) index"
  obtain ns where ns: "emap ?norm (enumerate 0 ds) = Inr ns"
    and u: "assertUniquePatchIds ns = Inr ()" and out: "out = sortPatchDescriptors ns"
    using assms by (auto simp: normalizePatchDescriptors_def ebind_eq_Inr)
  have rel: "list_all2 (\<lambda>x y. ?norm x = Inr y) (enumerate 0 ds) ns"
    using ns by (simp add: emap_eq_Inr)
  have normal: "list_all normal_descriptor ns"
    unfolding list_all_iff using emap_set [OF ns] by (fastforce dest: normalizeDescriptor_normal)
  have "map d_id ns = map (descriptorId \<circ> snd) (enumerate 0 ds)"
    using rel by induction (auto dest: normalizeDescriptor_id)
  then have ids: "map d_id ns = map descriptorId ds" by (simp flip: map_map)
  then have "mset (map d_id ns) = mset (map descriptorId ds)" by simp
  moreover have "distinct (map d_id ns)" using u assertUniquePatchIds_iff by blast
  ultimately show ?thesis
    unfolding out sortPatchDescriptors_def
    using descriptors.sorted_sort [of ns] normal
    by (simp add: list_all_iff)
qed

definition sample_descriptor :: "string \<Rightarrow> int \<Rightarrow> 'w descriptor" where
  "sample_descriptor i n = \<lparr>d_id = Some (MStr i), d_name = None, d_phase = None, d_ciPolicy = None,
     d_sourceKind = None, d_integrationId = None, d_featureId = None, d_order = Some n,
     d_sourcePath = None,
     d_apply = Fun (\<lambda>v c. \<lparr>outcome = Inr v, warned = [], strategies_noted = [], context_after = c\<rparr>),
     d_assetMatch = Missing, d_appliesTo = None, d_enabled = None, d_status = None,
     d_targetSummary = None, d_assetPattern = None, d_pattern = None, d_missingDescription = None,
     d_skipDescription = None, d_missingWarning = None, d_ambiguousWarning = None\<rparr>"

theorem normalizePatchDescriptors_sound_witness:
  "\<exists>out. normalizePatchDescriptors [sample_descriptor ''b'' 20, sample_descriptor ''a'' 10 :: unit descriptor]
       = Inr out \<and> distinct (map d_id out)"
proof -
  let ?ds = "[sample_descriptor ''b'' 20, sample_descriptor ''a'' 10 :: unit descriptor]"
  have "\<exists>out. normalizePatchDescriptors ?ds = Inr out"
    by (simp add: normalizePatchDescriptors_def normalizeDescriptor_def sample_descriptor_def
        descriptorId_def coalesce_def descriptor_policy_def normalizeCiPolicy_def nullish_def
        CI_POLICIES_def PATCH_PHASES_def assertUniquePatchIds_def note_patch_id_def map_get_def
        map_set_def Let_def)
  then obtain out where out: "normalizePatchDescriptors ?ds = Inr out" by blast
  with normalizePatchDescriptors_sound [OF out] show ?thesis by blast
qed

text \<open>Ids that repeat are refused, and only those: the check passes exactly on lists of
  descriptors with different ids.\<close>

theorem assertUniquePatchIds_exact:
  "assertUniquePatchIds ds = Inr () \<longleftrightarrow> distinct (map d_id ds)"
  by (rule assertUniquePatchIds_iff)

end
