(* ===== verification/Patch_Effects.thy ===== *)
theory Patch_Effects
  imports Patch_Descriptor
begin

text \<open>
  The effects of a patch run and how the engine contains them. A computation (\<open>task\<close>) acts on
  the run's state, returns a value or throws, and keeps what it did when it throws. The state
  holds the context, the report, the buffer of \<open>scripts/patches/strategy-telemetry.js\<close> and
  the lines given to \<open>console.warn\<close>; \<open>captureWarnings\<close> of
  \<open>scripts/lib/patch-report.js\<close> reads off the lines a task adds, and
  \<open>runDescriptorApply\<close> of \<open>scripts/patches/engine.js\<close> turns what a patch throws into a
  value. An awaited promise is the same computation as the synchronous one: the engine runs one
  task at a time.
\<close>

section \<open>Tasks\<close>

record 'w run_state =
  ctx :: "'w patch_context"
  rep :: "patch_report option"
  buffer :: "(string \<times> string) list"
  console :: "string list"

type_synonym ('w, 'a) task = "'w run_state \<Rightarrow> (thrown + 'a) \<times> 'w run_state"

definition tpure :: "'a \<Rightarrow> ('w, 'a) task" where
  "tpure x s = (Inr x, s)"

definition tthrow :: "thrown \<Rightarrow> ('w, 'a) task" where
  "tthrow e s = (Inl e, s)"

definition tbind :: "('w, 'a) task \<Rightarrow> ('a \<Rightarrow> ('w, 'b) task) \<Rightarrow> ('w, 'b) task" where
  "tbind m f s = (case m s of (Inl e, s') \<Rightarrow> (Inl e, s') | (Inr x, s') \<Rightarrow> f x s')"

fun tmap :: "('a \<Rightarrow> ('w, 'b) task) \<Rightarrow> 'a list \<Rightarrow> ('w, 'b list) task" where
  "tmap f [] = tpure []"
| "tmap f (x # xs) = tbind (f x) (\<lambda>y. tbind (tmap f xs) (\<lambda>ys. tpure (y # ys)))"

fun tfor :: "('a \<Rightarrow> ('w, unit) task) \<Rightarrow> 'a list \<Rightarrow> ('w, unit) task" where
  "tfor f [] = tpure ()"
| "tfor f (x # xs) = tbind (f x) (\<lambda>u. tfor f xs)"

definition console_warn :: "string \<Rightarrow> ('w, unit) task" where
  "console_warn line s = (Inr (), s\<lparr>console := console s @ [line]\<rparr>)"

definition lift_world :: "('w \<Rightarrow> (thrown + 'a) \<times> 'w) \<Rightarrow> ('w, 'a) task" where
  "lift_world f s =
     (case f (world (ctx s)) of (r, w) \<Rightarrow> (r, s\<lparr>ctx := (ctx s)\<lparr>world := w\<rparr>\<rparr>))"

text \<open>Calling a patch function: its outcome, and its effects on the run.\<close>

definition call_apply :: "(pvalue \<Rightarrow> 'w patch_context \<Rightarrow> 'w applied) \<Rightarrow> pvalue \<Rightarrow> ('w, pvalue) task" where
  "call_apply f v s =
     (let a = f v (ctx s) in
      (outcome a, s\<lparr>ctx := context_after a, buffer := buffer s @ strategies_noted a,
                    console := console s @ warned a\<rparr>))"

lemma tbind_eq_Inr [res_simps]:
  "tbind m f s = (Inr y, t) \<longleftrightarrow> (\<exists>x s1. m s = (Inr x, s1) \<and> f x s1 = (Inr y, t))"
  by (auto simp: tbind_def split: prod.splits sum.splits)

lemma tpure_eq [res_simps]: "tpure x s = (r, t) \<longleftrightarrow> r = Inr x \<and> t = s"
  by (auto simp: tpure_def)

lemma tthrow_eq [res_simps]: "tthrow e s = (r, t) \<longleftrightarrow> r = Inl e \<and> t = s"
  by (auto simp: tthrow_def)

section \<open>Strategy telemetry\<close>

definition recordStrategy :: "string \<Rightarrow> string \<Rightarrow> 'w run_state \<Rightarrow> 'w run_state" where
  "recordStrategy grp strategy s = s\<lparr>buffer := buffer s @ [(grp, strategy)]\<rparr>"

text \<open>The key under which a strategy is noted once: its group and name around a NUL character.\<close>

definition strategy_key :: "string \<times> string \<Rightarrow> string" where
  "strategy_key e = fst e @ [CHR 0x00] @ snd e"

fun first_by_key :: "string set \<Rightarrow> (string \<times> string) list \<Rightarrow> (string \<times> string) list" where
  "first_by_key seen [] = []"
| "first_by_key seen (e # es) =
     (if strategy_key e \<in> seen then first_by_key seen es
      else e # first_by_key (insert (strategy_key e) seen) es)"

definition drainStrategies :: "'w run_state \<Rightarrow> (string \<times> string) list \<times> 'w run_state" where
  "drainStrategies s = (first_by_key {} (buffer s), s\<lparr>buffer := []\<rparr>)"

section \<open>Running one patch\<close>

text \<open>\<open>captureWarnings\<close>: the lines a task adds to the console, which still shows them.\<close>

definition captureWarnings :: "('w, 'a) task \<Rightarrow> ('w, 'a \<times> string list) task" where
  "captureWarnings m s =
     (case m s of
        (Inl e, s') \<Rightarrow> (Inl e, s')
      | (Inr x, s') \<Rightarrow> (Inr (x, drop (length (console s)) (console s')), s'))"

text \<open>The outcome of a patch: the error it threw, if any, and its value or the fallback.\<close>

definition contained :: "('w, 'a) task \<Rightarrow> 'a \<Rightarrow> ('w, thrown option \<times> 'a) task" where
  "contained m fallback s =
     (case m s of
        (Inr x, s') \<Rightarrow> (Inr (None, x), s')
      | (Inl e, s') \<Rightarrow>
          (if isGeneratedAppIntegrityError e then (Inl e, s') else (Inr (Some e, fallback), s')))"

record 'a apply_result =
  r_value :: 'a
  r_warnings :: "string list"
  r_error :: "thrown option"
  r_strategies :: "(string \<times> string) list"

definition runDescriptorApply :: "('w, 'a) task \<Rightarrow> 'a \<Rightarrow> ('w, 'a apply_result) task" where
  "runDescriptorApply m fallback s =
     (case captureWarnings (contained m fallback) (snd (drainStrategies s)) of
        (Inl e, s') \<Rightarrow> (Inl e, s')
      | (Inr ((err, v), ws), s') \<Rightarrow>
          (case drainStrategies s' of
             (strategies, s'') \<Rightarrow>
               (Inr \<lparr>r_value = v, r_warnings = ws, r_error = err, r_strategies = strategies\<rparr>, s'')))"

text \<open>The asynchronous one also drains the strategies when an integrity error leaves it.\<close>

definition runDescriptorApplyAsync :: "('w, 'a) task \<Rightarrow> 'a \<Rightarrow> ('w, 'a apply_result) task" where
  "runDescriptorApplyAsync m fallback s =
     (case runDescriptorApply m fallback s of
        (Inl e, s') \<Rightarrow> (Inl e, snd (drainStrategies s'))
      | (Inr r, s') \<Rightarrow> (Inr r, s'))"

section \<open>Frames\<close>

text \<open>
  A task is framed by a preorder on states when it never leaves a state for one that is not
  related to it. Composition keeps frames, so each frame of a run is proved from its smallest
  tasks.
\<close>

locale frame =
  fixes R :: "'w run_state \<Rightarrow> 'w run_state \<Rightarrow> bool"
  assumes R_refl: "R s s"
    and R_trans: "R s t \<Longrightarrow> R t u \<Longrightarrow> R s u"
begin

definition framed :: "('w, 'a) task \<Rightarrow> bool" where
  "framed m \<longleftrightarrow> (\<forall>s. R s (snd (m s)))"

lemma framedI: "(\<And>s. R s (snd (m s))) \<Longrightarrow> framed m"
  by (simp add: framed_def)

lemma framedD: "framed m \<Longrightarrow> R s (snd (m s))"
  by (simp add: framed_def)

lemma framed_result: "framed m \<Longrightarrow> m s = (r, s') \<Longrightarrow> R s s'"
  using framedD [of m s] by simp

lemma framed_pure: "framed (tpure x)"
  by (simp add: framed_def tpure_def R_refl)

lemma framed_throw: "framed (tthrow e)"
  by (simp add: framed_def tthrow_def R_refl)

lemma framed_bind: "framed m \<Longrightarrow> (\<And>x. framed (f x)) \<Longrightarrow> framed (tbind m f)"
proof (rule framedI)
  fix s :: "'w run_state"
  assume m: "framed m" and f: "\<And>x. framed (f x)"
  obtain r s' where ms: "m s = (r, s')" by (cases "m s")
  then have "R s s'" using framed_result [OF m] by blast
  then show "R s (snd (tbind m f s))"
    using ms framedD [OF f, where s = s'] by (cases r) (auto simp: tbind_def intro: R_trans)
qed

lemma framed_map: "(\<And>x. x \<in> set xs \<Longrightarrow> framed (f x)) \<Longrightarrow> framed (tmap f xs)"
  by (induction xs) (auto intro!: framed_pure framed_bind)

lemma framed_for: "(\<And>x. x \<in> set xs \<Longrightarrow> framed (f x)) \<Longrightarrow> framed (tfor f xs)"
  by (induction xs) (auto intro!: framed_pure framed_bind)

lemma framed_contained: "framed m \<Longrightarrow> framed (contained m v)"
  by (auto simp: framed_def contained_def split: prod.splits sum.splits) (metis snd_conv)+

lemma framed_capture: "framed m \<Longrightarrow> framed (captureWarnings m)"
  by (auto simp: framed_def captureWarnings_def split: prod.splits sum.splits) (metis snd_conv)+

end

text \<open>What no patch does: lose a line of the console, or touch the report.\<close>

definition only_adds :: "'w run_state \<Rightarrow> 'w run_state \<Rightarrow> bool" where
  "only_adds s t \<longleftrightarrow> rep t = rep s \<and> prefix (console s) (console t)"

interpretation quiet: frame only_adds
  by unfold_locales (auto simp: only_adds_def)

text \<open>What a task that only reads does: leave the world as it is.\<close>

definition same_world :: "'w run_state \<Rightarrow> 'w run_state \<Rightarrow> bool" where
  "same_world s t \<longleftrightarrow> world (ctx t) = world (ctx s)"

interpretation reading: frame same_world
  by unfold_locales (auto simp: same_world_def)

lemma quiet_warn: "quiet.framed (console_warn line)"
  by (simp add: quiet.framed_def console_warn_def only_adds_def)

lemma quiet_lift: "quiet.framed (lift_world f)"
  by (auto simp: quiet.framed_def lift_world_def only_adds_def split: prod.splits)

lemma quiet_call: "quiet.framed (call_apply f v)"
  by (simp add: quiet.framed_def call_apply_def only_adds_def Let_def)

lemma reading_warn: "reading.framed (console_warn line)"
  by (simp add: reading.framed_def console_warn_def same_world_def)

lemma reading_lift: "(\<And>w. snd (f w) = w) \<Longrightarrow> reading.framed (lift_world f)"
  by (auto simp: reading.framed_def lift_world_def same_world_def split: prod.splits) (metis snd_conv)

section \<open>Laws\<close>

lemma first_by_key_set: "strategy_key ` set (first_by_key S es) = strategy_key ` set es - S"
  by (induction es arbitrary: S) auto

lemma first_by_key_distinct: "distinct (map strategy_key (first_by_key S es))"
proof (induction es arbitrary: S)
  case (Cons e es)
  have "strategy_key e \<notin> strategy_key ` set (first_by_key (insert (strategy_key e) S) es)"
    by (simp add: first_by_key_set)
  with Cons show ?case by simp
qed simp

lemma first_by_key_subseq: "subseq (first_by_key S es) es"
  by (induction es arbitrary: S) auto

text \<open>
  What a contained run is, case by case. The report is the caller's, the telemetry buffer starts
  and ends empty, and the warnings are the lines this patch printed.
\<close>

lemma runDescriptorApply_cases:
  assumes quiet: "quiet.framed m"
  shows "case m (s\<lparr>buffer := []\<rparr>) of
      (Inr x, t) \<Rightarrow>
        runDescriptorApply m fallback s =
          (Inr \<lparr>r_value = x, r_warnings = drop (length (console s)) (console t), r_error = None,
                r_strategies = first_by_key {} (buffer t)\<rparr>, t\<lparr>buffer := []\<rparr>)
    | (Inl e, t) \<Rightarrow>
        runDescriptorApply m fallback s =
          (if isGeneratedAppIntegrityError e then (Inl e, t)
           else (Inr \<lparr>r_value = fallback, r_warnings = drop (length (console s)) (console t),
                      r_error = Some e, r_strategies = first_by_key {} (buffer t)\<rparr>,
                 t\<lparr>buffer := []\<rparr>))"
  by (auto simp: runDescriptorApply_def captureWarnings_def contained_def drainStrategies_def
      split: prod.splits sum.splits)

lemma runDescriptorApply_quiet:
  fixes m :: "('w, 'a) task"
  assumes m: "quiet.framed m"
  shows "quiet.framed (runDescriptorApply m fallback)"
proof (rule quiet.framedI)
  fix s :: "'w run_state"
  obtain r t where t: "m (s\<lparr>buffer := []\<rparr>) = (r, t)" by (cases "m (s\<lparr>buffer := []\<rparr>)")
  have "only_adds (s\<lparr>buffer := []\<rparr>) t" using quiet.framed_result [OF m t] .
  then show "only_adds s (snd (runDescriptorApply m fallback s))"
    using runDescriptorApply_cases [OF m, where s = s and fallback = fallback] t
    by (cases r) (auto simp: only_adds_def)
qed

lemma runDescriptorApply_buffer:
  "runDescriptorApply m fallback s = (Inr r, t) \<Longrightarrow> buffer t = []"
  by (auto simp: runDescriptorApply_def drainStrategies_def split: prod.splits sum.splits)

lemma runDescriptorApply_throws:
  "runDescriptorApply m fallback s = (Inl e, t) \<Longrightarrow> isGeneratedAppIntegrityError e"
  by (auto simp: runDescriptorApply_def captureWarnings_def contained_def
      split: prod.splits sum.splits if_splits)

end
