(* ===== verification/Patch_Assets.thy ===== *)
theory Patch_Assets
  imports Patch_Effects
begin

text \<open>
  \<open>scripts/patches/lib/assets.js\<close>: reading and replacing the extracted app's files, through
  the mutation capability (the client of the mutation broker) or, for the patches that work on a
  directory, through the file system. A capability is a record of functions on the world; what
  they answer is checked here before it is used, so an answer of the wrong type or without valid
  metadata is a value of the model. File contents and source text are byte strings, and
  \<open>valid_utf8\<close> says which of them the fatal \<open>TextDecoder\<close> accepts (with \<open>ignoreBOM\<close> it
  loses none of the bytes). File name patterns are predicates.
\<close>

unbundle bit_operations_syntax

section \<open>Text\<close>

definition byte_between :: "nat \<Rightarrow> nat \<Rightarrow> char \<Rightarrow> bool" where
  "byte_between lo hi c = (lo \<le> code_unit c \<and> code_unit c \<le> hi)"

text \<open>How many continuation bytes a lead byte calls for, and the range of the first of them.\<close>

definition utf8_lead :: "char \<Rightarrow> (nat \<times> nat \<times> nat) option" where
  "utf8_lead c =
     (if byte_between 0x00 0x7F c then Some (0, 0x80, 0xBF)
      else if byte_between 0xC2 0xDF c then Some (1, 0x80, 0xBF)
      else if byte_between 0xE0 0xE0 c then Some (2, 0xA0, 0xBF)
      else if byte_between 0xED 0xED c then Some (2, 0x80, 0x9F)
      else if byte_between 0xE1 0xEF c then Some (2, 0x80, 0xBF)
      else if byte_between 0xF0 0xF0 c then Some (3, 0x90, 0xBF)
      else if byte_between 0xF1 0xF3 c then Some (3, 0x80, 0xBF)
      else if byte_between 0xF4 0xF4 c then Some (3, 0x80, 0x8F)
      else None)"

text \<open>The decoder: \<open>n\<close> continuation bytes are due, the next one in the given range.\<close>

fun utf8_from :: "nat \<Rightarrow> nat \<Rightarrow> nat \<Rightarrow> string \<Rightarrow> bool" where
  "utf8_from n lo hi [] = (n = 0)"
| "utf8_from n lo hi (c # s) =
     (if n = 0 then (case utf8_lead c of None \<Rightarrow> False | Some (m, l, h) \<Rightarrow> utf8_from m l h s)
      else byte_between lo hi c \<and> utf8_from (n - 1) 0x80 0xBF s)"

definition valid_utf8 :: "string \<Rightarrow> bool" where
  "valid_utf8 s = utf8_from 0 0 0 s"

section \<open>Names\<close>

definition MAIN_BUILD_COMPONENTS :: "string list" where
  "MAIN_BUILD_COMPONENTS = [''.vite'', ''build'']"

definition WEBVIEW_ASSET_COMPONENTS :: "string list" where
  "WEBVIEW_ASSET_COMPONENTS = [''webview'', ''assets'']"

definition name_rest_char :: "char \<Rightarrow> bool" where
  "name_rest_char c = (is_alnum c \<or> c = CHR ''.'' \<or> c = CHR ''_'' \<or> c = CHR ''-'')"

text \<open>\<open>/^[A-Za-z0-9][A-Za-z0-9._-]*$/\<close>.\<close>

fun OFFICIAL_ASSET_NAME_PATTERN :: "string \<Rightarrow> bool" where
  "OFFICIAL_ASSET_NAME_PATTERN [] = False"
| "OFFICIAL_ASSET_NAME_PATTERN (c # s) = (is_alnum c \<and> list_all name_rest_char s)"

definition hash_char :: "char \<Rightarrow> bool" where
  "hash_char c = (is_alnum c \<or> c = CHR ''_'' \<or> c = CHR ''-'')"

text \<open>A name of a prefix, a non-empty middle of the given characters, and a suffix.\<close>

definition name_between :: "string \<Rightarrow> (char \<Rightarrow> bool) \<Rightarrow> string \<Rightarrow> string \<Rightarrow> bool" where
  "name_between pre P suf s =
     (starts_with pre s \<and> ends_with suf s \<and> length pre + length suf < length s \<and>
      list_all P (take (length s - length pre - length suf) (drop (length pre) s)))"

definition MAIN_BUNDLE_NAME_PATTERN :: "string \<Rightarrow> bool" where
  "MAIN_BUNDLE_NAME_PATTERN s = (s = ''main.js'' \<or> name_between ''main-'' hash_char ''.js'' s)"

definition ICON_ASSET_NAME_PATTERN :: "string \<Rightarrow> bool" where
  "ICON_ASSET_NAME_PATTERN s = name_between ''app-'' hash_char ''.png'' s"

section \<open>The capability\<close>

record raw_entry =
  raw_name :: "string option"
  raw_mode :: "int option"

record raw_read =
  read_mode :: "int option"
  read_operationId :: "string option"
  read_content :: "string option"

record 'w capability =
  cap_list :: "string list \<Rightarrow> 'w \<Rightarrow> (thrown + raw_entry list option) \<times> 'w"
  cap_read :: "string list \<Rightarrow> 'w \<Rightarrow> (thrown + raw_read option) \<times> 'w"
  cap_replace :: "string list \<Rightarrow> string \<Rightarrow> string \<Rightarrow> 'w \<Rightarrow> (thrown + unit) \<times> 'w"

record asset =
  assetName :: string
  operationId :: string
  originalAssetBytes :: string
  source :: string

definition REGULAR_FILE_TYPE :: int where
  "REGULAR_FILE_TYPE = 0x8000"

definition FILE_TYPE_MASK :: int where
  "FILE_TYPE_MASK = 0xF000"

definition validMetadata :: "int option \<Rightarrow> bool" where
  "validMetadata mode = (case mode of None \<Rightarrow> False | Some m \<Rightarrow> 0 \<le> m \<and> m \<le> 0xffffffff)"

definition isRegularFileMetadata :: "int option \<Rightarrow> bool" where
  "isRegularFileMetadata mode =
     (case mode of None \<Rightarrow> False
      | Some m \<Rightarrow> validMetadata mode \<and> m AND FILE_TYPE_MASK = REGULAR_FILE_TYPE)"

definition invalidCapabilityResult :: "string \<Rightarrow> string \<Rightarrow> string \<Rightarrow> thrown" where
  "invalidCapabilityResult reason operation code = Integrity reason code operation"

text \<open>\<open>name.toString("ascii")\<close> keeps the low seven bits, so the round trip back to bytes fails
  exactly on names with a byte above them.\<close>

definition ascii_round_trip :: "string \<Rightarrow> bool" where
  "ascii_round_trip s = list_all (\<lambda>c. code_unit c < 128) s"

definition officialAssetEntry :: "raw_entry \<Rightarrow> thrown + string option" where
  "officialAssetEntry e =
     (case raw_name e of
        None \<Rightarrow> Inl (invalidCapabilityResult ''invalid asset directory entry'' ''list'' ''protocol'')
      | Some nm \<Rightarrow>
          if \<not> validMetadata (raw_mode e)
          then Inl (invalidCapabilityResult ''invalid asset directory entry'' ''list'' ''protocol'')
          else if \<not> isRegularFileMetadata (raw_mode e) then Inr None
          else if \<not> ascii_round_trip nm \<or> \<not> OFFICIAL_ASSET_NAME_PATTERN nm then Inr None
          else Inr (Some nm))"

definition listOfficialAssetEntries :: "'w capability \<Rightarrow> string list \<Rightarrow> ('w, string list) task" where
  "listOfficialAssetEntries cap dir =
     tbind (lift_world (cap_list cap dir)) (\<lambda>listed.
       case listed of
         None \<Rightarrow> tthrow (invalidCapabilityResult ''invalid asset directory listing'' ''list'' ''protocol'')
       | Some entries \<Rightarrow>
           (case emap officialAssetEntry entries of
              Inl e \<Rightarrow> tthrow e
            | Inr names \<Rightarrow> tpure (js_sort order_cmp (List.map_filter (\<lambda>n. n) names))))"

definition decodeUtf8Source :: "string option \<Rightarrow> thrown + string" where
  "decodeUtf8Source content =
     (case content of
        None \<Rightarrow> Inl (invalidCapabilityResult ''asset read returned non-byte content'' ''read'' ''protocol'')
      | Some bytes \<Rightarrow>
          if valid_utf8 bytes then Inr bytes
          else Inl (invalidCapabilityResult ''asset source is not valid UTF-8'' ''read'' ''integrity''))"

definition checked_read :: "string \<Rightarrow> raw_read option \<Rightarrow> thrown + asset" where
  "checked_read name read =
     (case read of
        None \<Rightarrow> Inl (invalidCapabilityResult ''asset read returned invalid metadata'' ''read'' ''protocol'')
      | Some r \<Rightarrow>
          if \<not> validMetadata (read_mode r)
          then Inl (invalidCapabilityResult ''asset read returned invalid metadata'' ''read'' ''protocol'')
          else if \<not> isRegularFileMetadata (read_mode r)
          then Inl (invalidCapabilityResult ''asset read target is not a regular file'' ''read'' ''integrity'')
          else (case read_operationId r of
            None \<Rightarrow> Inl (invalidCapabilityResult ''asset read returned an invalid identity token'' ''read'' ''protocol'')
          | Some opid \<Rightarrow>
              if length opid \<noteq> 16
              then Inl (invalidCapabilityResult ''asset read returned an invalid identity token'' ''read'' ''protocol'')
              else (case decodeUtf8Source (read_content r) of
                Inl e \<Rightarrow> Inl e
              | Inr text \<Rightarrow> Inr \<lparr>assetName = name, operationId = opid,
                                originalAssetBytes = the (read_content r), source = text\<rparr>)))"

definition tlift :: "thrown + 'a \<Rightarrow> ('w, 'a) task" where
  "tlift r = (case r of Inl e \<Rightarrow> tthrow e | Inr x \<Rightarrow> tpure x)"

definition readUtf8AssetSource :: "'w capability \<Rightarrow> string list \<Rightarrow> string \<Rightarrow> ('w, asset) task" where
  "readUtf8AssetSource cap dir name =
     tbind (lift_world (cap_read cap (dir @ [name]))) (\<lambda>r. tlift (checked_read name r))"

section \<open>The main bundle and the icon\<close>

definition findMainBundleWithCapability :: "'w capability \<Rightarrow> ('w, asset option) task" where
  "findMainBundleWithCapability cap =
     tbind (listOfficialAssetEntries cap MAIN_BUILD_COMPONENTS) (\<lambda>entries.
       case find MAIN_BUNDLE_NAME_PATTERN entries of
         None \<Rightarrow> tpure None
       | Some name \<Rightarrow> tbind (readUtf8AssetSource cap MAIN_BUILD_COMPONENTS name) (\<lambda>a. tpure (Some a)))"

definition replaceMainBundleWithCapability ::
  "'w capability \<Rightarrow> asset option \<Rightarrow> pvalue \<Rightarrow> ('w, bool) task" where
  "replaceMainBundleWithCapability cap main patched =
     (case (main, patched) of
        (Some m, Text replacement) \<Rightarrow>
          if \<not> MAIN_BUNDLE_NAME_PATTERN (assetName m) \<or> length (operationId m) \<noteq> 16
          then tthrow (Error ''Invalid capability-backed main bundle replacement'')
          else if replacement = originalAssetBytes m then tpure False
          else tbind (lift_world (cap_replace cap (MAIN_BUILD_COMPONENTS @ [assetName m])
                                   (operationId m) replacement)) (\<lambda>u. tpure True)
      | _ \<Rightarrow> tthrow (Error ''Invalid capability-backed main bundle replacement''))"

definition findIconAssetWithCapability :: "'w capability \<Rightarrow> ('w, string option) task" where
  "findIconAssetWithCapability cap =
     tbind (listOfficialAssetEntries cap WEBVIEW_ASSET_COMPONENTS) (\<lambda>entries.
       tpure (find ICON_ASSET_NAME_PATTERN entries))"

section \<open>Webview assets\<close>

definition readMatchingWebviewAssetSourcesWithCapability ::
  "'w capability \<Rightarrow> (string \<Rightarrow> bool) \<Rightarrow> ('w, asset list) task" where
  "readMatchingWebviewAssetSourcesWithCapability cap filenamePattern =
     tbind (listOfficialAssetEntries cap WEBVIEW_ASSET_COMPONENTS) (\<lambda>entries.
       tmap (readUtf8AssetSource cap WEBVIEW_ASSET_COMPONENTS) (filter filenamePattern entries))"

definition replacementBytes :: "pvalue \<Rightarrow> string \<Rightarrow> thrown + string" where
  "replacementBytes patched name =
     (case patched of
        Text bytes \<Rightarrow> Inr bytes
      | _ \<Rightarrow> Inl (Error (''Asset patch for '' @ name @ '' must return a string'')))"

definition replaceWebviewAssetSourceWithCapability ::
  "'w capability \<Rightarrow> asset \<Rightarrow> string \<Rightarrow> ('w, unit) task" where
  "replaceWebviewAssetSourceWithCapability cap a replacement =
     lift_world (cap_replace cap (WEBVIEW_ASSET_COMPONENTS @ [assetName a]) (operationId a) replacement)"

record patch_result =
  matched :: nat
  changed :: nat
  result_assetName :: "string option"

text \<open>What a patch makes of an asset, computed before anything is written.\<close>

definition planned_replacement ::
  "(string \<Rightarrow> ('w, pvalue) task) \<Rightarrow> asset \<Rightarrow> ('w, asset \<times> string) task" where
  "planned_replacement patchFn a =
     tbind (patchFn (source a)) (\<lambda>v.
       tbind (tlift (replacementBytes v (assetName a))) (\<lambda>bytes. tpure (a, bytes)))"

definition pending :: "(asset \<times> string) list \<Rightarrow> (asset \<times> string) list" where
  "pending ps = filter (\<lambda>(a, bytes). bytes \<noteq> originalAssetBytes a) ps"

definition patchAssetFilesWithCapability ::
  "'w capability \<Rightarrow> (string \<Rightarrow> bool) \<Rightarrow> (string \<Rightarrow> ('w, pvalue) task) \<Rightarrow> string
     \<Rightarrow> ('w, patch_result) task" where
  "patchAssetFilesWithCapability cap filenamePattern patchFn missingWarning =
     tbind (readMatchingWebviewAssetSourcesWithCapability cap filenamePattern) (\<lambda>sources.
       if sources = []
       then tbind (console_warn missingWarning)
              (\<lambda>u. tpure \<lparr>matched = 0, changed = 0, result_assetName = None\<rparr>)
       else tbind (tmap (planned_replacement patchFn) sources) (\<lambda>plans.
              tbind (tfor (\<lambda>(a, bytes). replaceWebviewAssetSourceWithCapability cap a bytes) (pending plans))
                (\<lambda>u. tpure \<lparr>matched = length sources, changed = length (pending plans),
                            result_assetName = None\<rparr>)))"

fun matching_assets ::
  "(string \<Rightarrow> string \<Rightarrow> ('w, bool) task) \<Rightarrow> asset list \<Rightarrow> ('w, asset list) task" where
  "matching_assets assetMatch [] = tpure []"
| "matching_assets assetMatch (a # as) =
     tbind (assetMatch (source a) (assetName a)) (\<lambda>b.
       tbind (matching_assets assetMatch as) (\<lambda>rest. tpure (if b then a # rest else rest)))"

definition patchUniqueAssetFileWithCapability ::
  "'w capability \<Rightarrow> (string \<Rightarrow> bool) \<Rightarrow> (string \<Rightarrow> string \<Rightarrow> ('w, bool) task)
     \<Rightarrow> (string \<Rightarrow> ('w, pvalue) task) \<Rightarrow> string \<Rightarrow> string \<Rightarrow> ('w, patch_result) task" where
  "patchUniqueAssetFileWithCapability cap filenamePattern assetMatch patchFn missingWarning ambiguousWarning =
     tbind (readMatchingWebviewAssetSourcesWithCapability cap filenamePattern) (\<lambda>sources.
       tbind (matching_assets assetMatch sources) (\<lambda>matches.
         case matches of
           [] \<Rightarrow> tbind (console_warn missingWarning)
                  (\<lambda>u. tpure \<lparr>matched = 0, changed = 0, result_assetName = None\<rparr>)
         | [a] \<Rightarrow>
             tbind (planned_replacement patchFn a) (\<lambda>(a, bytes).
               if bytes = originalAssetBytes a
               then tpure \<lparr>matched = 1, changed = 0, result_assetName = Some (assetName a)\<rparr>
               else tbind (replaceWebviewAssetSourceWithCapability cap a bytes)
                      (\<lambda>u. tpure \<lparr>matched = 1, changed = 1, result_assetName = Some (assetName a)\<rparr>))
         | _ \<Rightarrow> tbind (console_warn (ambiguousWarning @ '': '' @ join '', '' (map assetName matches)))
                  (\<lambda>u. tpure \<lparr>matched = length matches, changed = 0, result_assetName = None\<rparr>)))"

section \<open>Framing\<close>

lemma quiet_tlift: "quiet.framed (tlift r)"
  by (auto simp: tlift_def intro: quiet.framed_pure quiet.framed_throw split: sum.split)

lemma reading_tlift: "reading.framed (tlift r)"
  by (auto simp: tlift_def intro: reading.framed_pure reading.framed_throw split: sum.split)

lemmas quiet_intros = quiet.framed_pure quiet.framed_throw quiet.framed_bind quiet.framed_map
  quiet.framed_for quiet_warn quiet_lift quiet_tlift quiet_call

lemmas reading_intros = reading.framed_pure reading.framed_throw reading.framed_bind
  reading.framed_map reading.framed_for reading_warn reading_tlift

definition reads_only :: "'w capability \<Rightarrow> bool" where
  "reads_only cap \<longleftrightarrow> (\<forall>p w. snd (cap_list cap p w) = w) \<and> (\<forall>p w. snd (cap_read cap p w) = w)"

lemma quiet_listOfficial: "quiet.framed (listOfficialAssetEntries cap dir)"
  by (auto simp: listOfficialAssetEntries_def intro!: quiet_intros split: option.split sum.split)

lemma quiet_readMatching: "quiet.framed (readMatchingWebviewAssetSourcesWithCapability cap p)"
  by (auto simp: readMatchingWebviewAssetSourcesWithCapability_def readUtf8AssetSource_def
      intro!: quiet_intros quiet_listOfficial)

lemma quiet_planned: "(\<And>x. quiet.framed (f x)) \<Longrightarrow> quiet.framed (planned_replacement f a)"
  by (auto simp: planned_replacement_def intro!: quiet_intros)

lemma quiet_matching: "(\<And>x y. quiet.framed (m x y)) \<Longrightarrow> quiet.framed (matching_assets m as)"
  by (induction as) (auto intro!: quiet_intros)

lemma quiet_patchAssetFiles:
  "(\<And>x. quiet.framed (f x)) \<Longrightarrow> quiet.framed (patchAssetFilesWithCapability cap p f w)"
  by (auto simp: patchAssetFilesWithCapability_def replaceWebviewAssetSourceWithCapability_def
      intro!: quiet_intros quiet_readMatching quiet_planned)

lemma quiet_patchUnique:
  "(\<And>x y. quiet.framed (m x y)) \<Longrightarrow> (\<And>x. quiet.framed (f x)) \<Longrightarrow>
   quiet.framed (patchUniqueAssetFileWithCapability cap p m f w v)"
  by (auto simp: patchUniqueAssetFileWithCapability_def replaceWebviewAssetSourceWithCapability_def
      intro!: quiet_intros quiet_readMatching quiet_planned quiet_matching split: list.split)

lemma reading_listOfficial: "reads_only cap \<Longrightarrow> reading.framed (listOfficialAssetEntries cap dir)"
  by (auto simp: listOfficialAssetEntries_def reads_only_def intro!: reading_intros reading_lift
      split: option.split sum.split)

lemma reading_readMatching:
  "reads_only cap \<Longrightarrow> reading.framed (readMatchingWebviewAssetSourcesWithCapability cap p)"
  by (auto simp: readMatchingWebviewAssetSourcesWithCapability_def readUtf8AssetSource_def reads_only_def
      intro!: reading_intros reading_listOfficial reading_lift)

lemma reading_planned: "(\<And>x. reading.framed (f x)) \<Longrightarrow> reading.framed (planned_replacement f a)"
  by (auto simp: planned_replacement_def intro!: reading_intros)

lemma reading_matching: "(\<And>x y. reading.framed (m x y)) \<Longrightarrow> reading.framed (matching_assets m as)"
  by (induction as) (auto intro!: reading_intros)

section \<open>What is read\<close>

text \<open>A directory of regular files, by name, as a capability answers for it: for examples.\<close>

definition directory_capability :: "(string, string) jsmap capability" where
  "directory_capability =
     \<lparr>cap_list = (\<lambda>p w. (Inr (Some (map (\<lambda>(n, t). \<lparr>raw_name = Some n, raw_mode = Some 0x81A4\<rparr>) w)), w)),
      cap_read = (\<lambda>p w. (Inr (map_option (\<lambda>t. \<lparr>read_mode = Some 0x81A4,
                     read_operationId = Some (replicate 16 CHR ''0''), read_content = Some t\<rparr>)
                     (map_get w (last p))), w)),
      cap_replace = (\<lambda>p opid bytes w. (Inr (), map_set (last p) bytes w))\<rparr>"

lemma directory_reads_only: "reads_only directory_capability"
  by (simp add: reads_only_def directory_capability_def)

definition official_asset :: "asset \<Rightarrow> bool" where
  "official_asset a \<longleftrightarrow> OFFICIAL_ASSET_NAME_PATTERN (assetName a) \<and> length (operationId a) = 16 \<and>
     valid_utf8 (source a) \<and> originalAssetBytes a = source a"

lemma officialAssetEntry_name:
  "officialAssetEntry e = Inr (Some n) \<Longrightarrow> OFFICIAL_ASSET_NAME_PATTERN n"
  by (auto simp: officialAssetEntry_def split: option.splits if_splits)

lemma listOfficial_names:
  assumes "listOfficialAssetEntries cap dir s = (Inr names, t)"
  shows "sorted names \<and> list_all OFFICIAL_ASSET_NAME_PATTERN names"
proof -
  obtain entries found where f: "emap officialAssetEntry entries = Inr found"
    and n: "names = js_sort order_cmp (List.map_filter (\<lambda>n. n) found)"
    using assms
    by (auto simp: listOfficialAssetEntries_def tbind_def tthrow_def tpure_def
        split: prod.splits sum.splits option.splits)
  have "OFFICIAL_ASSET_NAME_PATTERN x" if "Some x \<in> set found" for x
    using emap_set [OF f that] officialAssetEntry_name by blast
  then have "list_all OFFICIAL_ASSET_NAME_PATTERN names"
    by (auto simp: n list_all_iff List.map_filter_def)
  moreover have "sorted names"
    using units.sorted_sort [of "List.map_filter (\<lambda>n. n) found"] by (simp add: n)
  ultimately show ?thesis by blast
qed

lemma checked_read_official:
  "checked_read name r = Inr a \<Longrightarrow>
   assetName a = name \<and> length (operationId a) = 16 \<and> valid_utf8 (source a) \<and>
   originalAssetBytes a = source a"
  by (auto simp: checked_read_def decodeUtf8Source_def split: option.splits if_splits)

lemma tlift_eq_Inr [res_simps]: "tlift r s = (Inr x, t) \<longleftrightarrow> r = Inr x \<and> t = s"
  by (cases r) (auto simp: tlift_def res_simps)

lemma readUtf8AssetSource_official:
  "readUtf8AssetSource cap dir n s = (Inr a, t) \<Longrightarrow>
   assetName a = n \<and> length (operationId a) = 16 \<and> valid_utf8 (source a) \<and>
   originalAssetBytes a = source a"
  by (auto simp: readUtf8AssetSource_def res_simps dest: checked_read_official)

lemma tmap_reads:
  "tmap (readUtf8AssetSource cap dir) names s = (Inr as, t) \<Longrightarrow>
   map assetName as = names \<and>
   (\<forall>a\<in>set as. length (operationId a) = 16 \<and> valid_utf8 (source a) \<and> originalAssetBytes a = source a)"
proof (induction names arbitrary: s as)
  case Nil
  then show ?case by (simp add: tpure_def)
next
  case (Cons n ns)
  from Cons.prems obtain a as' s1 s2 where
    "readUtf8AssetSource cap dir n s = (Inr a, s1)"
    "tmap (readUtf8AssetSource cap dir) ns s1 = (Inr as', t)" "as = a # as'"
    by (auto simp: res_simps)
  with Cons.IH [of s1 as'] readUtf8AssetSource_official show ?case by fastforce
qed

lemma readMatching_official:
  assumes "readMatchingWebviewAssetSourcesWithCapability cap p s = (Inr as, t)"
  shows "sorted (map assetName as) \<and> (\<forall>a\<in>set as. official_asset a \<and> p (assetName a))"
proof -
  obtain names s1 where l: "listOfficialAssetEntries cap WEBVIEW_ASSET_COMPONENTS s = (Inr names, s1)"
    and r: "tmap (readUtf8AssetSource cap WEBVIEW_ASSET_COMPONENTS) (filter p names) s1 = (Inr as, t)"
    using assms by (auto simp: readMatchingWebviewAssetSourcesWithCapability_def tbind_def
        split: prod.splits sum.splits)
  have as: "map assetName as = filter p names" using tmap_reads [OF r] by blast
  then have "sorted (map assetName as)" using listOfficial_names [OF l] by (simp add: sorted_filter [of id, simplified])
  moreover have "assetName a \<in> set (filter p names)" if "a \<in> set as" for a
    using that by (simp flip: as)
  then have "\<forall>a\<in>set as. official_asset a \<and> p (assetName a)"
    using listOfficial_names [OF l] tmap_reads [OF r] by (auto simp: official_asset_def list_all_iff)
  ultimately show ?thesis by blast
qed

lemma matching_assets_subset:
  "matching_assets m as s = (Inr bs, t) \<Longrightarrow> set bs \<subseteq> set as"
  by (induction as arbitrary: s bs)
    (fastforce simp: tbind_def tpure_def split: prod.splits sum.splits if_splits)+

lemma planned_replacement_asset:
  "planned_replacement f a s = (Inr (b, bytes), t) \<Longrightarrow> b = a"
  by (auto simp: planned_replacement_def tbind_def tpure_def split: prod.splits sum.splits)

lemma reading_world: "reading.framed m \<Longrightarrow> m s = (r, t) \<Longrightarrow> world (ctx t) = world (ctx s)"
  using reading.framed_result [of m s r t] by (simp add: same_world_def)

section \<open>Properties\<close>

text \<open>C5: patching a set of assets writes nothing unless every patch function of the set has
  returned a string: when planning one replacement throws, the patch throws that error and the
  extracted app is as it was.\<close>

theorem patchAssetFiles_all_or_nothing:
  assumes "reads_only cap" and "\<And>x. reading.framed (patchFn x)"
    and "readMatchingWebviewAssetSourcesWithCapability cap p s = (Inr sources, s1)"
    and "tmap (planned_replacement patchFn) sources s1 = (Inl e, s2)"
  shows "patchAssetFilesWithCapability cap p patchFn missingWarning s = (Inl e, s2) \<and>
    world (ctx s2) = world (ctx s)"
proof -
  have "sources \<noteq> []" using assms(4) by (auto simp: tpure_def)
  then have "patchAssetFilesWithCapability cap p patchFn missingWarning s = (Inl e, s2)"
    using assms(3,4) by (simp add: patchAssetFilesWithCapability_def tbind_def)
  moreover have "reading.framed (tmap (planned_replacement patchFn) sources)"
    by (intro reading.framed_map reading_planned assms(2))
  ultimately show ?thesis
    using reading_world [OF reading_readMatching [OF assms(1)] assms(3)] reading_world [where m = "tmap (planned_replacement patchFn) sources", OF _ assms(4)]
    by simp
qed

definition sample_state :: "'w \<Rightarrow> 'w run_state" where
  "sample_state w = \<lparr>ctx = \<lparr>linux = None, reportWarnings = None, computerUseSupport = False,
     contextIcon = None, contextIntegration = None, world = w\<rparr>, rep = Some (createPatchReport ''now''),
     buffer = [], console = []\<rparr>"

definition sample_asset :: "string \<Rightarrow> string \<Rightarrow> asset" where
  "sample_asset n t = \<lparr>assetName = n, operationId = replicate 16 CHR ''0'', originalAssetBytes = t, source = t\<rparr>"

lemmas directory_eval = readMatchingWebviewAssetSourcesWithCapability_def listOfficialAssetEntries_def
  readUtf8AssetSource_def directory_capability_def lift_world_def tbind_def tpure_def tthrow_def tlift_def
  sample_state_def sample_asset_def officialAssetEntry_def checked_read_def decodeUtf8Source_def
  validMetadata_def isRegularFileMetadata_def FILE_TYPE_MASK_def REGULAR_FILE_TYPE_def
  ascii_round_trip_def List.map_filter_def js_sort_def map_get_def valid_utf8_def utf8_lead_def
  byte_between_def char_class_defs name_rest_char_def order_cmp_def

lemma sample_reading:
  "readMatchingWebviewAssetSourcesWithCapability directory_capability (\<lambda>n. True) (sample_state [(''a.js'', ''x'')])
     = (Inr [sample_asset ''a.js'' ''x''], sample_state [(''a.js'', ''x'')])"
  by (simp add: directory_eval)

theorem patchAssetFiles_all_or_nothing_witness:
  "patchAssetFilesWithCapability directory_capability (\<lambda>n. True) (\<lambda>x. tthrow (Error ''drift'')) ''missing''
     (sample_state [(''a.js'', ''x'')]) = (Inl (Error ''drift''), sample_state [(''a.js'', ''x'')])"
proof -
  let ?s = "sample_state [(''a.js'', ''x'')]"
  let ?f = "\<lambda>x. tthrow (Error ''drift'') :: ((string, string) jsmap, pvalue) task"
  have "tmap (planned_replacement ?f) [sample_asset ''a.js'' ''x''] ?s = (Inl (Error ''drift''), ?s)"
    by (simp add: planned_replacement_def tbind_def tthrow_def)
  from patchAssetFiles_all_or_nothing [OF directory_reads_only reading.framed_throw sample_reading this]
  show ?thesis by blast
qed



end
