(* ===== verification/Patch_Engine.thy ===== *)
theory Patch_Engine
  imports Patch_Assets
begin

text \<open>
  The second half of \<open>scripts/patches/engine.js\<close>: running the descriptors of a phase over the
  main bundle, the webview assets or the extracted app. Each descriptor leaves one entry in the
  report, whatever its patch function does, unless it throws an integrity error, which leaves the
  engine with the report as far as it got. Predicates of descriptors (\<open>appliesTo\<close>,
  \<open>enabled\<close>, \<open>status\<close>) are total functions of the context.
\<close>

section \<open>Recording one descriptor\<close>

definition opt_field :: "string \<Rightarrow> mval option \<Rightarrow> (string, mval) jsmap" where
  "opt_field k v = (case v of None \<Rightarrow> [] | Some x \<Rightarrow> [(k, x)])"

definition critical :: "'w descriptor \<Rightarrow> bool" where
  "critical d = isCriticalPolicy (nullish (d_ciPolicy d))"

definition descriptorFailureStatus :: "'w descriptor \<Rightarrow> string" where
  "descriptorFailureStatus d =
     (if critical d then PATCH_STATUS_FAILED_REQUIRED else PATCH_STATUS_SKIPPED_OPTIONAL)"

fun thrown_message :: "thrown \<Rightarrow> string" where
  "thrown_message (Integrity reason code operation) =
     ''Generated app mutation integrity failure ('' @ operation @ ''/'' @ code @ '')''"
| "thrown_message (Error m) = m"
| "thrown_message (Thrown_Value v) = v"

definition describePatchError :: "'w descriptor \<Rightarrow> thrown \<Rightarrow> string" where
  "describePatchError d e = ''Patch '' @ [CHR 39] @ id_text d @ [CHR 39] @ '' threw: '' @ thrown_message e"

definition normalizeDescriptorStatus :: "'w descriptor \<Rightarrow> string \<Rightarrow> string" where
  "normalizeDescriptorStatus d status =
     (if critical d \<and> status = PATCH_STATUS_SKIPPED_OPTIONAL then PATCH_STATUS_FAILED_REQUIRED else status)"

definition patchStatusFromDescriptorChange :: "'w descriptor \<Rightarrow> bool \<Rightarrow> string list \<Rightarrow> string" where
  "patchStatusFromDescriptorChange d chg ws = patchStatusFromChange chg ws (nullish (d_ciPolicy d))"

definition warnings_metadata :: "'w patch_context \<Rightarrow> (string, mval) jsmap" where
  "warnings_metadata c =
     (case reportWarnings c of Some (w # ws) \<Rightarrow> [(''warnings'', MStrs (w # ws))] | _ \<Rightarrow> [])"

definition descriptor_metadata :: "'w descriptor \<Rightarrow> (string, mval) jsmap \<Rightarrow> 'w patch_context \<Rightarrow> (string, mval) jsmap" where
  "descriptor_metadata d extra c =
     opt_field ''phase'' (d_phase d) @ [(''targetSummary'', MStr (patchTargetSummary d c))] @
     opt_field ''ciPolicy'' (or_text (d_ciPolicy d) ''optional'') @
     opt_field ''sourceKind'' (or_text (d_sourceKind d) ''core'') @
     opt_field ''integrationId'' (nullish (d_integrationId d)) @
     opt_field ''featureId'' (nullish (d_featureId d)) @ extra @ warnings_metadata c"

definition recordDescriptorPatch ::
  "'w descriptor \<Rightarrow> string \<Rightarrow> string option \<Rightarrow> (string, mval) jsmap \<Rightarrow> 'w run_state \<Rightarrow> 'w run_state" where
  "recordDescriptorPatch d status reason extra s =
     s\<lparr>rep := recordPatch (rep s) (id_text d) (normalizeDescriptorStatus d status) reason
                (Some (descriptor_metadata d extra (ctx s)))\<rparr>"

definition strategyMetadata :: "(string \<times> string) list \<Rightarrow> (string, mval) jsmap" where
  "strategyMetadata strategies = (if strategies = [] then [] else [(''strategies'', MPairs strategies)])"

definition recordDescriptorError ::
  "'w descriptor \<Rightarrow> thrown \<Rightarrow> (string \<times> string) list \<Rightarrow> 'w run_state \<Rightarrow> 'w run_state" where
  "recordDescriptorError d e strategies s =
     recordDescriptorPatch d (descriptorFailureStatus d) (Some (describePatchError d e))
       ((''error'', MBool True) # strategyMetadata strategies) s"

definition descriptorAppliesTo :: "'w descriptor \<Rightarrow> 'w patch_context \<Rightarrow> bool" where
  "descriptorAppliesTo d c = (case d_appliesTo d of None \<Rightarrow> True | Some f \<Rightarrow> f c)"

definition descriptorEnabled :: "'w descriptor \<Rightarrow> 'w patch_context \<Rightarrow> bool" where
  "descriptorEnabled d c = (case d_enabled d of None \<Rightarrow> True | Some f \<Rightarrow> f c)"

text \<open>The two early \<open>continue\<close>s of every phase.\<close>

definition skip_status :: "'w descriptor \<Rightarrow> 'w patch_context \<Rightarrow> string option" where
  "skip_status d c =
     (if \<not> descriptorAppliesTo d c then Some PATCH_STATUS_SKIPPED_TARGET
      else if \<not> descriptorEnabled d c then Some PATCH_STATUS_SKIPPED_DISABLED
      else None)"

definition set_report_warnings :: "string list option \<Rightarrow> 'w run_state \<Rightarrow> 'w run_state" where
  "set_report_warnings ws s = s\<lparr>ctx := (ctx s)\<lparr>reportWarnings := ws\<rparr>\<rparr>"

definition first_warning :: "string list \<Rightarrow> string option" where
  "first_warning ws = (case ws of [] \<Rightarrow> None | w # _ \<Rightarrow> Some w)"

definition error_warning :: "'w descriptor \<Rightarrow> thrown option \<Rightarrow> string list" where
  "error_warning d err = (case err of None \<Rightarrow> [] | Some e \<Rightarrow> [''WARN: '' @ describePatchError d e])"

text \<open>\<open>descriptor.apply(value, context)\<close>; calling what is not a function throws a \<open>TypeError\<close>.\<close>

definition apply_task :: "'w descriptor \<Rightarrow> pvalue \<Rightarrow> ('w, pvalue) task" where
  "apply_task d v =
     (case d_apply d of Fun f \<Rightarrow> call_apply f v
      | _ \<Rightarrow> tthrow (Error ''descriptor.apply is not a function''))"

fun tfold :: "('a \<Rightarrow> 'b \<Rightarrow> ('w, 'b) task) \<Rightarrow> 'a list \<Rightarrow> 'b \<Rightarrow> ('w, 'b) task" where
  "tfold f [] b = tpure b"
| "tfold f (x # xs) b = tbind (f x b) (\<lambda>b'. tfold f xs b')"

section \<open>The main bundle\<close>

record main_result =
  patchedSource :: pvalue
  warnings :: "string list"
  coreWarnings :: "string list"
  requiredCoreWarnings :: "string list"

definition core_kind :: "'w descriptor \<Rightarrow> bool" where
  "core_kind d = (or_text (d_sourceKind d) ''core'' = Some (MStr ''core''))"

definition required_core :: "'w descriptor \<Rightarrow> bool" where
  "required_core d = (core_kind d \<and> d_ciPolicy d = Some (MStr ''required-official-dmg''))"

definition note_warnings :: "'w descriptor \<Rightarrow> pvalue \<Rightarrow> string list \<Rightarrow> main_result \<Rightarrow> main_result" where
  "note_warnings d v ws acc =
     \<lparr>patchedSource = v, warnings = warnings acc @ ws,
      coreWarnings = coreWarnings acc @ (if core_kind d then ws else []),
      requiredCoreWarnings = requiredCoreWarnings acc @ (if required_core d then ws else [])\<rparr>"

definition main_step :: "'w descriptor \<Rightarrow> main_result \<Rightarrow> ('w, main_result) task" where
  "main_step d acc s =
     (case skip_status d (ctx s) of
        Some st \<Rightarrow> (Inr acc, recordDescriptorPatch d st None [] s)
      | None \<Rightarrow>
          (let before = patchedSource acc in
           case runDescriptorApply (apply_task d before) before s of
             (Inl e, s1) \<Rightarrow> (Inl e, s1)
           | (Inr r, s1) \<Rightarrow>
               (let ws = r_warnings r @ error_warning d (r_error r);
                    s2 = set_report_warnings (Some ws) s1;
                    s3 = (case r_error r of
                            Some e \<Rightarrow> recordDescriptorError d e (r_strategies r) s2
                          | None \<Rightarrow> recordDescriptorPatch d
                                      (patchStatusFromDescriptorChange d (r_value r \<noteq> before) ws)
                                      (first_warning ws) (strategyMetadata (r_strategies r)) s2)
                in (Inr (note_warnings d (r_value r) ws acc), set_report_warnings None s3))))"

definition applyMainBundlePatchDescriptors ::
  "pvalue \<Rightarrow> 'w descriptor list \<Rightarrow> ('w, main_result) task" where
  "applyMainBundlePatchDescriptors src ds =
     tfold main_step (filter (\<lambda>d. d_phase d = Some PHASE_MAIN_BUNDLE) ds)
       \<lparr>patchedSource = src, warnings = [], coreWarnings = [], requiredCoreWarnings = []\<rparr>"

section \<open>Webview assets\<close>

text \<open>The dash of the warnings, in UTF-8.\<close>

definition em_dash :: string where
  "em_dash = [CHR 0xE2, CHR 0x80, CHR 0x94]"

definition text_or :: "string option \<Rightarrow> string \<Rightarrow> string" where
  "text_or a b = (case a of None \<Rightarrow> b | Some t \<Rightarrow> t)"

definition defaultWebviewMissingWarning :: "'w descriptor \<Rightarrow> string" where
  "defaultWebviewMissingWarning d =
     ''WARN: Could not find '' @ text_or (d_missingDescription d) ''webview asset bundle'' @
     '' in webview/assets '' @ em_dash @ '' skipping '' @ text_or (d_skipDescription d) (id_text d)"

definition defaultWebviewAmbiguousWarning :: "'w descriptor \<Rightarrow> string" where
  "defaultWebviewAmbiguousWarning d =
     ''WARN: Found multiple '' @ text_or (d_missingDescription d) ''webview asset bundle'' @
     '' contracts in webview/assets '' @ em_dash @ '' skipping '' @ text_or (d_skipDescription d) (id_text d)"

definition assetPatchMetadata :: "patch_result \<Rightarrow> (string \<times> string) list \<Rightarrow> (string, mval) jsmap" where
  "assetPatchMetadata r strategies =
     opt_field ''assetName'' (map_option MStr (result_assetName r)) @ strategyMetadata strategies"

definition recordAssetDescriptorPatch ::
  "'w descriptor \<Rightarrow> patch_result \<Rightarrow> string list \<Rightarrow> (string \<times> string) list \<Rightarrow> 'w run_state \<Rightarrow> 'w run_state" where
  "recordAssetDescriptorPatch d r ws strategies s =
     (if matched r = 0
      then recordDescriptorPatch d (descriptorFailureStatus d)
             (Some (case first_warning ws of None \<Rightarrow> ''no matching bundle found'' | Some w \<Rightarrow> w))
             (assetPatchMetadata r strategies) s
      else recordDescriptorPatch d (patchStatusFromDescriptorChange d (changed r > 0) ws)
             (first_warning ws) (assetPatchMetadata r strategies) s)"

definition asset_pattern :: "'w descriptor \<Rightarrow> (string \<Rightarrow> bool) option" where
  "asset_pattern d = (case d_assetPattern d of None \<Rightarrow> d_pattern d | r \<Rightarrow> r)"

definition webview_task :: "'w capability \<Rightarrow> 'w descriptor \<Rightarrow> (string \<Rightarrow> bool) \<Rightarrow> ('w, patch_result) task" where
  "webview_task cap d pattern =
     (let missing = text_or (d_missingWarning d) (defaultWebviewMissingWarning d);
          ambiguous = text_or (d_ambiguousWarning d) (defaultWebviewAmbiguousWarning d);
          patch = (\<lambda>text. apply_task d (Text text))
      in case d_assetMatch d of
           Fun m \<Rightarrow> patchUniqueAssetFileWithCapability cap pattern
                       (\<lambda>text name s. (Inr (m text name (ctx s)), s)) patch missing ambiguous
         | Missing \<Rightarrow> patchAssetFilesWithCapability cap pattern patch missing
         | NotFunction \<Rightarrow> patchUniqueAssetFileWithCapability cap pattern
                       (\<lambda>text name. tthrow (Error ''descriptor.assetMatch is not a function''))
                       patch missing ambiguous)"

definition webview_step :: "'w capability \<Rightarrow> 'w descriptor \<Rightarrow> unit \<Rightarrow> ('w, unit) task" where
  "webview_step cap d u s =
     (case skip_status d (ctx s) of
        Some st \<Rightarrow> (Inr (), recordDescriptorPatch d st None [] s)
      | None \<Rightarrow>
          (case asset_pattern d of
             None \<Rightarrow> (Inl (Error (''Webview asset patch '' @ [CHR 39] @ id_text d @ [CHR 39] @
                                  '' must define assetPattern or pattern'')), s)
           | Some pattern \<Rightarrow>
               (case runDescriptorApplyAsync (webview_task cap d pattern)
                       \<lparr>matched = 0, changed = 0, result_assetName = None\<rparr> s of
                  (Inl e, s1) \<Rightarrow> (Inl e, s1)
                | (Inr r, s1) \<Rightarrow>
                    (let ws = r_warnings r @ error_warning d (r_error r);
                         s2 = set_report_warnings (Some ws) s1;
                         s3 = (case r_error r of
                                 Some e \<Rightarrow> recordDescriptorError d e (r_strategies r) s2
                               | None \<Rightarrow> recordAssetDescriptorPatch d (r_value r) ws (r_strategies r) s2)
                     in (Inr (), set_report_warnings None s3)))))"

definition applyWebviewAssetPatchDescriptors ::
  "'w capability option \<Rightarrow> 'w descriptor list \<Rightarrow> ('w, unit) task" where
  "applyWebviewAssetPatchDescriptors capability ds =
     (case capability of
        None \<Rightarrow> tthrow (Integrity ''generated-app mutation capability is unavailable''
                        ''capability-unavailable'' ''webview'')
      | Some cap \<Rightarrow> tfold (webview_step cap) (filter (\<lambda>d. d_phase d = Some PHASE_WEBVIEW_ASSET) ds) ())"

section \<open>The extracted app\<close>

fun truthy :: "mval \<Rightarrow> bool" where
  "truthy MNull = False"
| "truthy (MBool b) = b"
| "truthy (MNum i) = (i \<noteq> 0)"
| "truthy (MStr s) = (s \<noteq> [])"
| "truthy (MStrs ss) = True"
| "truthy (MPairs ps) = True"

text \<open>\<open>result?.key\<close>, \<open>null\<close> and \<open>undefined\<close> alike.\<close>

fun result_field :: "pvalue \<Rightarrow> string \<Rightarrow> mval option" where
  "result_field (Info m) k = nullish (map_get m k)"
| "result_field _ k = None"

definition extracted_status :: "'w descriptor \<Rightarrow> pvalue \<Rightarrow> string list \<Rightarrow> 'w patch_context \<Rightarrow> status_result" where
  "extracted_status d v ws c =
     (case d_status d of
        Some f \<Rightarrow> f v ws c
      | None \<Rightarrow>
          (case result_field v ''changed'' of
             Some b \<Rightarrow> Plain_Status (patchStatusFromChange (truthy b) ws (nullish (d_ciPolicy d)))
           | None \<Rightarrow> Plain_Status PATCH_STATUS_APPLIED))"

definition extracted_step :: "string \<Rightarrow> 'w descriptor \<Rightarrow> unit \<Rightarrow> ('w, unit) task" where
  "extracted_step extractedDir d u s =
     (case skip_status d (ctx s) of
        Some st \<Rightarrow> (Inr (), recordDescriptorPatch d st None [] s)
      | None \<Rightarrow>
          (case runDescriptorApply (apply_task d (Text extractedDir)) Undefined s of
             (Inl e, s1) \<Rightarrow> (Inl e, s1)
           | (Inr r, s1) \<Rightarrow>
               (let ws = r_warnings r @ error_warning d (r_error r);
                    s2 = set_report_warnings (Some ws) s1
                in case r_error r of
                     Some e \<Rightarrow> (Inr (), set_report_warnings None (recordDescriptorError d e (r_strategies r) s2))
                   | None \<Rightarrow>
                       (case extracted_status d (r_value r) ws (ctx s2) of
                          Status_Reason st reason \<Rightarrow>
                            (Inr (), set_report_warnings None
                               (recordDescriptorPatch d st reason (strategyMetadata (r_strategies r)) s2))
                        | Plain_Status st \<Rightarrow>
                            (let reason = (case result_field (r_value r) ''reason'' of
                                             Some v \<Rightarrow> Some (mval_str v) | None \<Rightarrow> first_warning ws)
                             in (Inr (), set_report_warnings None
                                  (recordDescriptorPatch d st reason (strategyMetadata (r_strategies r)) s2)))))))"

definition applyExtractedAppPatchDescriptors ::
  "string \<Rightarrow> 'w descriptor list \<Rightarrow> mval \<Rightarrow> ('w, unit) task" where
  "applyExtractedAppPatchDescriptors extractedDir ds phase =
     (if phase \<noteq> PHASE_EXTRACTED_APP_PRE_WEBVIEW \<and> phase \<noteq> PHASE_EXTRACTED_APP_POST_WEBVIEW
      then tthrow (Error (''Unsupported extracted-app patch phase '' @ [CHR 39] @ mval_str phase @ [CHR 39]))
      else tfold (extracted_step extractedDir) (filter (\<lambda>d. d_phase d = Some phase) ds) ())"

section \<open>What an entry says\<close>

definition appended :: "entry \<Rightarrow> 'w run_state \<Rightarrow> 'w run_state \<Rightarrow> bool" where
  "appended e s t \<longleftrightarrow>
     rep t = map_option (\<lambda>r. r\<lparr>patches := patches r @ [e]\<rparr>) (rep s)"

definition entry_for :: "'w descriptor \<Rightarrow> entry \<Rightarrow> bool" where
  "entry_for d e \<longleftrightarrow> entry_name e = id_text d \<and> (critical_entry e \<longleftrightarrow> critical d) \<and>
     \<not> (critical d \<and> entry_status e = PATCH_STATUS_SKIPPED_OPTIONAL)"

lemma map_of_rev_append_last:
  "map_of (rev (xs @ ys)) k = (case map_of (rev ys) k of Some v \<Rightarrow> Some v | None \<Rightarrow> map_of (rev xs) k)"
  by (simp add: map_add_def)

definition no_policy :: "(string, mval) jsmap \<Rightarrow> bool" where
  "no_policy m \<longleftrightarrow> ''ciPolicy'' \<notin> fst ` set m"

lemma no_policy_simps [simp]:
  "no_policy []" "no_policy (a @ b) \<longleftrightarrow> no_policy a \<and> no_policy b"
  "no_policy ((k, v) # m) \<longleftrightarrow> k \<noteq> ''ciPolicy'' \<and> no_policy m"
  by (auto simp: no_policy_def)

lemma no_policy_parts:
  "no_policy (opt_field k v) \<longleftrightarrow> k \<noteq> ''ciPolicy'' \<or> v = None"
  "no_policy (strategyMetadata ss)" "no_policy (warnings_metadata c)" "no_policy (assetPatchMetadata r ss)"
  by (auto simp: opt_field_def strategyMetadata_def warnings_metadata_def assetPatchMetadata_def
      split: option.splits list.splits)

lemma no_policy_map_of: "no_policy m \<Longrightarrow> map_of (rev m) ''ciPolicy'' = None"
  by (simp add: no_policy_def map_of_eq_None_iff)

lemma descriptor_metadata_policy:
  assumes "no_policy extra"
  shows "map_of (rev (descriptor_metadata d extra c)) ''ciPolicy'' = or_text (d_ciPolicy d) ''optional''"
proof -
  let ?before = "opt_field ''phase'' (d_phase d) @ [(''targetSummary'', MStr (patchTargetSummary d c))]"
  let ?after = "opt_field ''sourceKind'' (or_text (d_sourceKind d) ''core'') @
     opt_field ''integrationId'' (nullish (d_integrationId d)) @
     opt_field ''featureId'' (nullish (d_featureId d)) @ extra @ warnings_metadata c"
  have m: "descriptor_metadata d extra c = ?before @ opt_field ''ciPolicy'' (or_text (d_ciPolicy d) ''optional'') @ ?after"
    by (simp add: descriptor_metadata_def)
  have after: "map_of (rev ?after) ''ciPolicy'' = None"
    by (rule no_policy_map_of) (simp add: assms no_policy_parts)
  obtain v where v: "or_text (d_ciPolicy d) ''optional'' = Some v"
    using or_text_not_None [of "d_ciPolicy d" "''optional''"] by auto
  have pol: "map_of (rev (opt_field ''ciPolicy'' (Some v))) ''ciPolicy'' = Some v"
    by (simp add: opt_field_def)
  show ?thesis
    by (simp only: m v map_of_rev_append_last [of ?before] map_of_rev_append_last [of _ ?after]
        after pol option.case)
qed

lemma critical_policy_text: "isCriticalPolicy (or_text (d_ciPolicy d) ''optional'') \<longleftrightarrow> critical d"
  by (auto simp: critical_def or_text_def nullish_def isCriticalPolicy_def split: option.splits mval.splits)

lemma recordDescriptorPatch_entry:
  assumes "no_policy extra"
  shows "\<exists>e. appended e s (recordDescriptorPatch d status reason extra s) \<and> entry_for d e \<and>
    entry_status e = normalizeDescriptorStatus d status"
proof -
  let ?e = "make_entry (id_text d) (normalizeDescriptorStatus d status) reason
    (Some (descriptor_metadata d extra (ctx s)))"
  have "field ?e ''ciPolicy'' = or_text (d_ciPolicy d) ''optional''"
    by (simp add: field_make_entry reserved_key_def descriptor_metadata_policy [OF assms] nullish_or_text)
  then have "critical_entry ?e \<longleftrightarrow> critical d"
    by (simp add: critical_entry_def critical_policy_text)
  moreover have "appended ?e s (recordDescriptorPatch d status reason extra s)"
    by (simp add: appended_def recordDescriptorPatch_def recordPatch_def)
  ultimately show ?thesis
    by (intro exI [of _ ?e])
      (auto simp: entry_for_def make_entry_def normalizeDescriptorStatus_def split: if_splits)
qed

lemma appended_set_warnings [simp]:
  "appended e (set_report_warnings ws s) t \<longleftrightarrow> appended e s t"
  "appended e s (set_report_warnings ws t) \<longleftrightarrow> appended e s t"
  by (simp_all add: appended_def set_report_warnings_def)

lemma appended_same_report: "rep s1 = rep s \<Longrightarrow> appended e s1 t \<longleftrightarrow> appended e s t"
  by (simp add: appended_def)

lemma recordDescriptorError_entry:
  "\<exists>e. appended e s (recordDescriptorError d err ss s) \<and> entry_for d e \<and>
    entry_status e = descriptorFailureStatus d"
  using recordDescriptorPatch_entry [of "(''error'', MBool True) # strategyMetadata ss" s d "descriptorFailureStatus d"]
  by (auto simp: recordDescriptorError_def no_policy_parts normalizeDescriptorStatus_def descriptorFailureStatus_def)

lemma quiet_apply_task: "quiet.framed (apply_task d v)"
  by (auto simp: apply_task_def intro: quiet_intros split: slot.split)

lemma run_keeps_report:
  "quiet.framed m \<Longrightarrow> runDescriptorApply m v s = (r, t) \<Longrightarrow> rep t = rep s"
  using quiet.framed_result [OF runDescriptorApply_quiet, of m v s r t] by (simp add: only_adds_def)

lemma run_async_keeps_report:
  "quiet.framed m \<Longrightarrow> runDescriptorApplyAsync m v s = (r, t) \<Longrightarrow> rep t = rep s"
  using run_keeps_report [of m v s]
  by (auto simp: runDescriptorApplyAsync_def drainStrategies_def split: prod.splits sum.splits)

lemma run_async_Inr:
  "runDescriptorApplyAsync m v s = (Inr r, t) \<longleftrightarrow> runDescriptorApply m v s = (Inr r, t)"
  by (auto simp: runDescriptorApplyAsync_def split: prod.splits sum.splits)

lemma quiet_webview_task: "quiet.framed (webview_task cap d p)"
proof -
  have m: "quiet.framed (\<lambda>s. (Inr (f x y (ctx s)), s))" for f :: "string \<Rightarrow> string \<Rightarrow> 'a patch_context \<Rightarrow> bool" and x y
    by (simp add: quiet.framed_def quiet.R_refl)
  show ?thesis
    by (auto simp: webview_task_def Let_def
        intro!: quiet_patchUnique quiet_patchAssetFiles quiet_apply_task m quiet.framed_throw split: slot.split)
qed

section \<open>The contract of a phase\<close>

text \<open>
  What the runner relies on in each of the three kinds of phases: a step that returns has
  appended one entry about its descriptor, a step that throws has appended none, and the warnings
  of a step are gone from the context after it.
\<close>

definition recorded :: "'w descriptor list \<Rightarrow> 'w run_state \<Rightarrow> 'w run_state \<Rightarrow> bool" where
  "recorded ds s t \<longleftrightarrow>
     (\<exists>es. list_all2 entry_for ds es \<and> rep t = map_option (\<lambda>r. r\<lparr>patches := patches r @ es\<rparr>) (rep s))"

lemma recorded_Nil: "rep t = rep s \<Longrightarrow> recorded [] s t"
  by (cases "rep s") (auto simp: recorded_def)

lemma recorded_Cons:
  assumes "appended e s s1" and "entry_for d e" and "recorded ds s1 t"
  shows "recorded (d # ds) s t"
proof -
  obtain es where "list_all2 entry_for ds es" "rep t = map_option (\<lambda>r. r\<lparr>patches := patches r @ es\<rparr>) (rep s1)"
    using assms(3) by (auto simp: recorded_def)
  then show ?thesis
    using assms(1,2) unfolding recorded_def appended_def
    by (intro exI [of _ "e # es"]) (auto simp: option.map_comp comp_def)
qed

locale phase_runner =
  fixes step :: "'w descriptor \<Rightarrow> 'b \<Rightarrow> ('w, 'b) task"
  assumes step_records: "step d b s = (Inr b', t) \<Longrightarrow> \<exists>e. appended e s t \<and> entry_for d e"
    and step_stops: "step d b s = (Inl err, t) \<Longrightarrow> rep t = rep s"
    and step_clears: "step d b s = (Inr b', t) \<Longrightarrow> reportWarnings (ctx s) = None \<Longrightarrow>
      reportWarnings (ctx t) = None"
begin

lemma fold_records: "tfold step ds b s = (Inr b', t) \<Longrightarrow> recorded ds s t"
proof (induction ds arbitrary: b s)
  case Nil
  then show ?case by (simp add: res_simps recorded_Nil)
next
  case (Cons d ds)
  then obtain b1 s1 where "step d b s = (Inr b1, s1)" and rest: "tfold step ds b1 s1 = (Inr b', t)"
    by (auto simp: res_simps)
  with step_records obtain e where "appended e s s1" "entry_for d e" by blast
  then show ?case using Cons.IH [OF rest] by (rule recorded_Cons)
qed

lemma fold_stops:
  "tfold step ds b s = (Inl err, t) \<Longrightarrow> \<exists>before d after. ds = before @ d # after \<and> recorded before s t"
proof (induction ds arbitrary: b s)
  case Nil
  then show ?case by (simp add: res_simps)
next
  case (Cons d ds)
  show ?case
  proof (cases "step d b s")
    case (Pair r s1)
    show ?thesis
    proof (cases r)
      case (Inl e)
      with Pair Cons.prems have "step d b s = (Inl err, t)" by (simp add: tbind_def)
      then have "recorded [] s t" using step_stops recorded_Nil by blast
      then show ?thesis by (intro exI [of _ "[]"]) auto
    next
      case (Inr b1)
      with Pair have st: "step d b s = (Inr b1, s1)" by simp
      with Cons.prems have "tfold step ds b1 s1 = (Inl err, t)" by (simp add: tbind_def)
      with Cons.IH obtain before d' after where "ds = before @ d' # after" "recorded before s1 t" by blast
      moreover obtain e where "appended e s s1" "entry_for d e" using step_records [OF st] by blast
      ultimately show ?thesis by (intro exI [of _ "d # before"]) (auto intro: recorded_Cons)
    qed
  qed
qed

lemma fold_clears:
  "tfold step ds b s = (Inr b', t) \<Longrightarrow> reportWarnings (ctx s) = None \<Longrightarrow> reportWarnings (ctx t) = None"
proof (induction ds arbitrary: b s)
  case (Cons d ds)
  then obtain b1 s1 where "step d b s = (Inr b1, s1)" "tfold step ds b1 s1 = (Inr b', t)"
    by (auto simp: res_simps)
  with Cons step_clears show ?case by blast
qed (simp add: res_simps)

end

lemma cleared [simp]: "reportWarnings (ctx (set_report_warnings None s)) = None"
  by (simp add: set_report_warnings_def)

lemma rep_set_report_warnings [simp]: "rep (set_report_warnings ws s) = rep s"
  by (simp add: set_report_warnings_def)

lemma ctx_recordDescriptorPatch [simp]: "ctx (recordDescriptorPatch d st r x s) = ctx s"
  by (simp add: recordDescriptorPatch_def)

text \<open>A main-bundle step, with the entry it leaves.\<close>

lemma main_step_entry:
  assumes "main_step d acc s = (Inr acc', t)"
  shows "\<exists>e v ws. appended e s t \<and> entry_for d e \<and>
    (skip_status d (ctx s) \<noteq> None \<longrightarrow> acc' = acc \<and> not_applicable_status (entry_status e)) \<and>
    (skip_status d (ctx s) = None \<longrightarrow> acc' = note_warnings d v ws acc \<and>
       \<not> not_applicable_status (entry_status e) \<and> (success_status (entry_status e) \<longleftrightarrow> ws = []))"
proof (cases "skip_status d (ctx s)")
  case (Some st)
  then have "st \<in> {PATCH_STATUS_SKIPPED_TARGET, PATCH_STATUS_SKIPPED_DISABLED}"
    by (auto simp: skip_status_def split: if_splits)
  then show ?thesis
    using assms Some recordDescriptorPatch_entry [of "[]" s d st None]
    by (auto simp: main_step_def normalizeDescriptorStatus_def not_applicable_status_def)
next
  case None
  let ?before = "patchedSource acc"
  obtain r s1 where run: "runDescriptorApply (apply_task d ?before) ?before s = (Inr r, s1)"
    using assms None by (auto simp: main_step_def Let_def split: prod.splits sum.splits)
  have rep1: "rep s1 = rep s" using run_keeps_report [OF quiet_apply_task run] .
  let ?ws = "r_warnings r @ error_warning d (r_error r)"
  let ?s2 = "set_report_warnings (Some ?ws) s1"
  show ?thesis
  proof (cases "r_error r")
    case err: (Some x)
    obtain e where e: "appended e ?s2 (recordDescriptorError d x (r_strategies r) ?s2)" "entry_for d e"
      "entry_status e = descriptorFailureStatus d"
      using recordDescriptorError_entry by blast
    have ws: "?ws \<noteq> []" using err by (simp add: error_warning_def)
    have st: "\<not> not_applicable_status (entry_status e)" "\<not> success_status (entry_status e)"
      using e(3) by (auto simp: descriptorFailureStatus_def not_applicable_status_def success_status_def)
    have "acc' = note_warnings d (r_value r) ?ws acc"
      "t = set_report_warnings None (recordDescriptorError d x (r_strategies r) ?s2)"
      using assms None run err by (auto simp: main_step_def Let_def)
    then show ?thesis using None e ws st rep1
      by (intro exI [of _ e] exI [of _ "r_value r"] exI [of _ ?ws]) (auto simp: appended_def)
  next
    case err: None
    let ?st = "patchStatusFromDescriptorChange d (r_value r \<noteq> ?before) ?ws"
    obtain e where e: "appended e ?s2 (recordDescriptorPatch d ?st (first_warning ?ws) (strategyMetadata (r_strategies r)) ?s2)"
      "entry_for d e" "entry_status e = normalizeDescriptorStatus d ?st"
      using recordDescriptorPatch_entry no_policy_parts(2) by blast
    have st: "\<not> not_applicable_status (entry_status e)" "success_status (entry_status e) \<longleftrightarrow> ?ws = []"
      unfolding e(3) by (auto simp: normalizeDescriptorStatus_def patchStatusFromDescriptorChange_def
          patchStatusFromChange_def not_applicable_status_def success_status_def Let_def)
    have "acc' = note_warnings d (r_value r) ?ws acc"
      "t = set_report_warnings None (recordDescriptorPatch d ?st (first_warning ?ws) (strategyMetadata (r_strategies r)) ?s2)"
      using assms None run err by (auto simp: main_step_def Let_def)
    then show ?thesis using None e st rep1
      by (intro exI [of _ e] exI [of _ "r_value r"] exI [of _ ?ws]) (auto simp: appended_def)
  qed
qed

interpretation main: phase_runner main_step
proof unfold_locales
  fix d :: "'w descriptor" and b b' s t err
  show "main_step d b s = (Inr b', t) \<Longrightarrow> \<exists>e. appended e s t \<and> entry_for d e"
    using main_step_entry by blast
  show "main_step d b s = (Inl err, t) \<Longrightarrow> rep t = rep s"
    using run_keeps_report [OF quiet_apply_task, of d "patchedSource b" "patchedSource b" s "Inl err" t]
    by (auto simp: main_step_def Let_def split: option.splits prod.splits sum.splits)
  show "main_step d b s = (Inr b', t) \<Longrightarrow> reportWarnings (ctx s) = None \<Longrightarrow> reportWarnings (ctx t) = None"
    by (auto simp: main_step_def Let_def split: option.splits prod.splits sum.splits)
qed

lemma record_some_entry:
  "no_policy x \<Longrightarrow> rep s' = rep s \<Longrightarrow>
   \<exists>e. appended e s (recordDescriptorPatch d st r x s') \<and> entry_for d e"
  using recordDescriptorPatch_entry [of x s' d st r] by (auto simp: appended_def)

lemma record_error_entry:
  "rep s' = rep s \<Longrightarrow> \<exists>e. appended e s (recordDescriptorError d err ss s') \<and> entry_for d e"
  using recordDescriptorError_entry [of s' d err ss] by (auto simp: appended_def)

lemma record_asset_entry:
  "rep s' = rep s \<Longrightarrow> \<exists>e. appended e s (recordAssetDescriptorPatch d r ws ss s') \<and> entry_for d e"
  by (simp add: recordAssetDescriptorPatch_def record_some_entry no_policy_parts)

interpretation webview: phase_runner "webview_step (cap :: 'w capability)"
proof unfold_locales
  fix d :: "'w descriptor" and b b' s t err
  show "\<exists>e. appended e s t \<and> entry_for d e" if "webview_step cap d b s = (Inr b', t)"
  proof (cases "skip_status d (ctx s)")
    case Some
    with that show ?thesis by (auto simp: webview_step_def record_some_entry)
  next
    case None
    with that obtain p r s1 where run: "runDescriptorApplyAsync (webview_task cap d p)
        \<lparr>matched = 0, changed = 0, result_assetName = None\<rparr> s = (Inr r, s1)" and p: "asset_pattern d = Some p"
      by (auto simp: webview_step_def Let_def split: option.splits prod.splits sum.splits)
    show ?thesis
      using that None run p run_async_keeps_report [OF quiet_webview_task run]
      by (auto simp: webview_step_def Let_def record_error_entry record_asset_entry split: option.splits)
  qed
  show "webview_step cap d b s = (Inl err, t) \<Longrightarrow> rep t = rep s"
    using run_async_keeps_report [OF quiet_webview_task, where s = s and r = "Inl err" and t = t]
    by (auto simp: webview_step_def Let_def split: option.splits prod.splits sum.splits)
  show "webview_step cap d b s = (Inr b', t) \<Longrightarrow> reportWarnings (ctx s) = None \<Longrightarrow> reportWarnings (ctx t) = None"
    by (auto simp: webview_step_def Let_def split: option.splits prod.splits sum.splits)
qed

interpretation extracted: phase_runner "extracted_step dir"
proof unfold_locales
  fix d :: "'w descriptor" and b b' s t err
  show "\<exists>e. appended e s t \<and> entry_for d e" if "extracted_step dir d b s = (Inr b', t)"
  proof (cases "skip_status d (ctx s)")
    case Some
    with that show ?thesis by (auto simp: extracted_step_def record_some_entry)
  next
    case None
    with that obtain r s1 where run: "runDescriptorApply (apply_task d (Text dir)) Undefined s = (Inr r, s1)"
      by (auto simp: extracted_step_def Let_def split: prod.splits sum.splits)
    show ?thesis
      using that None run run_keeps_report [OF quiet_apply_task run]
      by (auto simp: extracted_step_def Let_def record_error_entry record_some_entry no_policy_parts
          split: option.splits status_result.splits)
  qed
  show "extracted_step dir d b s = (Inl err, t) \<Longrightarrow> rep t = rep s"
    using run_keeps_report [OF quiet_apply_task, where s = s and r = "Inl err" and t = t]
    by (auto simp: extracted_step_def Let_def split: option.splits prod.splits sum.splits status_result.splits)
  show "extracted_step dir d b s = (Inr b', t) \<Longrightarrow> reportWarnings (ctx s) = None \<Longrightarrow> reportWarnings (ctx t) = None"
    by (auto simp: extracted_step_def Let_def split: option.splits prod.splits sum.splits status_result.splits)
qed

section \<open>What a run does to the source\<close>

text \<open>
  The specification of the main-bundle phase, without report, telemetry and console: each
  descriptor that applies and is enabled replaces the source by what its function returns, and a
  function that throws leaves it.
\<close>

definition source_step :: "'w descriptor \<Rightarrow> pvalue \<times> 'w patch_context \<Rightarrow> pvalue \<times> 'w patch_context" where
  "source_step d vc =
     (case vc of (v, c) \<Rightarrow>
        if skip_status d c \<noteq> None then (v, c)
        else (case d_apply d of
                Fun f \<Rightarrow> ((case outcome (f v c) of Inr v' \<Rightarrow> v' | Inl e \<Rightarrow> v),
                          (context_after (f v c))\<lparr>reportWarnings := None\<rparr>)
              | _ \<Rightarrow> (v, c\<lparr>reportWarnings := None\<rparr>)))"

lemma run_apply_effect:
  assumes "runDescriptorApply (apply_task d v) v s = (Inr r, s1)" and "skip_status d (ctx s) = None"
  shows "(r_value r, (ctx s1)\<lparr>reportWarnings := None\<rparr>) = source_step d (v, ctx s)"
  using assms(1,2) runDescriptorApply_cases [of "apply_task d v" v s, OF quiet_apply_task]
  by (cases "d_apply d")
    (auto simp: source_step_def apply_task_def call_apply_def tthrow_def Let_def
      split: sum.splits if_splits)

lemma ctx_recordDescriptorError [simp]: "ctx (recordDescriptorError d e ss s) = ctx s"
  by (simp add: recordDescriptorError_def)

lemma main_step_source:
  assumes "main_step d acc s = (Inr acc', t)"
  shows "(patchedSource acc', ctx t) = source_step d (patchedSource acc, ctx s)"
proof (cases "skip_status d (ctx s)")
  case (Some st)
  with assms show ?thesis by (auto simp: main_step_def source_step_def)
next
  case None
  let ?v = "patchedSource acc"
  obtain r s1 where run: "runDescriptorApply (apply_task d ?v) ?v s = (Inr r, s1)"
    using assms None by (auto simp: main_step_def Let_def split: prod.splits sum.splits)
  then have "patchedSource acc' = r_value r" "ctx t = (ctx s1)\<lparr>reportWarnings := None\<rparr>"
    using assms None
    by (auto simp: main_step_def Let_def note_warnings_def set_report_warnings_def split: option.splits)
  then show ?thesis using run_apply_effect [OF run None] by simp
qed

lemma main_fold_source:
  "tfold main_step ds acc s = (Inr acc', t) \<Longrightarrow>
   (patchedSource acc', ctx t) = fold source_step ds (patchedSource acc, ctx s)"
proof (induction ds arbitrary: acc s)
  case (Cons d ds)
  then obtain a1 s1 where "main_step d acc s = (Inr a1, s1)" "tfold main_step ds a1 s1 = (Inr acc', t)"
    by (auto simp: res_simps)
  with Cons.IH main_step_source [of d acc s a1 s1] show ?case by simp
qed (simp add: res_simps)

section \<open>The gates\<close>

lemma critical_failures_append:
  "criticalFailuresFromReport (Some (r\<lparr>patches := patches r @ [e]\<rparr>)) =
   criticalFailuresFromReport (Some r) @ (if critical_entry e \<and> failing e then [reportEntryFailure e] else [])"
  by (simp add: criticalFailuresFromReport_def report_patches_def)

lemma required_core_critical: "required_core d \<Longrightarrow> critical d"
  by (simp add: required_core_def critical_def isCriticalPolicy_def)

definition gates_agree :: "main_result \<Rightarrow> 'w run_state \<Rightarrow> bool" where
  "gates_agree acc s \<longleftrightarrow>
     rep s \<noteq> None \<and> (requiredCoreWarnings acc = [] \<longleftrightarrow> criticalFailuresFromReport (rep s) = [])"

lemma main_step_gates:
  assumes st: "main_step d acc s = (Inr acc', t)" and agree: "gates_agree acc s"
    and core: "critical d \<Longrightarrow> required_core d"
  shows "gates_agree acc' t"
proof -
  obtain e v ws where e: "appended e s t" "entry_for d e"
    and skip: "skip_status d (ctx s) \<noteq> None \<longrightarrow> acc' = acc \<and> not_applicable_status (entry_status e)"
    and ran: "skip_status d (ctx s) = None \<longrightarrow> acc' = note_warnings d v ws acc \<and>
       \<not> not_applicable_status (entry_status e) \<and> (success_status (entry_status e) \<longleftrightarrow> ws = [])"
    using main_step_entry [OF st] by (elim exE conjE)
  obtain r where r: "rep s = Some r" using agree by (auto simp: gates_agree_def)
  have t: "rep t = Some (r\<lparr>patches := patches r @ [e]\<rparr>)" using e(1) r by (simp add: appended_def)
  have crit: "critical_entry e \<longleftrightarrow> required_core d"
    using e(2) core required_core_critical by (auto simp: entry_for_def)
  show ?thesis
  proof (cases "skip_status d (ctx s)")
    case Some
    with skip agree r show ?thesis by (simp add: gates_agree_def t critical_failures_append failing_def)
  next
    case None
    with ran agree r crit show ?thesis
      by (auto simp: gates_agree_def t critical_failures_append failing_def note_warnings_def)
  qed
qed

lemma main_fold_gates:
  "tfold main_step ds acc s = (Inr acc', t) \<Longrightarrow> gates_agree acc s \<Longrightarrow>
   \<forall>d\<in>set ds. critical d \<longrightarrow> required_core d \<Longrightarrow> gates_agree acc' t"
proof (induction ds arbitrary: acc s)
  case (Cons d ds)
  then obtain a1 s1 where "main_step d acc s = (Inr a1, s1)" "tfold main_step ds a1 s1 = (Inr acc', t)"
    by (auto simp: res_simps)
  with Cons main_step_gates show ?case by (metis list.set_intros)
qed (simp add: res_simps)

lemma main_step_throws: "main_step d acc s = (Inl e, t) \<Longrightarrow> isGeneratedAppIntegrityError e"
  using runDescriptorApply_throws [of "apply_task d (patchedSource acc)" "patchedSource acc" s e t]
  by (auto simp: main_step_def Let_def split: option.splits prod.splits sum.splits)

lemma extracted_step_throws: "extracted_step dir d u s = (Inl e, t) \<Longrightarrow> isGeneratedAppIntegrityError e"
  using runDescriptorApply_throws [of "apply_task d (Text dir)" Undefined s e t]
  by (auto simp: extracted_step_def Let_def split: option.splits prod.splits sum.splits status_result.splits)

lemma tfold_throws:
  "(\<And>d b s e t. step d b s = (Inl e, t) \<Longrightarrow> P e) \<Longrightarrow> tfold step ds b s = (Inl e, t) \<Longrightarrow> P e"
proof (induction ds arbitrary: b s)
  case (Cons d ds)
  then show ?case by (auto simp: tbind_def split: prod.splits sum.splits)
qed (simp add: res_simps)

section \<open>An example run\<close>

text \<open>A critical core descriptor whose function prints some lines and returns or throws.\<close>

definition sample_patch :: "(thrown + pvalue) \<Rightarrow> string list \<Rightarrow> 'w descriptor" where
  "sample_patch out lines = (sample_descriptor ''p'' 1)\<lparr>d_phase := Some PHASE_MAIN_BUNDLE,
     d_ciPolicy := Some (MStr ''required-official-dmg''),
     d_apply := Fun (\<lambda>v c. \<lparr>outcome = out, warned = lines, strategies_noted = [], context_after = c\<rparr>)\<rparr>"

lemmas engine_eval = applyMainBundlePatchDescriptors_def main_step_def sample_patch_def
  sample_descriptor_def skip_status_def descriptorAppliesTo_def descriptorEnabled_def
  runDescriptorApply_def captureWarnings_def contained_def drainStrategies_def apply_task_def
  call_apply_def tpure_def tthrow_def tbind_def Let_def

lemma sample_run:
  "\<exists>res t. applyMainBundlePatchDescriptors (Text ''x'') [sample_patch (Inr (Text ''y'')) []] (sample_state ())
     = (Inr res, t)"
  by (simp add: engine_eval)

lemma sample_stop:
  "\<exists>t. applyMainBundlePatchDescriptors (Text ''x'') [sample_patch (Inl (Integrity ''r'' ''io'' ''read'')) []]
     (sample_state ()) = (Inl (Integrity ''r'' ''io'' ''read''), t)"
  by (simp add: engine_eval)

lemma sample_required: "required_core (sample_patch out lines)"
  by (simp add: sample_patch_def sample_descriptor_def required_core_def core_kind_def or_text_def nullish_def)

section \<open>Properties\<close>

text \<open>C1: a phase that returns has appended exactly one entry for each of its descriptors, in
  their order, with the descriptor's id and criticality, and never a critical one as skipped and
  optional; this holds of the main bundle, the webview assets and the extracted app.\<close>

theorem phases_record_every_descriptor:
  "(applyMainBundlePatchDescriptors src ds s = (Inr res, t) \<longrightarrow>
      recorded (filter (\<lambda>d. d_phase d = Some PHASE_MAIN_BUNDLE) ds) s t) \<and>
   (applyWebviewAssetPatchDescriptors (Some cap) ds s = (Inr u, t) \<longrightarrow>
      recorded (filter (\<lambda>d. d_phase d = Some PHASE_WEBVIEW_ASSET) ds) s t) \<and>
   (applyExtractedAppPatchDescriptors dir ds phase s = (Inr u, t) \<longrightarrow>
      recorded (filter (\<lambda>d. d_phase d = Some phase) ds) s t)"
proof (intro conjI impI)
  assume "applyMainBundlePatchDescriptors src ds s = (Inr res, t)"
  then show "recorded (filter (\<lambda>d. d_phase d = Some PHASE_MAIN_BUNDLE) ds) s t"
    unfolding applyMainBundlePatchDescriptors_def by (rule main.fold_records)
next
  assume "applyWebviewAssetPatchDescriptors (Some cap) ds s = (Inr u, t)"
  then have "tfold (webview_step cap) (filter (\<lambda>d. d_phase d = Some PHASE_WEBVIEW_ASSET) ds) () s = (Inr u, t)"
    by (simp add: applyWebviewAssetPatchDescriptors_def)
  then show "recorded (filter (\<lambda>d. d_phase d = Some PHASE_WEBVIEW_ASSET) ds) s t"
    by (rule webview.fold_records)
next
  assume "applyExtractedAppPatchDescriptors dir ds phase s = (Inr u, t)"
  then have "tfold (extracted_step dir) (filter (\<lambda>d. d_phase d = Some phase) ds) () s = (Inr u, t)"
    by (simp add: applyExtractedAppPatchDescriptors_def tthrow_def split: if_splits)
  then show "recorded (filter (\<lambda>d. d_phase d = Some phase) ds) s t"
    by (rule extracted.fold_records)
qed

theorem phases_record_every_descriptor_witness:
  "\<exists>t. recorded [sample_patch (Inr (Text ''y'')) []] (sample_state ()) t"
proof -
  obtain res t where "applyMainBundlePatchDescriptors (Text ''x'') [sample_patch (Inr (Text ''y'')) []]
      (sample_state ()) = (Inr res, t)"
    using sample_run by blast
  then have "recorded (filter (\<lambda>d. d_phase d = Some PHASE_MAIN_BUNDLE) [sample_patch (Inr (Text ''y'')) []])
      (sample_state ()) t"
    using phases_record_every_descriptor by blast
  then show ?thesis by (auto simp: sample_patch_def)
qed



text \<open>C3: the source the main-bundle phase returns, and the context it leaves, are those of the
  specification: the phase is the fold of the successful patch functions, whatever is reported,
  noted or printed on the way.\<close>

theorem main_bundle_refines_source:
  assumes "applyMainBundlePatchDescriptors src ds s = (Inr res, t)"
  shows "(patchedSource res, ctx t) =
    fold source_step (filter (\<lambda>d. d_phase d = Some PHASE_MAIN_BUNDLE) ds) (src, ctx s)"
  using main_fold_source [OF assms [unfolded applyMainBundlePatchDescriptors_def]] by simp

theorem main_bundle_refines_source_witness:
  "\<exists>res. patchedSource res = Text ''y'' \<and>
     (\<exists>t. applyMainBundlePatchDescriptors (Text ''x'') [sample_patch (Inr (Text ''y'')) []] (sample_state ())
       = (Inr res, t))"
proof -
  obtain res t where run: "applyMainBundlePatchDescriptors (Text ''x'') [sample_patch (Inr (Text ''y'')) []]
      (sample_state ()) = (Inr res, t)"
    using sample_run by blast
  have "patchedSource res = Text ''y''"
    using main_bundle_refines_source [OF run]
    by (simp add: source_step_def sample_patch_def sample_descriptor_def skip_status_def
        descriptorAppliesTo_def descriptorEnabled_def)
  with run show ?thesis by blast
qed



end
