(* ===== verification/Label_Policy.thy ===== *)
theory Label_Policy
  imports Js_Prelude
begin

text \<open>
  \<open>scripts/ci/manage-labels.js\<close>, first part: the label policy and the snapshot files, as they
  are parsed from JSON and checked. A raw record holds each field at the type the check asks for,
  \<open>None\<close> when it is absent or of another type; a check that passes gives the same object at its
  checked types. Error messages are constructors.
\<close>

section \<open>Names\<close>

definition normalizeName :: "string \<Rightarrow> string" where
  "normalizeName v = to_lower v"

definition repository_char :: "char \<Rightarrow> bool" where
  "repository_char c = (is_alnum c \<or> c = CHR ''_'' \<or> c = CHR ''.'' \<or> c = CHR ''-'')"

definition valid_segment :: "string \<Rightarrow> bool" where
  "valid_segment seg =
     (1 \<le> length seg \<and> length seg \<le> 100 \<and> list_all repository_char seg \<and> seg \<noteq> ''.'' \<and> seg \<noteq> ''..'')"

definition validRepository :: "string option \<Rightarrow> bool" where
  "validRepository v =
     (case v of
        None \<Rightarrow> False
      | Some s \<Rightarrow> (let segs = split_char CHR ''/'' s in length segs = 2 \<and> list_all valid_segment segs))"

text \<open>\<open>/[\u0000-\u001f\u007f]/\<close> and \<open>/[\u0000-\u001f\u007f,]/\<close>.\<close>

definition has_control :: "string \<Rightarrow> bool" where
  "has_control s = list_ex is_control s"

definition has_control_or_comma :: "string \<Rightarrow> bool" where
  "has_control_or_comma s = list_ex (\<lambda>c. is_control c \<or> c = CHR '','') s"

definition upper_hex_color :: "string \<Rightarrow> bool" where
  "upper_hex_color s = (length s = 6 \<and> list_all is_upper_hex s)"

definition hex_color :: "string \<Rightarrow> bool" where
  "hex_color s = (length s = 6 \<and> list_all (\<lambda>c. is_upper_hex c \<or> is_lower_hex c) s)"

definition group_id_char :: "char \<Rightarrow> bool" where
  "group_id_char c = (is_lower c \<or> is_digit c \<or> c = CHR ''-'')"

fun valid_group_id :: "string \<Rightarrow> bool" where
  "valid_group_id [] = False"
| "valid_group_id (c # s) = (is_lower c \<and> list_all group_id_char s)"

section \<open>The policy file\<close>

datatype cardinality = Exactly_One | One_Or_More | Zero_Or_One | Zero_Or_More

datatype item_kind = Issue | Pull_Request

fun kind_text :: "item_kind \<Rightarrow> string" where
  "kind_text Issue = ''issue''"
| "kind_text Pull_Request = ''pull_request''"

definition VALID_CARDINALITIES :: "(string, cardinality) jsmap" where
  "VALID_CARDINALITIES = [(''exactly_one'', Exactly_One), (''one_or_more'', One_Or_More),
     (''zero_or_one'', Zero_Or_One), (''zero_or_more'', Zero_Or_More)]"

definition VALID_APPLIES_TO :: "(string, item_kind) jsmap" where
  "VALID_APPLIES_TO = [(''issue'', Issue), (''pull_request'', Pull_Request)]"

record raw_group =
  raw_id :: "string option"
  raw_cardinality :: "string option"
  raw_appliesTo :: "string list option"

record raw_label =
  raw_label_name :: "string option"
  raw_color :: "string option"
  raw_description :: "string option"
  raw_group :: "string option"

record raw_migration =
  raw_from :: "string option"
  raw_to :: "string option"

record raw_retired =
  raw_retired_name :: "string option"
  raw_reason :: "string option"

text \<open>An entry of an array that is no object is \<open>None\<close>.\<close>

record raw_policy =
  schemaVersion :: "int option"
  staffManaged :: bool
  raw_groups :: "raw_group option list option"
  raw_labels :: "raw_label option list option"
  raw_migrations :: "raw_migration option list option"
  raw_retiredLabels :: "raw_retired option list option"

record label_group =
  group_id :: string
  group_cardinality :: cardinality
  appliesTo :: "item_kind list"

record policy_label =
  label_name :: string
  label_color :: string
  label_description :: string
  label_group_id :: string

record migration =
  mig_from :: string
  mig_to :: string

record retired_label =
  retired_name :: string
  retired_reason :: string

record policy =
  groups :: "label_group list"
  labels :: "policy_label list"
  migrations :: "migration list"
  retiredLabels :: "retired_label list"

datatype policy_error =
    Policy_Not_Object | Bad_Schema_Version | Not_Staff_Managed | Not_An_Array string
  | Bad_Group_Id | Duplicate_Group string | Bad_Cardinality string | Bad_Applies_To string
  | Label_Not_Object | Bad_Label_Name | Duplicate_Label string | Bad_Color string
  | Bad_Description string | Unknown_Group string | Group_Has_No_Labels string
  | Bad_Migration | Migration_To_Itself string | Duplicate_Migration string | Migration_Target_Unknown string
  | Bad_Retired | Duplicate_Retired string | Retired_Is_Desired string | Migration_Not_Retired string
  | Bad_Snapshot | Bad_Snapshot_Label | Duplicate_Snapshot_Label string | Unknown_Association string
  | Bad_Association string | Duplicate_Association string string
  | Snapshot_Of_Other_Repository | Labels_Changed | Retired_Label_Changed string

definition no_text :: "string option \<Rightarrow> string" where
  "no_text v = (case v of None \<Rightarrow> [] | Some s \<Rightarrow> s)"

text \<open>One group: its id, whether it repeats, its cardinality and what it applies to.\<close>

definition check_group :: "raw_group option \<Rightarrow> label_group list \<Rightarrow> policy_error + label_group list" where
  "check_group g seen =
     (case g of
        None \<Rightarrow> Inl Bad_Group_Id
      | Some r \<Rightarrow>
          let ident = no_text (raw_id r) in
          if \<not> valid_group_id ident then Inl Bad_Group_Id
          else if ident \<in> set (map group_id seen) then Inl (Duplicate_Group ident)
          else (case Option.bind (raw_cardinality r) (map_get VALID_CARDINALITIES) of
            None \<Rightarrow> Inl (Bad_Cardinality ident)
          | Some crd \<Rightarrow>
              (case raw_appliesTo r of
                 None \<Rightarrow> Inl (Bad_Applies_To ident)
               | Some kinds \<Rightarrow>
                   if kinds = [] \<or> list_ex (\<lambda>k. map_get VALID_APPLIES_TO k = None) kinds \<or> \<not> distinct kinds
                   then Inl (Bad_Applies_To ident)
                   else Inr (seen @ [\<lparr>group_id = ident, group_cardinality = crd,
                                     appliesTo = map (\<lambda>k. the (map_get VALID_APPLIES_TO k)) kinds\<rparr>]))))"

definition bad_label_name :: "string \<Rightarrow> bool" where
  "bad_label_name n = (n \<noteq> trim n \<or> length n = 0 \<or> length n > 50 \<or> has_control_or_comma n)"

definition check_label ::
  "label_group list \<Rightarrow> raw_label option \<Rightarrow> policy_label list \<Rightarrow> policy_error + policy_label list" where
  "check_label gs l seen =
     (case l of
        None \<Rightarrow> Inl Label_Not_Object
      | Some r \<Rightarrow>
          (case raw_label_name r of
             None \<Rightarrow> Inl Bad_Label_Name
           | Some n \<Rightarrow>
               if bad_label_name n then Inl Bad_Label_Name
               else if normalizeName n \<in> set (map (normalizeName \<circ> label_name) seen) then Inl (Duplicate_Label n)
               else if \<not> upper_hex_color (no_text (raw_color r)) then Inl (Bad_Color n)
               else (case raw_description r of
                 None \<Rightarrow> Inl (Bad_Description n)
               | Some desc \<Rightarrow>
                   if length desc = 0 \<or> length desc > 100 \<or> has_control desc then Inl (Bad_Description n)
                   else (case raw_group r of
                     None \<Rightarrow> Inl (Unknown_Group n)
                   | Some g \<Rightarrow>
                       if g \<notin> set (map group_id gs) then Inl (Unknown_Group n)
                       else Inr (seen @ [\<lparr>label_name = n, label_color = no_text (raw_color r),
                                         label_description = desc, label_group_id = g\<rparr>])))))"

definition check_group_used :: "policy_label list \<Rightarrow> label_group \<Rightarrow> unit \<Rightarrow> policy_error + unit" where
  "check_group_used ls g u =
     ensure (list_ex (\<lambda>l. label_group_id l = group_id g) ls) (Group_Has_No_Labels (group_id g))"

definition check_migration ::
  "policy_label list \<Rightarrow> raw_migration option \<Rightarrow> migration list \<Rightarrow> policy_error + migration list" where
  "check_migration ls m seen =
     (case m of
        None \<Rightarrow> Inl Bad_Migration
      | Some r \<Rightarrow>
          (case (raw_from r, raw_to r) of
             (Some f, Some t) \<Rightarrow>
               if length f = 0 \<or> length f > 50 \<or> has_control_or_comma f then Inl Bad_Migration
               else if normalizeName f = normalizeName t then Inl (Migration_To_Itself f)
               else if normalizeName f \<in> set (map (normalizeName \<circ> mig_from) seen) then Inl (Duplicate_Migration f)
               else if normalizeName t \<notin> set (map (normalizeName \<circ> label_name) ls)
               then Inl (Migration_Target_Unknown t)
               else Inr (seen @ [\<lparr>mig_from = f, mig_to = t\<rparr>])
           | _ \<Rightarrow> Inl Bad_Migration))"

definition check_retired ::
  "policy_label list \<Rightarrow> raw_retired option \<Rightarrow> retired_label list \<Rightarrow> policy_error + retired_label list" where
  "check_retired ls x seen =
     (case x of
        None \<Rightarrow> Inl Bad_Retired
      | Some r \<Rightarrow>
          (case (raw_retired_name r, raw_reason r) of
             (Some n, Some why) \<Rightarrow>
               if length n = 0 \<or> length n > 50 \<or> has_control_or_comma n \<or> length why = 0 \<or> length why > 200
               then Inl Bad_Retired
               else if normalizeName n \<in> set (map (normalizeName \<circ> retired_name) seen) then Inl (Duplicate_Retired n)
               else if normalizeName n \<in> set (map (normalizeName \<circ> label_name) ls) then Inl (Retired_Is_Desired n)
               else Inr (seen @ [\<lparr>retired_name = n, retired_reason = why\<rparr>])
           | _ \<Rightarrow> Inl Bad_Retired))"

definition check_migration_retired :: "retired_label list \<Rightarrow> migration \<Rightarrow> unit \<Rightarrow> policy_error + unit" where
  "check_migration_retired rs m u =
     ensure (normalizeName (mig_from m) \<in> set (map (normalizeName \<circ> retired_name) rs))
       (Migration_Not_Retired (mig_from m))"

definition array_of :: "string \<Rightarrow> 'a list option \<Rightarrow> policy_error + 'a list" where
  "array_of key v = (case v of None \<Rightarrow> Inl (Not_An_Array key) | Some xs \<Rightarrow> Inr xs)"

definition validatePolicy :: "raw_policy option \<Rightarrow> policy_error + policy" where
  "validatePolicy p =
     (case p of
        None \<Rightarrow> Inl Policy_Not_Object
      | Some r \<Rightarrow>
          if schemaVersion r \<noteq> Some 1 then Inl Bad_Schema_Version
          else if \<not> staffManaged r then Inl Not_Staff_Managed
          else ebind (array_of ''groups'' (raw_groups r)) (\<lambda>rgs.
               ebind (array_of ''labels'' (raw_labels r)) (\<lambda>rls.
               ebind (array_of ''migrations'' (raw_migrations r)) (\<lambda>rms.
               ebind (array_of ''retiredLabels'' (raw_retiredLabels r)) (\<lambda>rrs.
               ebind (efold check_group rgs []) (\<lambda>gs.
               ebind (efold (check_label gs) rls []) (\<lambda>ls.
               ebind (efold (check_group_used ls) gs ()) (\<lambda>u1.
               ebind (efold (check_migration ls) rms []) (\<lambda>ms.
               ebind (efold (check_retired ls) rrs []) (\<lambda>rs.
               ebind (efold (check_migration_retired rs) ms ()) (\<lambda>u2.
                 Inr \<lparr>groups = gs, labels = ls, migrations = ms, retiredLabels = rs\<rparr>)))))))))))"

section \<open>Labels of a repository, and snapshots of them\<close>

record repo_label =
  name :: string
  color :: string
  description :: string

datatype item_state = Open | Closed

fun state_text :: "item_state \<Rightarrow> string" where
  "state_text Open = ''open''"
| "state_text Closed = ''closed''"

record item =
  kind :: item_kind
  item_number :: int
  item_state :: item_state
  url :: string

definition itemKey :: "item \<Rightarrow> string" where
  "itemKey i = kind_text (kind i) @ '':'' @ int_str (item_number i)"

record label_state =
  state_labels :: "repo_label list"
  associations :: "(string, item list) jsmap"

record raw_item =
  raw_kind :: "string option"
  raw_number :: "int option"
  raw_state :: "string option"
  raw_url :: "string option"

record raw_repo_label =
  raw_name :: "string option"
  raw_repo_color :: "string option"
  raw_repo_description :: "string option"

record raw_snapshot =
  snapshotVersion :: "int option"
  raw_repository :: "string option"
  raw_state_labels :: "raw_repo_label option list option"
  raw_associations :: "(string \<times> raw_item option list option) list option"

record snapshot =
  repository :: string
  snapshot_state :: label_state

definition MAX_SAFE_INTEGER :: int where
  "MAX_SAFE_INTEGER = 9007199254740991"

definition item_url :: "string \<Rightarrow> item_kind \<Rightarrow> int \<Rightarrow> string" where
  "item_url repo k n =
     ''https://github.com/'' @ repo @ ''/'' @ (case k of Pull_Request \<Rightarrow> ''pull'' | Issue \<Rightarrow> ''issues'') @
     ''/'' @ int_str n"

definition parse_item :: "string \<Rightarrow> raw_item option \<Rightarrow> item option" where
  "parse_item repo x =
     (case x of
        None \<Rightarrow> None
      | Some r \<Rightarrow>
          (case (Option.bind (raw_kind r) (map_get VALID_APPLIES_TO), raw_number r, raw_state r) of
             (Some k, Some n, Some st) \<Rightarrow>
               if n < 1 \<or> n > MAX_SAFE_INTEGER \<or> st \<notin> {''open'', ''closed''} \<or>
                  raw_url r \<noteq> Some (item_url repo k n)
               then None
               else Some \<lparr>kind = k, item_number = n,
                          item_state = (if st = ''open'' then Open else Closed), url = item_url repo k n\<rparr>
           | _ \<Rightarrow> None))"

definition check_snapshot_label :: "raw_repo_label option \<Rightarrow> repo_label list \<Rightarrow> policy_error + repo_label list" where
  "check_snapshot_label x seen =
     (case x of
        None \<Rightarrow> Inl Bad_Snapshot_Label
      | Some r \<Rightarrow>
          (case (raw_name r, raw_repo_description r) of
             (Some n, Some desc) \<Rightarrow>
               if length n = 0 \<or> length n > 50 \<or> has_control n \<or> \<not> hex_color (no_text (raw_repo_color r)) \<or>
                  length desc > 100 \<or> has_control desc
               then Inl Bad_Snapshot_Label
               else if normalizeName n \<in> set (map (normalizeName \<circ> name) seen)
               then Inl (Duplicate_Snapshot_Label n)
               else Inr (seen @ [\<lparr>name = n, color = no_text (raw_repo_color r), description = desc\<rparr>])
           | _ \<Rightarrow> Inl Bad_Snapshot_Label))"

definition check_item :: "string \<Rightarrow> string \<Rightarrow> raw_item option \<Rightarrow> item list \<Rightarrow> policy_error + item list" where
  "check_item repo label x seen =
     (case parse_item repo x of
        None \<Rightarrow> Inl (Bad_Association label)
      | Some i \<Rightarrow>
          if itemKey i \<in> set (map itemKey seen) then Inl (Duplicate_Association (itemKey i) label)
          else Inr (seen @ [i]))"

definition check_association ::
  "string \<Rightarrow> repo_label list \<Rightarrow> string \<times> raw_item option list option \<Rightarrow> (string, item list) jsmap
     \<Rightarrow> policy_error + (string, item list) jsmap" where
  "check_association repo ls x acc =
     (case x of (n, items) \<Rightarrow>
        if normalizeName n \<notin> set (map (normalizeName \<circ> name) ls) then Inl (Unknown_Association n)
        else (case items of
                None \<Rightarrow> Inl (Unknown_Association n)
              | Some raws \<Rightarrow> ebind (efold (check_item repo n) raws []) (\<lambda>is. Inr (acc @ [(n, is)]))))"

definition validateSnapshot :: "raw_snapshot option \<Rightarrow> policy_error + snapshot" where
  "validateSnapshot x =
     (case x of
        None \<Rightarrow> Inl Bad_Snapshot
      | Some r \<Rightarrow>
          (case (raw_state_labels r, raw_associations r) of
             (Some rls, Some ras) \<Rightarrow>
               if snapshotVersion r \<noteq> Some 1 \<or> \<not> validRepository (raw_repository r) then Inl Bad_Snapshot
               else let repo = no_text (raw_repository r) in
                 ebind (efold check_snapshot_label rls []) (\<lambda>ls.
                 ebind (efold (check_association repo ls) ras []) (\<lambda>assoc.
                   Inr \<lparr>repository = repo, snapshot_state = \<lparr>state_labels = ls, associations = assoc\<rparr>\<rparr>))
           | _ \<Rightarrow> Inl Bad_Snapshot))"

section \<open>Laws\<close>

text \<open>What a checked policy promises to the planners.\<close>

definition label_keys :: "policy \<Rightarrow> string list" where
  "label_keys p = map (normalizeName \<circ> label_name) (labels p)"

definition source_keys :: "policy \<Rightarrow> string list" where
  "source_keys p = map (normalizeName \<circ> mig_from) (migrations p)"

definition retired_keys :: "policy \<Rightarrow> string list" where
  "retired_keys p = map (normalizeName \<circ> retired_name) (retiredLabels p)"

definition well_formed_policy :: "policy \<Rightarrow> bool" where
  "well_formed_policy p \<longleftrightarrow>
     distinct (map group_id (groups p)) \<and> distinct (label_keys p) \<and> distinct (source_keys p) \<and>
     distinct (retired_keys p) \<and>
     set (map label_group_id (labels p)) = set (map group_id (groups p)) \<and>
     (\<forall>l\<in>set (labels p). upper_hex_color (label_color l) \<and> \<not> bad_label_name (label_name l)) \<and>
     (\<forall>m\<in>set (migrations p). normalizeName (mig_to m) \<in> set (label_keys p) \<and>
        normalizeName (mig_from m) \<in> set (retired_keys p)) \<and>
     set (retired_keys p) \<inter> set (label_keys p) = {}"

text \<open>A loop of checks that appends what it has checked and refuses a key it has seen.\<close>

lemma efold_distinct_keys:
  assumes "efold f xs ys = Inr zs" and "distinct (map k ys)" and "\<forall>y\<in>set ys. Q y"
    and "\<And>x seen out. f x seen = Inr out \<Longrightarrow> \<exists>y. out = seen @ [y] \<and> k y \<notin> set (map k seen) \<and> Q y"
  shows "distinct (map k zs) \<and> (\<forall>y\<in>set zs. Q y)"
  using assms(1-3)
proof (induction xs arbitrary: ys)
  case Nil
  then show ?case by simp
next
  case (Cons x xs)
  then obtain out where out: "f x ys = Inr out" "efold f xs out = Inr zs" by (auto split: sum.splits)
  obtain y where "out = ys @ [y]" "k y \<notin> set (map k ys)" "Q y" using assms(4) [OF out(1)] by blast
  with Cons.prems out(2) show ?case by (intro Cons.IH [of out]) auto
qed

lemma efold_unit_ensure:
  "efold (\<lambda>x u. ensure (P x) (e x)) xs () = Inr u \<Longrightarrow> \<forall>x\<in>set xs. P x"
  by (induction xs) (auto simp: ensure_def split: if_splits)

lemma check_group_step:
  "check_group g seen = Inr out \<Longrightarrow>
   \<exists>y. out = seen @ [y] \<and> group_id y \<notin> set (map group_id seen) \<and> True"
  by (auto simp: check_group_def Let_def split: option.splits if_splits)

lemma check_label_step:
  "check_label gs l seen = Inr out \<Longrightarrow>
   \<exists>y. out = seen @ [y] \<and> (normalizeName \<circ> label_name) y \<notin> set (map (normalizeName \<circ> label_name) seen) \<and>
     (label_group_id y \<in> set (map group_id gs) \<and> upper_hex_color (label_color y) \<and> \<not> bad_label_name (label_name y))"
  by (auto simp: check_label_def split: option.splits if_splits)

lemma check_migration_step:
  "check_migration ls m seen = Inr out \<Longrightarrow>
   \<exists>y. out = seen @ [y] \<and> (normalizeName \<circ> mig_from) y \<notin> set (map (normalizeName \<circ> mig_from) seen) \<and>
     normalizeName (mig_to y) \<in> set (map (normalizeName \<circ> label_name) ls)"
  by (auto simp: check_migration_def split: option.splits if_splits)

lemma check_retired_step:
  "check_retired ls x seen = Inr out \<Longrightarrow>
   \<exists>y. out = seen @ [y] \<and> (normalizeName \<circ> retired_name) y \<notin> set (map (normalizeName \<circ> retired_name) seen) \<and>
     normalizeName (retired_name y) \<notin> set (map (normalizeName \<circ> label_name) ls)"
  by (auto simp: check_retired_def split: option.splits if_splits)

lemma validatePolicy_well_formed: "validatePolicy r = Inr p \<Longrightarrow> well_formed_policy p"
proof -
  assume "validatePolicy r = Inr p"
  then obtain rgs rls rms rrs gs ls ms rs where
    gs: "efold check_group rgs [] = Inr gs" and ls: "efold (check_label gs) rls [] = Inr ls" and
    used: "efold (check_group_used ls) gs () = Inr ()" and
    ms: "efold (check_migration ls) rms [] = Inr ms" and rs: "efold (check_retired ls) rrs [] = Inr rs" and
    mr: "efold (check_migration_retired rs) ms () = Inr ()" and
    p: "p = \<lparr>groups = gs, labels = ls, migrations = ms, retiredLabels = rs\<rparr>"
    by (auto simp: validatePolicy_def res_simps split: option.splits if_splits)
  have 1: "distinct (map group_id gs)"
    using efold_distinct_keys [OF gs, of group_id "\<lambda>_. True"] check_group_step by force
  have 2: "distinct (map (normalizeName \<circ> label_name) ls) \<and> (\<forall>l\<in>set ls. label_group_id l \<in> set (map group_id gs) \<and>
      upper_hex_color (label_color l) \<and> \<not> bad_label_name (label_name l))"
    by (rule efold_distinct_keys [OF ls]) (auto dest: check_label_step)
  have 3: "distinct (map (normalizeName \<circ> mig_from) ms) \<and>
      (\<forall>m\<in>set ms. normalizeName (mig_to m) \<in> set (map (normalizeName \<circ> label_name) ls))"
    by (rule efold_distinct_keys [OF ms]) (auto dest: check_migration_step)
  have 4: "distinct (map (normalizeName \<circ> retired_name) rs) \<and>
      (\<forall>x\<in>set rs. normalizeName (retired_name x) \<notin> set (map (normalizeName \<circ> label_name) ls))"
    by (rule efold_distinct_keys [OF rs]) (auto dest: check_retired_step)
  have 5: "\<forall>g\<in>set gs. list_ex (\<lambda>l. label_group_id l = group_id g) ls"
    by (rule efold_unit_ensure [OF used [unfolded check_group_used_def [abs_def]]])
  have 6: "\<forall>m\<in>set ms. normalizeName (mig_from m) \<in> set (map (normalizeName \<circ> retired_name) rs)"
    by (rule efold_unit_ensure [OF mr [unfolded check_migration_retired_def [abs_def]]])
  have "set (map label_group_id ls) = set (map group_id gs)"
    using 2 5 by (auto simp: list_ex_iff) (metis imageI)
  with 1 2 3 4 6 show ?thesis
    by (auto simp: well_formed_policy_def p label_keys_def source_keys_def retired_keys_def)
qed

end
