(* ===== verification/Label_Plan.thy ===== *)
theory Label_Plan
  imports Label_Policy
begin

text \<open>
  \<open>scripts/ci/manage-labels.js\<close>, second part: the plans. Each compares a checked policy with
  the labels and associations read from the repository and lists the operations that would
  converge it. The SHA-256 of a state's JSON text is a parameter (\<open>digest\<close>) applied to the
  state it is taken of.
\<close>

section \<open>Reading a state\<close>

definition currentLabelMap :: "label_state \<Rightarrow> (string, repo_label) jsmap" where
  "currentLabelMap st = map_new (map (\<lambda>e. (normalizeName (name e), e)) (state_labels st))"

definition associationList :: "label_state \<Rightarrow> string \<Rightarrow> item list" where
  "associationList st n =
     (case find (\<lambda>c. normalizeName c = normalizeName n) (map_keys (associations st)) of
        None \<Rightarrow> []
      | Some actual \<Rightarrow> (case map_get (associations st) actual of None \<Rightarrow> [] | Some is \<Rightarrow> is))"

definition desiredLabel :: "policy_label \<Rightarrow> repo_label" where
  "desiredLabel l = \<lparr>name = label_name l, color = label_color l, description = label_description l\<rparr>"

definition stable_label :: "repo_label \<Rightarrow> repo_label" where
  "stable_label e = \<lparr>name = name e, color = to_upper (color e), description = description e\<rparr>"

definition stableState :: "label_state \<Rightarrow> string list \<Rightarrow> repo_label list \<times> (string, item list) jsmap" where
  "stableState st names =
     (let selected = map normalizeName names;
          ls = js_sort (\<lambda>l r. locale_compare (name l) (name r))
                 (map stable_label (filter (\<lambda>e. normalizeName (name e) \<in> set selected) (state_labels st)))
      in (ls, fold (\<lambda>e m. map_set (name e)
                (js_sort (\<lambda>l r. locale_compare (itemKey l) (itemKey r)) (associationList st (name e))) m) ls []))"

definition stateFingerprint ::
  "(repo_label list \<times> (string, item list) jsmap \<Rightarrow> string) \<Rightarrow> label_state \<Rightarrow> string list \<Rightarrow> string" where
  "stateFingerprint digest st names = digest (stableState st names)"

section \<open>Classification\<close>

record finding =
  b_item :: item
  b_label :: string
  b_reason :: string

record classified =
  by_group :: "(string, string list) jsmap"
  c_item :: item

definition attach :: "policy_label \<Rightarrow> item \<Rightarrow> (string, classified) jsmap \<Rightarrow> (string, classified) jsmap" where
  "attach l i m =
     (let k = itemKey i;
          c = (case map_get m k of None \<Rightarrow> \<lparr>by_group = [], c_item = i\<rparr> | Some c \<Rightarrow> c);
          ns = (case map_get (by_group c) (label_group_id l) of None \<Rightarrow> [] | Some ns \<Rightarrow> ns)
      in map_set k (c\<lparr>by_group := map_set (label_group_id l) (uniq (ns @ [label_name l])) (by_group c)\<rparr>) m)"

definition find_label :: "policy \<Rightarrow> string \<Rightarrow> policy_label option" where
  "find_label p n = map_get (map_new (map (\<lambda>l. (normalizeName (label_name l), l)) (labels p))) (normalizeName n)"

definition projected_items :: "policy \<Rightarrow> label_state \<Rightarrow> (string, classified) jsmap" where
  "projected_items p st =
     (let direct = fold (\<lambda>l m. fold (attach l) (associationList st (label_name l)) m) (labels p) []
      in fold (\<lambda>mig m. case find_label p (mig_to mig) of
                 None \<Rightarrow> m
               | Some target \<Rightarrow> fold (attach target) (associationList st (mig_from mig)) m)
           (migrations p) direct)"

definition at_most_one :: "cardinality \<Rightarrow> bool" where
  "at_most_one c = (c = Exactly_One \<or> c = Zero_Or_One)"

definition at_least_one :: "cardinality \<Rightarrow> bool" where
  "at_least_one c = (c = Exactly_One \<or> c = One_Or_More)"

definition find_group :: "policy \<Rightarrow> string \<Rightarrow> label_group option" where
  "find_group p g = map_get (map_new (map (\<lambda>g. (group_id g, g)) (groups p))) g"

definition group_blockers :: "policy \<Rightarrow> item \<Rightarrow> string \<times> string list \<Rightarrow> finding list" where
  "group_blockers p i x =
     (case x of (gid, ns) \<Rightarrow>
        (case find_group p gid of
           None \<Rightarrow> []
         | Some g \<Rightarrow>
             if kind i \<notin> set (appliesTo g)
             then [\<lparr>b_item = i, b_label = gid,
                    b_reason = join '', '' ns @ '' does not apply to '' @ kind_text (kind i)\<rparr>]
             else if at_most_one (group_cardinality g) \<and> length ns > 1
             then [\<lparr>b_item = i, b_label = gid,
                    b_reason = ''projected '' @ gid @ '' labels conflict: '' @ join '', '' (js_sort order_cmp ns)\<rparr>]
             else []))"

definition group_warnings :: "policy \<Rightarrow> classified \<Rightarrow> finding list" where
  "group_warnings p c =
     (if item_state (c_item c) \<noteq> Open then []
      else map (\<lambda>g. \<lparr>b_item = c_item c, b_label = group_id g,
                     b_reason = ''open item still needs required '' @ group_id g @ '' classification''\<rparr>)
             (filter (\<lambda>g. kind (c_item c) \<in> set (appliesTo g) \<and> at_least_one (group_cardinality g) \<and>
                          map_get (by_group c) (group_id g) = None) (groups p)))"

definition finding_order :: "finding \<Rightarrow> finding \<Rightarrow> int" where
  "finding_order l r =
     (let k = locale_compare (itemKey (b_item l)) (itemKey (b_item r)) in
      if k \<noteq> 0 then k else locale_compare (b_label l) (b_label r))"

definition buildClassificationAssessment :: "policy \<Rightarrow> label_state \<Rightarrow> finding list \<times> finding list" where
  "buildClassificationAssessment p st =
     (let cs = map snd (projected_items p st)
      in (js_sort finding_order (concat (map (\<lambda>c. concat (map (group_blockers p (c_item c)) (by_group c))) cs)),
          js_sort finding_order (concat (map (group_warnings p) cs))))"

section \<open>Operations\<close>

datatype operation =
    Rename string string string string
  | Create repo_label
  | Update "string option" string string string
  | Add string item
  | Delete string nat

record plan =
  operations :: "operation list"
  blockers :: "finding list"
  plan_warnings :: "finding list"

text \<open>\<open>Rename from to color description\<close>; \<open>Update from name color description\<close> with \<open>from\<close> when
  the name changes; \<open>Delete name associationCount\<close>.\<close>

definition migrations_to :: "policy \<Rightarrow> policy_label \<Rightarrow> migration list" where
  "migrations_to p l = filter (\<lambda>m. normalizeName (mig_to m) = normalizeName (label_name l)) (migrations p)"

definition update_operation :: "repo_label \<Rightarrow> string \<Rightarrow> string \<Rightarrow> string \<Rightarrow> operation" where
  "update_operation existing n c d = Update (if name existing \<noteq> n then Some (name existing) else None) n c d"

definition differs :: "repo_label \<Rightarrow> policy_label \<Rightarrow> bool" where
  "differs e l = (name e \<noteq> label_name l \<or> to_upper (color e) \<noteq> label_color l \<or>
                  description e \<noteq> label_description l)"

text \<open>Adding the target to every item of a migration's source that lacks it.\<close>

fun add_missing :: "string \<Rightarrow> item list \<Rightarrow> string list \<Rightarrow> operation list \<times> string list" where
  "add_missing n [] keys = ([], keys)"
| "add_missing n (i # is) keys =
     (if itemKey i \<in> set keys then add_missing n is keys
      else (case add_missing n is (keys @ [itemKey i]) of (ops, keys') \<Rightarrow> (Add n i # ops, keys')))"

fun migrate_items ::
  "label_state \<Rightarrow> (string, repo_label) jsmap \<Rightarrow> string \<Rightarrow> string option \<Rightarrow> migration list \<Rightarrow> string list
     \<Rightarrow> operation list" where
  "migrate_items st current n renamed [] keys = []"
| "migrate_items st current n renamed (m # ms) keys =
     (case map_get current (normalizeName (mig_from m)) of
        None \<Rightarrow> migrate_items st current n renamed ms keys
      | Some src \<Rightarrow>
          if Some (normalizeName (mig_from m)) = renamed then migrate_items st current n renamed ms keys
          else (case add_missing n (associationList st (name src)) keys of
                  (ops, keys') \<Rightarrow> ops @ migrate_items st current n renamed ms keys'))"

definition apply_label ::
  "policy \<Rightarrow> label_state \<Rightarrow> policy_label \<Rightarrow> operation list \<times> (string, repo_label) jsmap
     \<Rightarrow> operation list \<times> (string, repo_label) jsmap" where
  "apply_label p st l acc =
     (case acc of (ops, current) \<Rightarrow>
        (let target = normalizeName (label_name l);
             ms = migrations_to p l;
             keys = map itemKey (associationList st (label_name l))
         in case map_get current target of
              None \<Rightarrow>
                (case find (\<lambda>m. map_get current (normalizeName (mig_from m)) \<noteq> None) ms of
                   Some primary \<Rightarrow>
                     (let from = normalizeName (mig_from primary);
                          src = the (map_get current from);
                          current' = map_set target (desiredLabel l) (map_del from current);
                          keys' = keys @ map itemKey (associationList st (name src))
                      in (ops @ [Rename (name src) (label_name l) (label_color l) (label_description l)] @
                            migrate_items st current' (label_name l) (Some from) ms keys', current'))
                 | None \<Rightarrow>
                     (let current' = map_set target (desiredLabel l) current
                      in (ops @ [Create (desiredLabel l)] @ migrate_items st current' (label_name l) None ms keys,
                          current')))
            | Some existing \<Rightarrow>
                (ops @ (if differs existing l
                        then [update_operation existing (label_name l) (label_color l) (label_description l)]
                        else []) @
                   migrate_items st current (label_name l) None ms keys, current)))"

definition buildApplyPlan :: "raw_policy option \<Rightarrow> label_state \<Rightarrow> policy_error + plan" where
  "buildApplyPlan raw st =
     ebind (validatePolicy raw) (\<lambda>p.
       case buildClassificationAssessment p st of (bs, ws) \<Rightarrow>
         if bs \<noteq> [] then Inr \<lparr>operations = [], blockers = bs, plan_warnings = ws\<rparr>
         else Inr \<lparr>operations = fst (fold (apply_label p st) (labels p) ([], currentLabelMap st)),
                   blockers = [], plan_warnings = ws\<rparr>)"

section \<open>Retirement\<close>

definition retirement_blockers ::
  "policy \<Rightarrow> label_state \<Rightarrow> repo_label \<Rightarrow> migration option \<Rightarrow> finding list" where
  "retirement_blockers p st src mig =
     (let target = Option.bind mig (\<lambda>m. map_get (currentLabelMap st) (normalizeName (mig_to m)));
          keys = (case target of None \<Rightarrow> [] | Some t \<Rightarrow> map itemKey (associationList st (name t)))
      in map (\<lambda>i. \<lparr>b_item = i, b_label = name src,
                   b_reason = (case mig of Some m \<Rightarrow> ''open item is missing replacement '' @ mig_to m
                                         | None \<Rightarrow> ''open item has no governed replacement'')\<rparr>)
           (filter (\<lambda>i. target = None \<or> itemKey i \<notin> set keys)
              (filter (\<lambda>i. item_state i = Open) (associationList st (name src)))))"

definition find_migration :: "policy \<Rightarrow> string \<Rightarrow> migration option" where
  "find_migration p n = map_get (map_new (map (\<lambda>m. (normalizeName (mig_from m), m)) (migrations p))) (normalizeName n)"

definition retire_label ::
  "policy \<Rightarrow> label_state \<Rightarrow> retired_label \<Rightarrow> finding list \<times> operation list \<Rightarrow> finding list \<times> operation list" where
  "retire_label p st r acc =
     (case acc of (bs, cs) \<Rightarrow>
        (case map_get (currentLabelMap st) (normalizeName (retired_name r)) of
           None \<Rightarrow> (bs, cs)
         | Some src \<Rightarrow>
             (bs @ retirement_blockers p st src (find_migration p (retired_name r)),
              cs @ [Delete (name src) (length (associationList st (name src)))])))"

definition buildRetirementPlan :: "raw_policy option \<Rightarrow> label_state \<Rightarrow> policy_error + plan" where
  "buildRetirementPlan raw st =
     ebind (validatePolicy raw) (\<lambda>p.
       case fold (retire_label p st) (retiredLabels p) ([], []) of (bs, cs) \<Rightarrow>
         Inr \<lparr>operations = (if bs = [] then cs else []), blockers = bs, plan_warnings = []\<rparr>)"

section \<open>Restoring a snapshot\<close>

definition restore_label ::
  "label_state \<Rightarrow> label_state \<Rightarrow> retired_label \<Rightarrow> operation list \<Rightarrow> operation list" where
  "restore_label saved_state st r ops =
     (case map_get (currentLabelMap saved_state) (normalizeName (retired_name r)) of
        None \<Rightarrow> ops
      | Some saved \<Rightarrow>
          ops @
          (case map_get (currentLabelMap st) (normalizeName (retired_name r)) of
             None \<Rightarrow> [Create saved]
           | Some e \<Rightarrow>
               if name e \<noteq> name saved \<or> to_upper (color e) \<noteq> to_upper (color saved) \<or>
                  description e \<noteq> description saved
               then [update_operation e (name saved) (to_upper (color saved)) (description saved)]
               else []) @
          (let keys = map itemKey (associationList st (retired_name r))
           in map (Add (name saved))
                (filter (\<lambda>i. itemKey i \<notin> set keys) (associationList saved_state (name saved)))))"

definition buildRestorePlan :: "raw_policy option \<Rightarrow> raw_snapshot option \<Rightarrow> label_state \<Rightarrow> policy_error + plan" where
  "buildRestorePlan raw rawSnapshot st =
     ebind (validatePolicy raw) (\<lambda>p.
     ebind (validateSnapshot rawSnapshot) (\<lambda>s.
       Inr \<lparr>operations = fold (restore_label (snapshot_state s) st) (retiredLabels p) [],
            blockers = [], plan_warnings = []\<rparr>))"

section \<open>Snapshots against the live state\<close>

definition assertSnapshotMatches ::
  "(repo_label list \<times> (string, item list) jsmap \<Rightarrow> string) \<Rightarrow> raw_snapshot option \<Rightarrow> string \<Rightarrow> label_state
     \<Rightarrow> string list \<Rightarrow> policy_error + unit" where
  "assertSnapshotMatches digest rawSnapshot repo st names =
     ebind (validateSnapshot rawSnapshot) (\<lambda>s.
     ebind (ensure (repository s = repo) Snapshot_Of_Other_Repository) (\<lambda>u.
       ensure (stateFingerprint digest (snapshot_state s) names = stateFingerprint digest st names) Labels_Changed))"

definition protected_names :: "label_state \<Rightarrow> label_state \<Rightarrow> string list \<Rightarrow> string list" where
  "protected_names saved st retiredNames =
     uniq (map name (filter (\<lambda>e. normalizeName (name e) \<notin> set (map normalizeName retiredNames))
                       (state_labels saved @ state_labels st)))"

definition check_retired_unchanged ::
  "(repo_label list \<times> (string, item list) jsmap \<Rightarrow> string) \<Rightarrow> label_state \<Rightarrow> label_state \<Rightarrow> string \<Rightarrow> unit
     \<Rightarrow> policy_error + unit" where
  "check_retired_unchanged digest saved st n u =
     ensure (map_get (currentLabelMap st) (normalizeName n) = None \<or>
             stateFingerprint digest saved [n] = stateFingerprint digest st [n]) (Retired_Label_Changed n)"

definition assertRetirementSnapshotMatches ::
  "(repo_label list \<times> (string, item list) jsmap \<Rightarrow> string) \<Rightarrow> raw_snapshot option \<Rightarrow> string \<Rightarrow> label_state
     \<Rightarrow> string list \<Rightarrow> policy_error + unit" where
  "assertRetirementSnapshotMatches digest rawSnapshot repo st retiredNames =
     ebind (validateSnapshot rawSnapshot) (\<lambda>s.
     ebind (ensure (repository s = repo) Snapshot_Of_Other_Repository) (\<lambda>u.
     ebind (ensure (stateFingerprint digest (snapshot_state s) (protected_names (snapshot_state s) st retiredNames) =
                    stateFingerprint digest st (protected_names (snapshot_state s) st retiredNames))
              Labels_Changed) (\<lambda>u.
       efold (check_retired_unchanged digest (snapshot_state s) st) retiredNames ())))"

definition relevantNames :: "policy \<Rightarrow> string list" where
  "relevantNames p = map label_name (labels p) @ concat (map (\<lambda>m. [mig_from m, mig_to m]) (migrations p)) @
     map retired_name (retiredLabels p)"

section \<open>Convergence\<close>

text \<open>The state a policy asks for: every label of it there as it is described, and every item of a
  migration's source that is still there also carrying the target.\<close>

definition label_converged :: "policy \<Rightarrow> label_state \<Rightarrow> policy_label \<Rightarrow> bool" where
  "label_converged p st l \<longleftrightarrow>
     (\<exists>e. map_get (currentLabelMap st) (normalizeName (label_name l)) = Some e \<and> \<not> differs e l) \<and>
     (\<forall>m\<in>set (migrations_to p l). \<forall>src. map_get (currentLabelMap st) (normalizeName (mig_from m)) = Some src \<longrightarrow>
        (\<forall>i\<in>set (associationList st (name src)). itemKey i \<in> itemKey ` set (associationList st (label_name l))))"

lemma add_missing_none: "fst (add_missing n is keys) = [] \<longleftrightarrow> (\<forall>i\<in>set is. itemKey i \<in> set keys)"
  by (induction "is" arbitrary: keys) (auto split: prod.split)

lemma add_missing_same: "\<forall>i\<in>set is. itemKey i \<in> set keys \<Longrightarrow> add_missing n is keys = ([], keys)"
  by (induction "is") auto

lemma migrate_items_none:
  "migrate_items st current n None ms keys = [] \<longleftrightarrow>
   (\<forall>m\<in>set ms. \<forall>src. map_get current (normalizeName (mig_from m)) = Some src \<longrightarrow>
      (\<forall>i\<in>set (associationList st (name src)). itemKey i \<in> set keys))"
proof (induction ms arbitrary: keys)
  case Nil
  then show ?case by simp
next
  case (Cons m ms)
  show ?case
  proof (cases "map_get current (normalizeName (mig_from m))")
    case None
    with Cons show ?thesis by simp
  next
    case (Some src)
    let ?is = "associationList st (name src)"
    show ?thesis
    proof (cases "\<forall>i\<in>set ?is. itemKey i \<in> set keys")
      case True
      with Some Cons show ?thesis by (simp add: add_missing_same)
    next
      case False
      then have "fst (add_missing n ?is keys) \<noteq> []" by (simp add: add_missing_none)
      with Some False show ?thesis by (auto split: prod.split)
    qed
  qed
qed

lemma apply_label_none:
  "fst (apply_label p st l (ops, currentLabelMap st)) = ops \<longleftrightarrow> label_converged p st l"
  by (auto simp: apply_label_def label_converged_def Let_def migrate_items_none split: option.splits)

lemma apply_label_converged:
  "label_converged p st l \<Longrightarrow> apply_label p st l (ops, currentLabelMap st) = (ops, currentLabelMap st)"
  by (auto simp: apply_label_def label_converged_def Let_def migrate_items_none split: option.splits)

lemma apply_label_extends: "\<exists>new. fst (apply_label p st l acc) = fst acc @ new"
  by (cases acc) (auto simp: apply_label_def Let_def split: option.splits)

lemma fold_apply_extends: "\<exists>new. fst (fold (apply_label p st) ls acc) = fst acc @ new"
proof (induction ls arbitrary: acc)
  case (Cons l ls)
  obtain new1 where "fst (apply_label p st l acc) = fst acc @ new1" using apply_label_extends by blast
  moreover obtain new2 where "fst (fold (apply_label p st) ls (apply_label p st l acc)) =
      fst (apply_label p st l acc) @ new2"
    using Cons.IH by blast
  ultimately show ?case by simp
qed simp

lemma fold_apply_none:
  "fst (fold (apply_label p st) ls ([], currentLabelMap st)) = [] \<longleftrightarrow> (\<forall>l\<in>set ls. label_converged p st l)"
proof (induction ls)
  case (Cons l ls)
  show ?case
  proof (cases "label_converged p st l")
    case True
    with Cons apply_label_converged [OF True, of "[]"] show ?thesis by simp
  next
    case False
    then have "fst (apply_label p st l ([], currentLabelMap st)) \<noteq> []" using apply_label_none by blast
    then have "fst (fold (apply_label p st) ls (apply_label p st l ([], currentLabelMap st))) \<noteq> []"
      using fold_apply_extends [of p st ls "apply_label p st l ([], currentLabelMap st)"] by auto
    with False show ?thesis by simp
  qed
qed simp

section \<open>What retiring deletes\<close>

lemma fold_retire:
  "fold (retire_label p st) rs (bs, cs) = (bs', cs') \<Longrightarrow>
   (set bs' = set bs \<union> (\<Union>r\<in>set rs. case map_get (currentLabelMap st) (normalizeName (retired_name r)) of
        None \<Rightarrow> {} | Some src \<Rightarrow> set (retirement_blockers p st src (find_migration p (retired_name r))))) \<and>
   (set cs' = set cs \<union> (\<Union>r\<in>set rs. case map_get (currentLabelMap st) (normalizeName (retired_name r)) of
        None \<Rightarrow> {} | Some src \<Rightarrow> {Delete (name src) (length (associationList st (name src)))}))"
proof (induction rs arbitrary: bs cs)
  case (Cons r rs)
  obtain b1 c1 where 1: "retire_label p st r (bs, cs) = (b1, c1)" by fastforce
  from Cons.prems have "fold (retire_label p st) rs (b1, c1) = (bs', cs')" by (simp add: 1)
  from Cons.IH [OF this] 1 show ?case
    by (cases "map_get (currentLabelMap st) (normalizeName (retired_name r))") (auto simp: retire_label_def)
qed simp

lemma currentLabelMap_name:
  "map_get (currentLabelMap st) k = Some e \<Longrightarrow> e \<in> set (state_labels st) \<and> normalizeName (name e) = k"
  unfolding currentLabelMap_def by (drule map_get_new_in) auto

lemma find_migration_some:
  "find_migration p n = Some m \<Longrightarrow> m \<in> set (migrations p) \<and> normalizeName (mig_from m) = normalizeName n"
  unfolding find_migration_def by (drule map_get_new_in) auto

text \<open>An open item keeps its classification when the label it carries is deleted.\<close>

definition replaced :: "policy \<Rightarrow> label_state \<Rightarrow> string \<Rightarrow> item \<Rightarrow> bool" where
  "replaced p st n i \<longleftrightarrow>
     (\<exists>m\<in>set (migrations p). normalizeName (mig_from m) = normalizeName n \<and>
        (\<exists>t. map_get (currentLabelMap st) (normalizeName (mig_to m)) = Some t \<and>
             itemKey i \<in> itemKey ` set (associationList st (name t))))"

lemma no_retirement_blockers:
  assumes "retirement_blockers p st src (find_migration p n) = []"
    and "i \<in> set (associationList st (name src))" and "item_state i = Open"
  shows "replaced p st n i"
proof -
  let ?t = "Option.bind (find_migration p n) (\<lambda>m. map_get (currentLabelMap st) (normalizeName (mig_to m)))"
  have "\<forall>j\<in>set (associationList st (name src)). item_state j = Open \<longrightarrow>
      ?t \<noteq> None \<and> itemKey j \<in> set (case ?t of None \<Rightarrow> [] | Some t \<Rightarrow> map itemKey (associationList st (name t)))"
    using assms(1) by (auto simp: retirement_blockers_def Let_def filter_empty_conv)
  with assms(2,3) obtain t where t: "?t = Some t" "itemKey i \<in> itemKey ` set (associationList st (name t))"
    by (auto split: option.splits)
  then obtain m where "find_migration p n = Some m" "map_get (currentLabelMap st) (normalizeName (mig_to m)) = Some t"
    by (auto simp: Option.bind_eq_Some_conv)
  with t(2) find_migration_some show ?thesis unfolding replaced_def by blast
qed

section \<open>What restoring asks for\<close>

definition label_restored :: "label_state \<Rightarrow> label_state \<Rightarrow> retired_label \<Rightarrow> bool" where
  "label_restored saved_state st r \<longleftrightarrow>
     (\<forall>saved. map_get (currentLabelMap saved_state) (normalizeName (retired_name r)) = Some saved \<longrightarrow>
        (\<exists>e. map_get (currentLabelMap st) (normalizeName (retired_name r)) = Some e \<and> name e = name saved \<and>
             to_upper (color e) = to_upper (color saved) \<and> description e = description saved) \<and>
        itemKey ` set (associationList saved_state (name saved)) \<subseteq>
          itemKey ` set (associationList st (retired_name r)))"

lemma restore_label_none: "restore_label s st r ops = ops \<longleftrightarrow> label_restored s st r"
  by (auto simp: restore_label_def label_restored_def Let_def filter_empty_conv image_subset_iff split: option.splits)

lemma restore_label_extends: "\<exists>new. restore_label s st r ops = ops @ new"
  by (auto simp: restore_label_def split: option.splits)

lemma fold_restore_none:
  "fold (restore_label s st) rs ops = ops \<longleftrightarrow> (\<forall>r\<in>set rs. label_restored s st r)"
proof (induction rs arbitrary: ops)
  case (Cons r rs)
  have ext: "\<exists>new. fold (restore_label s st) rs x = x @ new" for x
  proof (induction rs arbitrary: x)
    case (Cons a as)
    show ?case using restore_label_extends [of s st a x] Cons [of "restore_label s st a x"] by auto
  qed simp
  show ?case
  proof (cases "label_restored s st r")
    case True
    then have "restore_label s st r ops = ops" using restore_label_none by blast
    with True Cons show ?thesis by simp
  next
    case False
    obtain new where new: "restore_label s st r ops = ops @ new" using restore_label_extends by blast
    with False have "new \<noteq> []" using restore_label_none [of s st r ops] by auto
    moreover obtain new2 where "fold (restore_label s st) rs (ops @ new) = (ops @ new) @ new2" using ext by blast
    ultimately show ?thesis using False new by simp
  qed
qed simp

section \<open>An example repository\<close>

definition sample_raw_policy :: "raw_policy option" where
  "sample_raw_policy = Some \<lparr>schemaVersion = Some 1, staffManaged = True,
     raw_groups = Some [Some \<lparr>raw_id = Some ''type'', raw_cardinality = Some ''exactly_one'',
       raw_appliesTo = Some [''issue'']\<rparr>],
     raw_labels = Some [Some \<lparr>raw_label_name = Some ''type: bug'', raw_color = Some ''D73A4A'',
       raw_description = Some ''A defect'', raw_group = Some ''type''\<rparr>],
     raw_migrations = Some [Some \<lparr>raw_from = Some ''bug'', raw_to = Some ''type: bug''\<rparr>],
     raw_retiredLabels = Some [Some \<lparr>raw_retired_name = Some ''bug'', raw_reason = Some ''renamed''\<rparr>]\<rparr>"

definition sample_policy :: policy where
  "sample_policy = \<lparr>groups = [\<lparr>group_id = ''type'', group_cardinality = Exactly_One, appliesTo = [Issue]\<rparr>],
     labels = [\<lparr>label_name = ''type: bug'', label_color = ''D73A4A'', label_description = ''A defect'',
       label_group_id = ''type''\<rparr>],
     migrations = [\<lparr>mig_from = ''bug'', mig_to = ''type: bug''\<rparr>],
     retiredLabels = [\<lparr>retired_name = ''bug'', retired_reason = ''renamed''\<rparr>]\<rparr>"

definition sample_item :: item where
  "sample_item = \<lparr>kind = Issue, item_number = 7, item_state = Open, url = item_url ''o/r'' Issue 7\<rparr>"

definition sample_labels :: label_state where
  "sample_labels = \<lparr>state_labels = [\<lparr>name = ''type: bug'', color = ''d73a4a'', description = ''A defect''\<rparr>,
       \<lparr>name = ''bug'', color = ''ffffff'', description = []\<rparr>],
     associations = [(''type: bug'', [sample_item]), (''bug'', [sample_item])]\<rparr>"

definition sample_raw_snapshot :: "raw_snapshot option" where
  "sample_raw_snapshot = Some \<lparr>snapshotVersion = Some 1, raw_repository = Some ''o/r'',
     raw_state_labels = Some [Some \<lparr>raw_name = Some ''bug'', raw_repo_color = Some ''ffffff'',
       raw_repo_description = Some []\<rparr>],
     raw_associations = Some [(''bug'', Some [Some \<lparr>raw_kind = Some ''issue'', raw_number = Some 7,
       raw_state = Some ''open'', raw_url = Some (item_url ''o/r'' Issue 7)\<rparr>])]\<rparr>"

lemma sample_valid: "validatePolicy sample_raw_policy = Inr sample_policy"
  by code_simp

lemma sample_apply: "buildApplyPlan sample_raw_policy sample_labels = Inr \<lparr>operations = [], blockers = [], plan_warnings = []\<rparr>"
  by code_simp

lemma sample_retire:
  "buildRetirementPlan sample_raw_policy sample_labels
     = Inr \<lparr>operations = [Delete ''bug'' 1], blockers = [], plan_warnings = []\<rparr>"
  by code_simp

lemma sample_restore:
  "buildRestorePlan sample_raw_policy sample_raw_snapshot sample_labels
     = Inr \<lparr>operations = [], blockers = [], plan_warnings = []\<rparr>"
  by code_simp

section \<open>Properties\<close>

text \<open>C32: a policy that is accepted is well-formed: group ids, label names, migration sources and
  retired names are distinct up to case, every group is used and every label is in one, migrations
  lead from retired names to desired ones, and no desired label is retired.\<close>

theorem validatePolicy_sound:
  assumes "validatePolicy raw = Inr p"
  shows "well_formed_policy p"
  using assms by (rule validatePolicy_well_formed)

theorem validatePolicy_sound_witness: "well_formed_policy sample_policy"
  by (rule validatePolicy_sound [OF sample_valid])



text \<open>C14: retirement is safe. A label is only deleted when it is retired and not desired, and when
  every open item that carries it also carries the label that replaces it.\<close>

theorem retirement_plan_safe:
  assumes "validatePolicy raw = Inr p" and "buildRetirementPlan raw st = Inr plan"
    and "Delete n k \<in> set (operations plan)"
  shows "normalizeName n \<in> set (retired_keys p) \<and> normalizeName n \<notin> set (label_keys p) \<and>
    (\<forall>i\<in>set (associationList st n). item_state i = Open \<longrightarrow> replaced p st n i)"
proof -
  obtain bs cs where f: "fold (retire_label p st) (retiredLabels p) ([], []) = (bs, cs)" by fastforce
  with assms have "bs = []" "Delete n k \<in> set cs" by (auto simp: buildRetirementPlan_def split: if_splits)
  with fold_retire [OF f] obtain r src where r: "r \<in> set (retiredLabels p)"
    and src: "map_get (currentLabelMap st) (normalizeName (retired_name r)) = Some src"
    and n: "n = name src" and none: "retirement_blockers p st src (find_migration p (retired_name r)) = []"
    by (auto split: option.splits)
  have key: "normalizeName n = normalizeName (retired_name r)"
    using currentLabelMap_name [OF src] n by simp
  then have "normalizeName n \<in> set (retired_keys p)" using r by (auto simp: retired_keys_def)
  moreover from this have "normalizeName n \<notin> set (label_keys p)"
    using validatePolicy_well_formed [OF assms(1)] by (auto simp: well_formed_policy_def)
  moreover have "replaced p st n i" if "i \<in> set (associationList st n)" "item_state i = Open" for i
    using no_retirement_blockers [OF none _ that(2)] that(1) key by (simp add: n replaced_def)
  ultimately show ?thesis by blast
qed

theorem retirement_plan_safe_witness:
  "list_all (\<lambda>i. replaced sample_policy sample_labels ''bug'' i)
     (filter (\<lambda>i. item_state i = Open) (associationList sample_labels ''bug''))"
  using retirement_plan_safe [OF sample_valid sample_retire, of "''bug''" 1] by (simp add: list_all_iff)

text \<open>Retirement is complete. When no open item blocks it, every retired label that is still in
  the repository is deleted.\<close>

theorem retirement_plan_complete:
  assumes "validatePolicy raw = Inr p" and "buildRetirementPlan raw st = Inr plan"
    and "blockers plan = []" and "r \<in> set (retiredLabels p)"
    and "map_get (currentLabelMap st) (normalizeName (retired_name r)) = Some src"
  shows "\<exists>k. Delete (name src) k \<in> set (operations plan)"
proof -
  obtain bs cs where f: "fold (retire_label p st) (retiredLabels p) ([], []) = (bs, cs)" by fastforce
  with assms(1-3) have "plan = \<lparr>operations = cs, blockers = [], plan_warnings = []\<rparr>"
    by (auto simp: buildRetirementPlan_def)
  moreover have "Delete (name src) (length (associationList st (name src))) \<in> set cs"
    using fold_retire [OF f] assms(4,5) by force
  ultimately show ?thesis by auto
qed

theorem retirement_plan_complete_witness:
  "\<exists>k. Delete ''bug'' k \<in> set (operations \<lparr>operations = [Delete ''bug'' 1], blockers = [], plan_warnings = []\<rparr>)"
proof -
  let ?src = "\<lparr>name = ''bug'', color = ''ffffff'', description = []\<rparr>"
  let ?r = "\<lparr>retired_name = ''bug'', retired_reason = ''renamed''\<rparr>"
  have "map_get (currentLabelMap sample_labels) (normalizeName (retired_name ?r)) = Some ?src" by code_simp
  from retirement_plan_complete [OF sample_valid sample_retire _ _ this] show ?thesis
    by (simp add: sample_policy_def)
qed

text \<open>C34: the restore plan is empty exactly when the retired labels the snapshot holds are back, up
  to the case of colours, with every item it associates with them.\<close>

theorem restore_plan_empty_iff_restored:
  assumes "validatePolicy raw = Inr p" and "validateSnapshot rawSnapshot = Inr s"
  shows "buildRestorePlan raw rawSnapshot st = Inr \<lparr>operations = [], blockers = [], plan_warnings = []\<rparr> \<longleftrightarrow>
    (\<forall>r\<in>set (retiredLabels p). label_restored (snapshot_state s) st r)"
  using assms fold_restore_none [of "snapshot_state s" st "retiredLabels p" "[]"]
  by (simp add: buildRestorePlan_def)

theorem restore_plan_empty_iff_restored_witness:
  "\<exists>s. validateSnapshot sample_raw_snapshot = Inr s \<and>
     list_all (label_restored (snapshot_state s) sample_labels) (retiredLabels sample_policy)"
proof -
  obtain s where s: "validateSnapshot sample_raw_snapshot = Inr s"
    using sample_restore by (auto simp: buildRestorePlan_def res_simps)
  with restore_plan_empty_iff_restored [OF sample_valid s, of sample_labels] sample_restore
  show ?thesis by (auto simp: list_all_iff)
qed

text \<open>Retirement only goes ahead on the state of the snapshot. If the digest does not collide on
  the states it is given, a check that passes means that the labels that are not retired, and each
  retired label that is still there, are as the snapshot has them.\<close>

theorem retirement_snapshot_current:
  assumes "assertRetirementSnapshotMatches digest rawSnapshot repo st retiredNames = Inr ()"
    and "validateSnapshot rawSnapshot = Inr s"
    and "\<And>names. stateFingerprint digest (snapshot_state s) names = stateFingerprint digest st names \<Longrightarrow>
      stableState (snapshot_state s) names = stableState st names"
  shows "repository s = repo \<and>
    stableState (snapshot_state s) (protected_names (snapshot_state s) st retiredNames) =
      stableState st (protected_names (snapshot_state s) st retiredNames) \<and>
    (\<forall>n\<in>set retiredNames. map_get (currentLabelMap st) (normalizeName n) \<noteq> None \<longrightarrow>
       stableState (snapshot_state s) [n] = stableState st [n])"
proof -
  let ?p = "protected_names (snapshot_state s) st retiredNames"
  have repo: "repository s = repo"
    and prot: "stateFingerprint digest (snapshot_state s) ?p = stateFingerprint digest st ?p"
    and ret: "efold (check_retired_unchanged digest (snapshot_state s) st) retiredNames () = Inr ()"
    using assms(1,2) by (auto simp: assertRetirementSnapshotMatches_def res_simps)
  have "\<forall>n\<in>set retiredNames. map_get (currentLabelMap st) (normalizeName n) = None \<or>
      stateFingerprint digest (snapshot_state s) [n] = stateFingerprint digest st [n]"
    by (rule efold_unit_ensure [OF ret [unfolded check_retired_unchanged_def [abs_def]]])
  then show ?thesis using repo assms(3) [OF prot] assms(3) by auto
qed

theorem retirement_snapshot_current_witness:
  "\<exists>s. validateSnapshot sample_raw_snapshot = Inr s \<and> repository s = ''o/r''"
proof -
  obtain s where s: "validateSnapshot sample_raw_snapshot = Inr s"
    using sample_restore by (auto simp: buildRestorePlan_def res_simps)
  have "map_option repository (case validateSnapshot sample_raw_snapshot of Inr s \<Rightarrow> Some s | Inl e \<Rightarrow> None) = Some ''o/r''"
    by code_simp
  with s have "assertRetirementSnapshotMatches (\<lambda>x. itemKey sample_item) sample_raw_snapshot ''o/r''
      (snapshot_state s) [''bug''] = Inr ()"
    by (simp add: assertRetirementSnapshotMatches_def check_retired_unchanged_def)
  from retirement_snapshot_current [OF this s refl] s show ?thesis by blast
qed

end
