(* ===== verification/Label_Client.thy ===== *)
theory Label_Client
  imports Label_Plan
begin

text \<open>
  \<open>scripts/ci/manage-labels.js\<close>, third part: the command line, the requests to GitHub with their
  retries and pages, the worker pool that reads associations, and the actions. GitHub is a
  parameter: what each attempt of a request gives, what each page holds, and what each call does to
  the repository (an arbitrary world \<open>'w\<close>).
\<close>

section \<open>The command line\<close>

record arguments =
  action :: string
  confirmation :: string
  policyPath :: string
  arg_repository :: string
  snapshotPath :: string

datatype cli_error =
    Requires_Value string | Choose_One_Action | Unknown_Argument string | Bad_Repository
  | Requires_Confirm string string

definition default_arguments :: arguments where
  "default_arguments = \<lparr>action = ''plan'', confirmation = [], policyPath = ''.github/labels.json'',
     arg_repository = [], snapshotPath = []\<rparr>"

text \<open>\<open>--check\<close>, \<open>--plan\<close> and \<open>--apply\<close> stand alone; the others take the next argument.\<close>

definition plain_action :: "string \<Rightarrow> string option" where
  "plain_action a = map_get [(''--check'', ''check''), (''--plan'', ''plan''), (''--apply'', ''apply'')] a"

definition path_action :: "string \<Rightarrow> string option" where
  "path_action a = map_get [(''--snapshot'', ''snapshot''), (''--retire'', ''retire''), (''--restore'', ''restore'')] a"

definition set_option :: "string \<Rightarrow> string \<Rightarrow> arguments \<Rightarrow> arguments option" where
  "set_option a v r =
     (if a = ''--repo'' then Some (r\<lparr>arg_repository := v\<rparr>)
      else if a = ''--policy'' then Some (r\<lparr>policyPath := v\<rparr>)
      else if a = ''--confirm'' then Some (r\<lparr>confirmation := v\<rparr>)
      else None)"

definition takes_value :: "string \<Rightarrow> bool" where
  "takes_value a = (a \<in> {''--repo'', ''--policy'', ''--confirm''} \<or> path_action a \<noteq> None)"

fun scan_arguments :: "string list \<Rightarrow> bool \<Rightarrow> arguments \<Rightarrow> cli_error + arguments" where
  "scan_arguments [] chosen r = Inr r"
| "scan_arguments [a] chosen r =
     (if takes_value a then Inl (Requires_Value a)
      else (case plain_action a of
              Some act \<Rightarrow> (if chosen then Inl Choose_One_Action
                          else Inr (r\<lparr>action := act, snapshotPath := []\<rparr>))
            | None \<Rightarrow> Inl (Unknown_Argument a)))"
| "scan_arguments (a # v # rest) chosen r =
     (case set_option a v r of
        Some r' \<Rightarrow> scan_arguments rest chosen r'
      | None \<Rightarrow>
          (case path_action a of
             Some act \<Rightarrow> (if chosen then Inl Choose_One_Action
                         else scan_arguments rest True (r\<lparr>action := act, snapshotPath := v\<rparr>))
           | None \<Rightarrow>
               (case plain_action a of
                  Some act \<Rightarrow> (if chosen then Inl Choose_One_Action
                              else scan_arguments (v # rest) True (r\<lparr>action := act, snapshotPath := []\<rparr>))
                | None \<Rightarrow> Inl (Unknown_Argument a))))"

definition expected_confirmation :: "string \<Rightarrow> string option" where
  "expected_confirmation a = map_get [(''apply'', ''APPLY''), (''retire'', ''RETIRE''), (''restore'', ''RESTORE'')] a"

definition parseArguments :: "string list \<Rightarrow> cli_error + arguments" where
  "parseArguments argv =
     ebind (scan_arguments argv False default_arguments) (\<lambda>r.
       if action r \<noteq> ''check'' \<and> \<not> validRepository (Some (arg_repository r)) then Inl Bad_Repository
       else (case expected_confirmation (action r) of
               Some e \<Rightarrow> if confirmation r \<noteq> e then Inl (Requires_Confirm (action r) e) else Inr r
             | None \<Rightarrow> Inr r))"

section \<open>Requests\<close>

datatype client_error =
    Too_Large | Http_Status int | Invalid_Json | Aborted | Network string | Not_Bounded_Array
  | Invalid_Label | Duplicate_Live_Label string | Invalid_Association string
  | Duplicate_Live_Association string | Too_Many_Pages

record response =
  contentLength :: int
  status :: int
  raw :: string

datatype fetched = Response response | Abort_Error | Fetch_Error string

definition MAX_RESPONSE_BYTES :: int where
  "MAX_RESPONSE_BYTES = 10 * 1024 * 1024"

text \<open>\<open>Buffer.byteLength\<close>: the length of a string in UTF-8.\<close>

definition byte_length :: "string \<Rightarrow> nat" where
  "byte_length s = sum_list (map (\<lambda>c. if code_unit c < 128 then 1 else 2) s)"

definition attempt_result :: "(string \<Rightarrow> 'j option) \<Rightarrow> fetched \<Rightarrow> client_error + 'j option" where
  "attempt_result parse f =
     (case f of
        Abort_Error \<Rightarrow> Inl Aborted
      | Fetch_Error m \<Rightarrow> Inl (Network m)
      | Response r \<Rightarrow>
          if contentLength r > MAX_RESPONSE_BYTES \<or> int (byte_length (raw r)) > MAX_RESPONSE_BYTES then Inl Too_Large
          else if \<not> (200 \<le> status r \<and> status r \<le> 299) then Inl (Http_Status (status r))
          else if raw r = [] then Inr None
          else (case parse (raw r) of None \<Rightarrow> Inl Invalid_Json | Some j \<Rightarrow> Inr (Some j)))"

definition transient :: "client_error \<Rightarrow> bool" where
  "transient e = (e = Aborted \<or> e \<in> {Http_Status 429, Http_Status 502, Http_Status 503, Http_Status 504})"

text \<open>The attempts of a request from the given one on; the result and the attempts that were made.\<close>

function request_from ::
  "(string \<Rightarrow> 'j option) \<Rightarrow> (nat \<Rightarrow> fetched) \<Rightarrow> bool \<Rightarrow> nat \<Rightarrow> (client_error + 'j option) \<times> nat" where
  "request_from parse fetch get attempt =
     (case attempt_result parse (fetch attempt) of
        Inr j \<Rightarrow> (Inr j, attempt)
      | Inl e \<Rightarrow>
          if get \<and> attempt < 3 \<and> transient e then request_from parse fetch get (attempt + 1)
          else (Inl e, attempt))"
  by pat_completeness auto
termination by (relation "measure (\<lambda>(p, f, g, n). 3 - n)") auto

declare request_from.simps [simp del]

definition request :: "(string \<Rightarrow> 'j option) \<Rightarrow> string \<Rightarrow> (nat \<Rightarrow> fetched) \<Rightarrow> (client_error + 'j option) \<times> nat" where
  "request parse verb fetch = request_from parse fetch (verb = ''GET'') 1"

section \<open>Pages\<close>

definition MAX_PAGES :: nat where
  "MAX_PAGES = 100"

text \<open>Pages from the given one on, each element checked against what has been read.\<close>

function read_pages ::
  "(nat \<Rightarrow> client_error + 'r list option) \<Rightarrow> ('r \<Rightarrow> 'a list \<Rightarrow> client_error + 'a list) \<Rightarrow> nat \<Rightarrow> 'a list
     \<Rightarrow> client_error + 'a list" where
  "read_pages fetch_page check page acc =
     (if page > MAX_PAGES then Inl Too_Many_Pages
      else (case fetch_page page of
              Inl e \<Rightarrow> Inl e
            | Inr None \<Rightarrow> Inl Not_Bounded_Array
            | Inr (Some entries) \<Rightarrow>
                if length entries > 100 then Inl Not_Bounded_Array
                else (case efold check entries acc of
                        Inl e \<Rightarrow> Inl e
                      | Inr acc' \<Rightarrow> if length entries < 100 then Inr acc'
                                   else read_pages fetch_page check (page + 1) acc')))"
  by pat_completeness auto
termination by (relation "measure (\<lambda>(f, c, n, a). Suc MAX_PAGES - n)") auto

declare read_pages.simps [simp del]

text \<open>A label as GitHub sends it: a \<open>null\<close> description is read as empty, hence \<open>Some []\<close>.\<close>

definition check_live_label :: "raw_repo_label option \<Rightarrow> repo_label list \<Rightarrow> client_error + repo_label list" where
  "check_live_label x seen =
     (case x of
        None \<Rightarrow> Inl Invalid_Label
      | Some r \<Rightarrow>
          (case (raw_name r, raw_repo_description r) of
             (Some n, Some desc) \<Rightarrow>
               if length n = 0 \<or> length n > 50 \<or> has_control n \<or> \<not> hex_color (no_text (raw_repo_color r)) \<or>
                  length desc > 100 \<or> has_control desc
               then Inl Invalid_Label
               else if normalizeName n \<in> set (map (normalizeName \<circ> name) seen) then Inl (Duplicate_Live_Label n)
               else Inr (seen @ [\<lparr>name = n, color = to_upper (no_text (raw_repo_color r)), description = desc\<rparr>])
           | _ \<Rightarrow> Inl Invalid_Label))"

definition listLabels :: "(nat \<Rightarrow> client_error + raw_repo_label option list option) \<Rightarrow> client_error + repo_label list" where
  "listLabels fetch_page = read_pages fetch_page check_live_label 1 []"

record raw_issue =
  is_pull_request :: bool
  issue_number :: "int option"
  issue_state :: "string option"
  html_url :: "string option"

definition live_item :: "string \<Rightarrow> raw_issue option \<Rightarrow> item option" where
  "live_item repo x =
     (case x of
        None \<Rightarrow> None
      | Some r \<Rightarrow>
          parse_item repo (Some \<lparr>raw_kind = Some (kind_text (if is_pull_request r then Pull_Request else Issue)),
            raw_number = issue_number r, raw_state = issue_state r, raw_url = html_url r\<rparr>))"

definition check_live_item :: "string \<Rightarrow> string \<Rightarrow> raw_issue option \<Rightarrow> item list \<Rightarrow> client_error + item list" where
  "check_live_item repo label x seen =
     (case live_item repo x of
        None \<Rightarrow> Inl (Invalid_Association label)
      | Some i \<Rightarrow>
          if itemKey i \<in> set (map itemKey seen) then Inl (Duplicate_Live_Association label)
          else Inr (seen @ [i]))"

definition listAssociations ::
  "string \<Rightarrow> (nat \<Rightarrow> client_error + raw_issue option list option) \<Rightarrow> string \<Rightarrow> client_error + item list" where
  "listAssociations repo fetch_page label = read_pages fetch_page (check_live_item repo label) 1 []"

section \<open>The worker pool\<close>

text \<open>
  \<open>mapWithConcurrency\<close>: workers share a cursor into the values. Between two awaits a worker runs
  alone, so its steps are: to take the next index and start the mapper on it, to store the
  mapper's result and go on, and to leave when no index is left. Which worker moves is open.
\<close>

record 'b pool =
  cursor :: nat
  running :: "nat list"
  idle :: nat
  gone :: nat
  results :: "'b option list"

definition start_pool :: "'a list \<Rightarrow> nat \<Rightarrow> 'b pool" where
  "start_pool vs concurrency =
     \<lparr>cursor = 0, running = [], idle = min concurrency (length vs), gone = 0,
      results = replicate (length vs) None\<rparr>"

inductive pool_step :: "'a list \<Rightarrow> ('a \<Rightarrow> nat \<Rightarrow> 'b) \<Rightarrow> 'b pool \<Rightarrow> 'b pool \<Rightarrow> bool" for vs mapper where
  take_next: "idle p > 0 \<Longrightarrow> cursor p < length vs \<Longrightarrow>
    pool_step vs mapper p (p\<lparr>cursor := cursor p + 1, running := cursor p # running p, idle := idle p - 1\<rparr>)"
| store: "i \<in> set (running p) \<Longrightarrow>
    pool_step vs mapper p (p\<lparr>running := remove1 i (running p), idle := idle p + 1,
      results := (results p)[i := Some (mapper (vs ! i) i)]\<rparr>)"
| leave: "idle p > 0 \<Longrightarrow> cursor p \<ge> length vs \<Longrightarrow>
    pool_step vs mapper p (p\<lparr>idle := idle p - 1, gone := gone p + 1\<rparr>)"

inductive_cases pool_stepE: "pool_step vs mapper p q"

definition pool_done :: "'b pool \<Rightarrow> bool" where
  "pool_done p = (running p = [] \<and> idle p = 0)"

definition mapWithConcurrency :: "'a list \<Rightarrow> ('a \<Rightarrow> nat \<Rightarrow> 'b) \<Rightarrow> 'b option list" where
  "mapWithConcurrency vs mapper = map (\<lambda>i. Some (mapper (vs ! i) i)) [0..<length vs]"

section \<open>Reading the state\<close>

fun actual_names :: "(string, repo_label) jsmap \<Rightarrow> string list \<Rightarrow> string list \<Rightarrow> string list" where
  "actual_names current [] found = found"
| "actual_names current (n # ns) found =
     (case map_get current (normalizeName n) of
        Some l \<Rightarrow> (if normalizeName (name l) \<in> set (map normalizeName found)
                  then actual_names current ns found
                  else actual_names current ns (found @ [name l]))
      | None \<Rightarrow> actual_names current ns found)"

definition readCurrentState ::
  "(client_error + repo_label list) \<Rightarrow> (string \<Rightarrow> client_error + item list) \<Rightarrow> string list
     \<Rightarrow> client_error + label_state" where
  "readCurrentState live associations_of names =
     ebind live (\<lambda>ls.
       (let current = map_new (map (\<lambda>e. (normalizeName (name e), e)) ls);
            actual = actual_names current names []
        in ebind (emap (\<lambda>n. ebind (associations_of n) (\<lambda>is. Inr (n, is))) actual) (\<lambda>es.
             Inr \<lparr>state_labels = ls, associations = map_new es\<rparr>)))"

section \<open>Executing operations\<close>

datatype api_call =
    Post_Label repo_label
  | Patch_Label string string string string
  | Delete_Label string
  | Post_Issue_Label int string

text \<open>\<open>Patch_Label current new_name color description\<close>.\<close>

fun api_call_of :: "operation \<Rightarrow> api_call" where
  "api_call_of (Rename from to c d) = Patch_Label from to c d"
| "api_call_of (Create l) = Post_Label l"
| "api_call_of (Update from n c d) = Patch_Label (case from of None \<Rightarrow> n | Some f \<Rightarrow> (if f = [] then n else f)) n c d"
| "api_call_of (Add n i) = Post_Issue_Label (item_number i) n"
| "api_call_of (Delete n k) = Delete_Label n"

text \<open>The operations in order, up to the first that fails, reported with its index.\<close>

fun execute_from ::
  "(api_call \<Rightarrow> 'w \<Rightarrow> (string + unit) \<times> 'w) \<Rightarrow> nat \<Rightarrow> operation list \<Rightarrow> 'w \<Rightarrow> (nat \<times> string + unit) \<times> 'w" where
  "execute_from client index [] w = (Inr (), w)"
| "execute_from client index (x # xs) w =
     (case client (api_call_of x) w of
        (Inl m, w') \<Rightarrow> (Inl (index + 1, m), w')
      | (Inr u, w') \<Rightarrow> execute_from client (index + 1) xs w')"

definition executeOperations ::
  "(api_call \<Rightarrow> 'w \<Rightarrow> (string + unit) \<times> 'w) \<Rightarrow> operation list \<Rightarrow> 'w \<Rightarrow> (nat \<times> string + unit) \<times> 'w" where
  "executeOperations client xs w = execute_from client 0 xs w"

fun operationSummary :: "operation \<Rightarrow> string" where
  "operationSummary (Rename from to c d) = ''rename '' @ from @ '' -> '' @ to"
| "operationSummary (Create l) = ''create '' @ name l"
| "operationSummary (Update from n c d) = ''update '' @ n"
| "operationSummary (Add n i) = ''add '' @ n @ '' to '' @ kind_text (kind i) @ '' #'' @ int_str (item_number i)"
| "operationSummary (Delete n k) = ''delete '' @ n @ '' ('' @ nat_str k @ '' historical association(s))''"

section \<open>The actions\<close>

datatype run_error =
    Policy_Error policy_error | Read_Error client_error | Operation_Error "nat \<times> string"
  | Apply_Blocked | Apply_Remaining | Not_Converged | Retire_Blocked | Retire_Remaining
  | Restore_Other_Repository | Restore_Remaining

fun wrap_policy :: "policy_error + 'a \<Rightarrow> run_error + 'a" where
  "wrap_policy (Inl e) = Inl (Policy_Error e)"
| "wrap_policy (Inr x) = Inr x"

text \<open>Read, plan, refuse or execute, and plan again on what is there then.\<close>

definition execute_and_verify ::
  "(api_call \<Rightarrow> 'w \<Rightarrow> (string + unit) \<times> 'w) \<Rightarrow> ('w \<Rightarrow> client_error + label_state) \<Rightarrow>
   (label_state \<Rightarrow> policy_error + plan) \<Rightarrow> run_error \<Rightarrow> operation list \<Rightarrow> 'w \<Rightarrow> (run_error + unit) \<times> 'w" where
  "execute_and_verify client read replan leftover xs w =
     (case executeOperations client xs w of
        (Inl e, w') \<Rightarrow> (Inl (Operation_Error e), w')
      | (Inr u, w') \<Rightarrow>
          (case read w' of
             Inl e \<Rightarrow> (Inl (Read_Error e), w')
           | Inr st \<Rightarrow>
               (case replan st of
                  Inl e \<Rightarrow> (Inl (Policy_Error e), w')
                | Inr pl \<Rightarrow> (if operations pl \<noteq> [] \<or> blockers pl \<noteq> [] then Inl leftover else Inr (), w'))))"

definition apply_action ::
  "(api_call \<Rightarrow> 'w \<Rightarrow> (string + unit) \<times> 'w) \<Rightarrow> ('w \<Rightarrow> client_error + label_state) \<Rightarrow> raw_policy option
     \<Rightarrow> 'w \<Rightarrow> (run_error + unit) \<times> 'w" where
  "apply_action client read rawp w =
     (case validatePolicy rawp of
        Inl e \<Rightarrow> (Inl (Policy_Error e), w)
      | Inr p \<Rightarrow>
          (case read w of
             Inl e \<Rightarrow> (Inl (Read_Error e), w)
           | Inr st \<Rightarrow>
               (case buildApplyPlan rawp st of
                  Inl e \<Rightarrow> (Inl (Policy_Error e), w)
                | Inr pl \<Rightarrow>
                    if blockers pl \<noteq> [] then (Inl Apply_Blocked, w)
                    else execute_and_verify client read (buildApplyPlan rawp) Apply_Remaining (operations pl) w)))"

definition retire_action ::
  "(api_call \<Rightarrow> 'w \<Rightarrow> (string + unit) \<times> 'w) \<Rightarrow> ('w \<Rightarrow> client_error + label_state) \<Rightarrow>
   (repo_label list \<times> (string, item list) jsmap \<Rightarrow> string) \<Rightarrow> raw_policy option \<Rightarrow> raw_snapshot option \<Rightarrow> string
     \<Rightarrow> 'w \<Rightarrow> (run_error + unit) \<times> 'w" where
  "retire_action client read digest rawp rawSnapshot repo w =
     (case validatePolicy rawp of
        Inl e \<Rightarrow> (Inl (Policy_Error e), w)
      | Inr p \<Rightarrow>
          (case read w of
             Inl e \<Rightarrow> (Inl (Read_Error e), w)
           | Inr st \<Rightarrow>
               (case ebind (buildApplyPlan rawp st) (\<lambda>a. ebind (buildRetirementPlan rawp st) (\<lambda>r. Inr (a, r))) of
                  Inl e \<Rightarrow> (Inl (Policy_Error e), w)
                | Inr (a, r) \<Rightarrow>
                    if operations a \<noteq> [] \<or> blockers a \<noteq> [] then (Inl Not_Converged, w)
                    else (case assertRetirementSnapshotMatches digest rawSnapshot repo st
                                  (map retired_name (retiredLabels p)) of
                            Inl e \<Rightarrow> (Inl (Policy_Error e), w)
                          | Inr u \<Rightarrow>
                              if blockers r \<noteq> [] then (Inl Retire_Blocked, w)
                              else execute_and_verify client read (buildRetirementPlan rawp) Retire_Remaining
                                     (operations r) w))))"

definition restore_action ::
  "(api_call \<Rightarrow> 'w \<Rightarrow> (string + unit) \<times> 'w) \<Rightarrow> ('w \<Rightarrow> client_error + label_state) \<Rightarrow> raw_policy option
     \<Rightarrow> raw_snapshot option \<Rightarrow> string \<Rightarrow> 'w \<Rightarrow> (run_error + unit) \<times> 'w" where
  "restore_action client read rawp rawSnapshot repo w =
     (case ebind (validatePolicy rawp) (\<lambda>p. validateSnapshot rawSnapshot) of
        Inl e \<Rightarrow> (Inl (Policy_Error e), w)
      | Inr s \<Rightarrow>
          if repository s \<noteq> repo then (Inl Restore_Other_Repository, w)
          else (case read w of
            Inl e \<Rightarrow> (Inl (Read_Error e), w)
          | Inr st \<Rightarrow>
              (case buildRestorePlan rawp rawSnapshot st of
                 Inl e \<Rightarrow> (Inl (Policy_Error e), w)
               | Inr pl \<Rightarrow>
                   execute_and_verify client read (buildRestorePlan rawp rawSnapshot) Restore_Remaining
                     (operations pl) w)))"

section \<open>Laws of requests and pages\<close>

lemma request_from_spec:
  assumes "request_from parse fetch get a = (r, n)" and "1 \<le> a" and "a \<le> 3"
  shows "a \<le> n \<and> n \<le> 3 \<and> (\<not> get \<longrightarrow> n = a) \<and> r = attempt_result parse (fetch n) \<and>
    (\<forall>k. a \<le> k \<and> k < n \<longrightarrow> (\<exists>e. attempt_result parse (fetch k) = Inl e \<and> transient e))"
  using assms
proof (induction parse fetch get a rule: request_from.induct)
  case (1 parse fetch get a)
  show ?case
  proof (cases "\<exists>e. attempt_result parse (fetch a) = Inl e \<and> get \<and> a < 3 \<and> transient e")
    case True
    then obtain e where e: "attempt_result parse (fetch a) = Inl e" "get \<and> a < 3 \<and> transient e" by blast
    then have "request_from parse fetch get (a + 1) = (r, n)"
      using "1.prems"(1) by (subst (asm) request_from.simps) simp
    with "1.IH" [OF e(1) _ this] e(2)
    have ih: "a + 1 \<le> n \<and> n \<le> 3 \<and> r = attempt_result parse (fetch n) \<and>
        (\<forall>k. a + 1 \<le> k \<and> k < n \<longrightarrow> (\<exists>e. attempt_result parse (fetch k) = Inl e \<and> transient e))"
      by simp
    have "\<exists>e. attempt_result parse (fetch k) = Inl e \<and> transient e" if "a \<le> k" "k < n" for k
      using ih e that by (cases "k = a") auto
    with ih e show ?thesis by simp
  next
    case False
    then have "r = attempt_result parse (fetch a) \<and> n = a"
      using "1.prems"(1) by (subst (asm) request_from.simps) (auto split: sum.splits if_splits)
    with "1.prems" show ?thesis by auto
  qed
qed

lemma read_pages_invariant:
  assumes "read_pages fetch_page check page acc = Inr out" and "I acc"
    and "\<And>x a a'. check x a = Inr a' \<Longrightarrow> I a \<Longrightarrow> I a'"
  shows "I out"
  using assms
proof (induction fetch_page check page acc rule: read_pages.induct)
  case (1 fetch_page check page acc)
  from "1.prems"(1) obtain entries acc' where p: "\<not> page > MAX_PAGES" "fetch_page page = Inr (Some entries)"
      "\<not> length entries > 100" and acc': "efold check entries acc = Inr acc'"
    and out: "(if length entries < 100 then Inr acc' else read_pages fetch_page check (page + 1) acc') = Inr out"
    by (subst (asm) read_pages.simps) (auto split: if_splits sum.splits option.splits)
  have I: "I acc'"
    by (rule efold_preserves [OF acc']) (use "1.prems"(2,3) in auto)
  show ?case
  proof (cases "length entries < 100")
    case True
    with out I show ?thesis by simp
  next
    case False
    with out have "read_pages fetch_page check (page + 1) acc' = Inr out" by simp
    with "1.IH" [OF p(1,2) refl p(3) acc' False] I "1.prems"(3) show ?thesis by blast
  qed
qed

definition live_labels :: "repo_label list \<Rightarrow> bool" where
  "live_labels ls \<longleftrightarrow> distinct (map (normalizeName \<circ> name) ls) \<and>
     (\<forall>l\<in>set ls. name l \<noteq> [] \<and> length (name l) \<le> 50 \<and> to_upper (color l) = color l)"

lemma check_live_label_keeps: "check_live_label x ls = Inr ls' \<Longrightarrow> live_labels ls \<Longrightarrow> live_labels ls'"
  by (auto simp: check_live_label_def live_labels_def split: option.splits if_splits)

lemma check_live_item_keeps:
  "check_live_item repo label x is = Inr is' \<Longrightarrow> distinct (map itemKey is) \<Longrightarrow> distinct (map itemKey is')"
  by (auto simp: check_live_item_def split: option.splits if_splits)

section \<open>Laws of the worker pool\<close>

text \<open>The state of the pool as its steps keep it: every index below the cursor is either with one
  worker or stored, and a worker only leaves when no index is left.\<close>

definition pool_invariant :: "'a list \<Rightarrow> ('a \<Rightarrow> nat \<Rightarrow> 'b) \<Rightarrow> nat \<Rightarrow> 'b pool \<Rightarrow> bool" where
  "pool_invariant vs mapper workers p \<longleftrightarrow>
     length (results p) = length vs \<and> cursor p \<le> length vs \<and> distinct (running p) \<and>
     set (running p) \<subseteq> {..<cursor p} \<and>
     (\<forall>i<length vs. results p ! i =
        (if i < cursor p \<and> i \<notin> set (running p) then Some (mapper (vs ! i) i) else None)) \<and>
     idle p + length (running p) + gone p = workers \<and> (gone p > 0 \<longrightarrow> cursor p = length vs)"

lemma start_pool_invariant: "pool_invariant vs mapper (min c (length vs)) (start_pool vs c)"
  by (simp add: pool_invariant_def start_pool_def)

lemma pool_step_invariant:
  assumes "pool_step vs mapper p q" and "pool_invariant vs mapper n p"
  shows "pool_invariant vs mapper n q"
  using assms
proof (cases rule: pool_step.cases)
  case take_next
  then show ?thesis using assms(2) by (auto simp: pool_invariant_def less_Suc_eq)
next
  case (store i)
  have "length (remove1 i (running p)) = length (running p) - 1" "length (running p) > 0"
    using store(2) by (auto simp: length_remove1)
  then show ?thesis using store assms(2)
    by (auto simp: pool_invariant_def nth_list_update set_remove1_eq)
next
  case leave
  then show ?thesis using assms(2) by (auto simp: pool_invariant_def)
qed

lemma pool_run_invariant:
  "(pool_step vs mapper)\<^sup>*\<^sup>* (start_pool vs c) p \<Longrightarrow> pool_invariant vs mapper (min c (length vs)) p"
  by (induction rule: rtranclp_induct) (auto intro: start_pool_invariant pool_step_invariant)

definition pool_measure :: "'a list \<Rightarrow> 'b pool \<Rightarrow> nat" where
  "pool_measure vs p = 3 * (length vs - cursor p) + 2 * length (running p) + idle p"

lemma pool_step_decreases: "pool_step vs mapper p q \<Longrightarrow> pool_measure vs q < pool_measure vs p"
proof (induction rule: pool_step.cases)
  case (store i)
  then have "length (running p) = Suc (length (remove1 i (running p)))"
    by (metis One_nat_def Suc_pred length_pos_if_in_set length_remove1)
  with store show ?case by (simp add: pool_measure_def)
qed (auto simp: pool_measure_def)

lemma pool_progress: "\<not> pool_done p \<Longrightarrow> \<exists>q. pool_step vs mapper p q"
proof (cases "running p")
  case Nil
  assume "\<not> pool_done p"
  with Nil have "idle p > 0" by (simp add: pool_done_def)
  then show ?thesis by (cases "cursor p < length vs") (blast intro: take_next leave leI)+
next
  case (Cons i rest)
  then have "i \<in> set (running p)" by simp
  then show ?thesis by (blast intro: store)
qed

section \<open>Laws of the actions\<close>

lemma execute_from_prefix:
  "execute_from client n xs w = (r, w') \<Longrightarrow>
   \<exists>ys. prefix ys xs \<and> (r = Inr () \<longrightarrow> ys = xs) \<and>
     (\<forall>k m. r = Inl (k, m) \<longrightarrow> k = n + length ys \<and> ys \<noteq> [])"
proof (induction xs arbitrary: n w)
  case (Cons x xs)
  obtain q w1 where q: "client (api_call_of x) w = (q, w1)" by fastforce
  show ?case
  proof (cases q)
    case (Inl m)
    with Cons.prems q have "r = Inl (n + 1, m)" by simp
    then show ?thesis by (intro exI [of _ "[x]"]) simp
  next
    case (Inr u)
    with Cons.prems q have "execute_from client (n + 1) xs w1 = (r, w')" by simp
    with Cons.IH obtain ys where "prefix ys xs" "r = Inr () \<longrightarrow> ys = xs"
      "\<forall>k m. r = Inl (k, m) \<longrightarrow> k = n + 1 + length ys \<and> ys \<noteq> []" by blast
    then show ?thesis by (intro exI [of _ "x # ys"]) auto
  qed
qed (auto intro: exI [of _ "[]"])

lemma execute_and_verify_ok:
  "execute_and_verify client read replan leftover xs w = (Inr (), w') \<Longrightarrow>
   \<exists>st pl. read w' = Inr st \<and> replan st = Inr pl \<and> operations pl = [] \<and> blockers pl = []"
  by (auto simp: execute_and_verify_def split: prod.splits sum.splits if_splits)

section \<open>Properties\<close>

text \<open>C35: a request that changes the repository is sent once; a read is sent at most three times, again
  only after a failure that may pass, and its result is that of the last attempt.\<close>

theorem request_attempts_bounded:
  assumes "request parse verb fetch = (r, n)"
  shows "1 \<le> n \<and> n \<le> 3 \<and> (verb \<noteq> ''GET'' \<longrightarrow> n = 1) \<and> r = attempt_result parse (fetch n) \<and>
    (\<forall>k. 1 \<le> k \<and> k < n \<longrightarrow> (\<exists>e. attempt_result parse (fetch k) = Inl e \<and> transient e))"
  using request_from_spec [OF assms [unfolded request_def]] by simp

theorem request_attempts_bounded_witness:
  "1 \<le> (3::nat) \<and> (\<exists>e. attempt_result Some Abort_Error = Inl e \<and> transient e)"
proof -
  have "request Some ''GET'' (\<lambda>k. Abort_Error) = (Inl Aborted, 3)"
    by (simp add: request_def request_from.simps attempt_result_def transient_def)
  from request_attempts_bounded [OF this] show ?thesis by (auto dest: spec [of _ 1])
qed

text \<open>The labels read from the repository have names that differ even without case, are named
  within the bound, and have upper-case colours, however many pages they come on.\<close>

theorem listLabels_sound:
  assumes "listLabels fetch_page = Inr ls"
  shows "live_labels ls"
proof (rule read_pages_invariant [OF assms [unfolded listLabels_def]])
  show "live_labels []" by (simp add: live_labels_def)
qed (rule check_live_label_keeps)

theorem listLabels_sound_witness:
  "live_labels [\<lparr>name = ''bug'', color = ''FFFFFF'', description = []\<rparr>]"
proof -
  let ?raw = "Some \<lparr>raw_name = Some ''bug'', raw_repo_color = Some ''ffffff'', raw_repo_description = Some []\<rparr>"
  have "check_live_label ?raw [] = Inr [\<lparr>name = ''bug'', color = ''FFFFFF'', description = []\<rparr>]" by code_simp
  then have "listLabels (\<lambda>page. Inr (Some [?raw])) = Inr [\<lparr>name = ''bug'', color = ''FFFFFF'', description = []\<rparr>]"
    unfolding listLabels_def by (subst read_pages.simps) (simp add: MAX_PAGES_def)
  then show ?thesis by (rule listLabels_sound)
qed




text \<open>C26: applying verifies itself. When it succeeds, the repository as read afterwards is converged
  to the policy.\<close>

theorem apply_action_converges:
  assumes "apply_action client read rawp w = (Inr (), w')"
  shows "\<exists>p st. validatePolicy rawp = Inr p \<and> read w' = Inr st \<and>
    fst (buildClassificationAssessment p st) = [] \<and> (\<forall>l\<in>set (labels p). label_converged p st l)"
proof -
  obtain p and pl1 :: plan where p: "validatePolicy rawp = Inr p" and
    ev: "execute_and_verify client read (buildApplyPlan rawp) Apply_Remaining (operations pl1) w = (Inr (), w')"
    using assms by (auto simp: apply_action_def split: sum.splits if_splits)
  obtain st pl where st: "read w' = Inr st" "buildApplyPlan rawp st = Inr pl" "operations pl = []" "blockers pl = []"
    using execute_and_verify_ok [OF ev] by blast
  have "fst (buildClassificationAssessment p st) = []"
    using st p by (auto simp: buildApplyPlan_def split: prod.splits if_splits)
  moreover have "\<forall>l\<in>set (labels p). label_converged p st l"
    using st p fold_apply_none [of p st "labels p"] by (auto simp: buildApplyPlan_def split: prod.splits if_splits)
  ultimately show ?thesis using p st by blast
qed

theorem apply_action_converges_witness:
  "list_all (label_converged sample_policy sample_labels) (labels sample_policy)"
proof -
  have "apply_action (\<lambda>c w. (Inr (), w)) (\<lambda>w. Inr sample_labels) sample_raw_policy () = (Inr (), ())"
    by (simp add: apply_action_def sample_valid sample_apply execute_and_verify_def executeOperations_def)
  from apply_action_converges [OF this] sample_valid show ?thesis by (auto simp: list_all_iff)
qed

text \<open>C27: retiring is guarded. Whatever it changed, it changed after it had read a state that was
  converged to a valid policy, matched the snapshot of this repository, and in which every open item
  with a retired label also carried the replacement.\<close>

theorem retire_action_guarded:
  assumes "retire_action client read digest rawp rawSnapshot repo w = (r, w')" and "w' \<noteq> w"
  shows "\<exists>p st pl. validatePolicy rawp = Inr p \<and> read w = Inr st \<and>
    (\<forall>l\<in>set (labels p). label_converged p st l) \<and>
    assertRetirementSnapshotMatches digest rawSnapshot repo st (map retired_name (retiredLabels p)) = Inr () \<and>
    buildRetirementPlan rawp st = Inr pl \<and> blockers pl = [] \<and>
    (\<exists>q. executeOperations client (operations pl) w = (q, w'))"
proof -
  obtain p st a pl where p: "validatePolicy rawp = Inr p" and st: "read w = Inr st"
    and a: "buildApplyPlan rawp st = Inr a" "operations a = []" "blockers a = []"
    and snap: "assertRetirementSnapshotMatches digest rawSnapshot repo st (map retired_name (retiredLabels p)) = Inr ()"
    and pl: "buildRetirementPlan rawp st = Inr pl" "blockers pl = []"
    and ev: "execute_and_verify client read (buildRetirementPlan rawp) Retire_Remaining (operations pl) w = (r, w')"
    using assms by (auto simp: retire_action_def res_simps split: sum.splits if_splits)
  have "\<forall>l\<in>set (labels p). label_converged p st l"
    using a p fold_apply_none [of p st "labels p"] by (auto simp: buildApplyPlan_def split: prod.splits if_splits)
  moreover have "\<exists>q. executeOperations client (operations pl) w = (q, w')"
    using ev by (auto simp: execute_and_verify_def split: prod.splits sum.splits if_splits)
  ultimately show ?thesis using p st snap pl by blast
qed

theorem retire_action_guarded_witness:
  "\<exists>pl. buildRetirementPlan sample_raw_policy sample_labels = Inr pl \<and> blockers pl = []"
proof -
  let ?snap = "Some \<lparr>snapshotVersion = Some 1, raw_repository = Some ''o/r'',
     raw_state_labels = Some [Some \<lparr>raw_name = Some ''type: bug'', raw_repo_color = Some ''D73A4A'',
       raw_repo_description = Some ''A defect''\<rparr>, Some \<lparr>raw_name = Some ''bug'', raw_repo_color = Some ''FFFFFF'',
       raw_repo_description = Some []\<rparr>], raw_associations = Some []\<rparr>"
  have m: "assertRetirementSnapshotMatches (\<lambda>x. []) ?snap ''o/r'' sample_labels
      (map retired_name (retiredLabels sample_policy)) = Inr ()" by code_simp
  have "\<exists>r. retire_action (\<lambda>c w. (Inr (), w + 1)) (\<lambda>w. Inr sample_labels) (\<lambda>x. []) sample_raw_policy ?snap ''o/r'' (0::nat) = (r, 1)"
    using m by (simp add: retire_action_def sample_valid sample_apply sample_retire execute_and_verify_def
        executeOperations_def)
  then obtain r where "retire_action (\<lambda>c w. (Inr (), w + 1)) (\<lambda>w. Inr sample_labels) (\<lambda>x. []) sample_raw_policy ?snap ''o/r'' (0::nat) = (r, 1)"
    by blast
  from retire_action_guarded [OF this] show ?thesis by auto
qed

end
