(* ===== verification/Pr_Limit.thy ===== *)
theory Pr_Limit
  imports Js_Prelude
begin

text \<open>
  \<open>scripts/ci/enforce-pr-limit.js\<close>: how many pull requests a contributor may have open, and
  closing the newest of those in excess. GitHub is a parameter, functions on an arbitrary world
  \<open>'w\<close> that may fail, and so is \<open>JSON.parse\<close> of the overrides; what is logged is left out, the
  warnings about the configuration are values.
\<close>

section \<open>Limits\<close>

definition DEFAULT_MAX_OPEN_PRS :: int where
  "DEFAULT_MAX_OPEN_PRS = 2"

definition MAX_SAFE :: int where
  "MAX_SAFE = 9007199254740991"

definition LIMIT_COMMENT_MARKER :: string where
  "LIMIT_COMMENT_MARKER = ''<!-- contributor-pr-limit -->''"

definition MANUAL_ONLY_LABEL :: string where
  "MANUAL_ONLY_LABEL = ''workflow: manual only''"

datatype limit_warning =
    Not_Positive_Integer | Not_Json | Not_An_Object | Invalid_Override string | Duplicate_Override string

text \<open>\<open>/^[1-9]\d*$/\<close> on the trimmed value, and the integer when it is a safe one.\<close>

definition positive_numeral :: "string \<Rightarrow> bool" where
  "positive_numeral s = (case s of [] \<Rightarrow> False | c # r \<Rightarrow> is_digit c \<and> c \<noteq> CHR ''0'' \<and> list_all is_digit r)"

definition parsePositiveInteger :: "string option \<Rightarrow> int option" where
  "parsePositiveInteger rawValue =
     (let v = trim (case rawValue of None \<Rightarrow> [] | Some s \<Rightarrow> s);
          n = int (digits_value 0 v)
      in if positive_numeral v \<and> n \<le> MAX_SAFE then Some n else None)"

definition parseMaxOpenPullRequests :: "string option \<Rightarrow> int \<times> limit_warning list" where
  "parseMaxOpenPullRequests rawValue =
     (case parsePositiveInteger rawValue of
        Some n \<Rightarrow> (n, [])
      | None \<Rightarrow> (DEFAULT_MAX_OPEN_PRS, [Not_Positive_Integer]))"

text \<open>What \<open>JSON.parse\<close> made of the overrides: an object with, for each key, the number it holds
  when that is an integer.\<close>

datatype overrides_json = Other_Json | Json_Object "(string \<times> int option) list"

definition user_char :: "char \<Rightarrow> bool" where
  "user_char c = (is_alnum c \<or> c = CHR ''-'')"

text \<open>\<open>/^[a-z\d](?:[a-z\d-]{0,37}[a-z\d])?$/i\<close>.\<close>

definition valid_username :: "string \<Rightarrow> bool" where
  "valid_username s =
     (s \<noteq> [] \<and> length s \<le> 39 \<and> is_alnum (hd s) \<and> is_alnum (last s) \<and> list_all user_char s)"

definition valid_limit :: "int option \<Rightarrow> bool" where
  "valid_limit v = (case v of None \<Rightarrow> False | Some n \<Rightarrow> 1 \<le> n \<and> n \<le> MAX_SAFE)"

definition add_override ::
  "string \<times> int option \<Rightarrow> (string, int) jsmap \<times> limit_warning list \<Rightarrow> (string, int) jsmap \<times> limit_warning list" where
  "add_override e acc =
     (case (e, acc) of ((user, v), (m, ws)) \<Rightarrow>
        if \<not> valid_username user \<or> \<not> valid_limit v then (m, ws @ [Invalid_Override user])
        else if map_get m (to_lower user) \<noteq> None then (m, ws @ [Duplicate_Override user])
        else (map_set (to_lower user) (the v) m, ws))"

definition parsePullRequestLimitOverrides ::
  "(string \<Rightarrow> overrides_json option) \<Rightarrow> string option \<Rightarrow> (string, int) jsmap \<times> limit_warning list" where
  "parsePullRequestLimitOverrides parse rawValue =
     (let v = trim (case rawValue of None \<Rightarrow> [] | Some s \<Rightarrow> s)
      in if v = [] then ([], [])
         else (case parse v of
                 None \<Rightarrow> ([], [Not_Json])
               | Some Other_Json \<Rightarrow> ([], [Not_An_Object])
               | Some (Json_Object es) \<Rightarrow> fold add_override es ([], [])))"

datatype limit_source = Personal_Override | Fallback | Global_Variable

definition resolvePullRequestLimit ::
  "(string \<Rightarrow> overrides_json option) \<Rightarrow> string \<Rightarrow> string option \<Rightarrow> string option
     \<Rightarrow> (int \<times> limit_source) \<times> limit_warning list" where
  "resolvePullRequestLimit parse author rawLimit rawOverrides =
     (case (parseMaxOpenPullRequests rawLimit, parsePullRequestLimitOverrides parse rawOverrides) of
        ((globalLimit, w1), (overrides, w2)) \<Rightarrow>
          (case map_get overrides (to_lower author) of
             Some n \<Rightarrow> (n, Personal_Override)
           | None \<Rightarrow> (globalLimit,
                     if parsePositiveInteger rawLimit = None then Fallback else Global_Variable),
           w1 @ w2))"

section \<open>Pull requests\<close>

record pull_request =
  pr_number :: int
  pr_author :: "string option"
  pr_bot :: bool
  pr_labels :: "string list"

definition hasLabel :: "pull_request \<Rightarrow> string \<Rightarrow> bool" where
  "hasLabel p n = (n \<in> set (pr_labels p))"

definition plural :: "int \<Rightarrow> string" where
  "plural n = (if n = 1 then [] else ''s'')"

definition buildLimitComment :: "int \<Rightarrow> int \<Rightarrow> string" where
  "buildLimitComment limit cnt =
     ''Thanks for contributing. This repository allows a maximum of **'' @ int_str limit @
     '' active pull request'' @ plural limit @ '' per contributor**. You currently have **'' @
     int_str cnt @ '' open pull request'' @ plural cnt @
     ''**, so this pull request is being closed automatically. Please finish or close one of your existing pull requests before opening another.'' @
     [CHR 10, CHR 10] @ LIMIT_COMMENT_MARKER"

record comment =
  comment_id :: int
  comment_author :: "string option"
  comment_body :: "string option"

record 'w github =
  list_comments :: "int \<Rightarrow> 'w \<Rightarrow> (string + comment list) \<times> 'w"
  create_comment :: "int \<Rightarrow> string \<Rightarrow> 'w \<Rightarrow> (string + unit) \<times> 'w"
  update_comment :: "int \<Rightarrow> string \<Rightarrow> 'w \<Rightarrow> (string + unit) \<times> 'w"
  close_request :: "int \<Rightarrow> 'w \<Rightarrow> (string + unit) \<times> 'w"

definition limit_comment :: "comment list \<Rightarrow> comment option" where
  "limit_comment cs =
     find (\<lambda>c. comment_author c = Some ''github-actions[bot]'' \<and>
               (case comment_body c of None \<Rightarrow> False | Some b \<Rightarrow> str_includes LIMIT_COMMENT_MARKER b)) cs"

definition ensureLimitComment :: "'w github \<Rightarrow> string \<Rightarrow> int \<Rightarrow> 'w \<Rightarrow> (string + unit) \<times> 'w" where
  "ensureLimitComment gh body n w =
     (case list_comments gh n w of
        (Inl e, w') \<Rightarrow> (Inl e, w')
      | (Inr cs, w') \<Rightarrow>
          (case limit_comment cs of
             None \<Rightarrow> create_comment gh n body w'
           | Some c \<Rightarrow> if comment_body c \<noteq> Some body then update_comment gh (comment_id c) body w'
                       else (Inr (), w')))"

definition selectExcessPullRequests :: "int \<Rightarrow> pull_request list \<Rightarrow> pull_request list" where
  "selectExcessPullRequests limit open_requests =
     drop (nat limit) (js_sort (\<lambda>l r. pr_number l - pr_number r) open_requests)"

text \<open>Closing, with as many attempts as are left.\<close>

fun close_attempts :: "'w github \<Rightarrow> int \<Rightarrow> nat \<Rightarrow> string \<Rightarrow> 'w \<Rightarrow> (string + unit) \<times> 'w" where
  "close_attempts gh n 0 lastError w = (Inl lastError, w)"
| "close_attempts gh n (Suc k) lastError w =
     (case close_request gh n w of
        (Inr u, w') \<Rightarrow> (Inr (), w')
      | (Inl e, w') \<Rightarrow> close_attempts gh n k e w')"

definition closePullRequestWithRetries :: "'w github \<Rightarrow> int \<Rightarrow> 'w \<Rightarrow> (string + unit) \<times> 'w" where
  "closePullRequestWithRetries gh n w = close_attempts gh n 3 [] w"

section \<open>Enforcement\<close>

definition countable :: "pull_request \<Rightarrow> bool" where
  "countable p = ((case pr_author p of None \<Rightarrow> False | Some a \<Rightarrow> a \<noteq> []) \<and> \<not> pr_bot p)"

definition author_key :: "pull_request \<Rightarrow> string" where
  "author_key p = to_lower (case pr_author p of None \<Rightarrow> [] | Some a \<Rightarrow> a)"

definition add_to_author ::
  "pull_request \<Rightarrow> (string, string \<times> pull_request list) jsmap \<Rightarrow> (string, string \<times> pull_request list) jsmap" where
  "add_to_author p m =
     (if \<not> countable p then m
      else (case map_get m (author_key p) of
              None \<Rightarrow> map_set (author_key p) (the (pr_author p), [p]) m
            | Some (a, ps) \<Rightarrow> map_set (author_key p) (a, ps @ [p]) m))"

definition by_author :: "pull_request list \<Rightarrow> (string, string \<times> pull_request list) jsmap" where
  "by_author ps = fold add_to_author ps []"

record author_result =
  ar_author :: string
  ar_closed :: "int list"
  ar_count :: int
  ar_limit :: int

fun close_excess :: "'w github \<Rightarrow> string \<Rightarrow> pull_request list \<Rightarrow> 'w \<Rightarrow> (string + int list) \<times> 'w" where
  "close_excess gh body [] w = (Inr [], w)"
| "close_excess gh body (p # ps) w =
     (if hasLabel p MANUAL_ONLY_LABEL then close_excess gh body ps w
      else (case ensureLimitComment gh body (pr_number p) w of
              (Inl e, w1) \<Rightarrow> (Inl e, w1)
            | (Inr u, w1) \<Rightarrow>
                (case closePullRequestWithRetries gh (pr_number p) w1 of
                   (Inl e, w2) \<Rightarrow> (Inl e, w2)
                 | (Inr u, w2) \<Rightarrow>
                     (case close_excess gh body ps w2 of
                        (Inl e, w3) \<Rightarrow> (Inl e, w3)
                      | (Inr ns, w3) \<Rightarrow> (Inr (pr_number p # ns), w3)))))"

fun enforce_authors ::
  "'w github \<Rightarrow> (string \<Rightarrow> int) \<Rightarrow> (string \<times> pull_request list) list \<Rightarrow> 'w
     \<Rightarrow> (string + author_result list) \<times> 'w" where
  "enforce_authors gh limit_of [] w = (Inr [], w)"
| "enforce_authors gh limit_of ((a, ps) # rest) w =
     (let limit = limit_of a; body = buildLimitComment limit (int (length ps))
      in case close_excess gh body (selectExcessPullRequests limit ps) w of
           (Inl e, w1) \<Rightarrow> (Inl e, w1)
         | (Inr closed, w1) \<Rightarrow>
             (case enforce_authors gh limit_of rest w1 of
                (Inl e, w2) \<Rightarrow> (Inl e, w2)
              | (Inr rs, w2) \<Rightarrow>
                  (Inr (\<lparr>ar_author = a, ar_closed = closed, ar_count = int (length ps), ar_limit = limit\<rparr> # rs), w2)))"

definition enforcePullRequestLimits ::
  "'w github \<Rightarrow> (string \<Rightarrow> overrides_json option) \<Rightarrow> string option \<Rightarrow> string option
     \<Rightarrow> ('w \<Rightarrow> (string + pull_request list) \<times> 'w) \<Rightarrow> 'w \<Rightarrow> (string + author_result list) \<times> 'w" where
  "enforcePullRequestLimits gh parse rawLimit rawOverrides list_open w =
     (case list_open w of
        (Inl e, w') \<Rightarrow> (Inl e, w')
      | (Inr ps, w') \<Rightarrow>
          enforce_authors gh (\<lambda>a. fst (fst (resolvePullRequestLimit parse a rawLimit rawOverrides)))
            (map snd (by_author ps)) w')"

section \<open>Laws\<close>

interpretation pr_order: consistent_comparator "\<lambda>l r. pr_number l - pr_number r"
  by unfold_locales auto

lemma excess_older:
  assumes "p \<in> set (selectExcessPullRequests limit ps)"
  shows "p \<in> set ps \<and> nat limit \<le> length (filter (\<lambda>q. pr_number q \<le> pr_number p) ps)"
proof -
  let ?s = "js_sort (\<lambda>l r. pr_number l - pr_number r) ps"
  have p: "p \<in> set (drop (nat limit) ?s)" using assms by (simp add: selectExcessPullRequests_def)
  then have mem: "p \<in> set ps" using in_set_dropD by fastforce
  have "sorted_wrt (\<lambda>l r. pr_number l - pr_number r \<le> 0) (take (nat limit) ?s @ drop (nat limit) ?s)"
    using pr_order.sorted_sort [of ps] by simp
  then have "\<forall>q\<in>set (take (nat limit) ?s). pr_number q \<le> pr_number p"
    using p unfolding sorted_wrt_append by auto
  then have "filter (\<lambda>q. pr_number q \<le> pr_number p) (take (nat limit) ?s) = take (nat limit) ?s"
    by (simp add: filter_id_conv)
  moreover have "length (filter (\<lambda>q. pr_number q \<le> pr_number p) (take (nat limit) ?s)) \<le>
      length (filter (\<lambda>q. pr_number q \<le> pr_number p) ?s)"
    by (metis append_take_drop_id filter_append length_append le_add1)
  moreover have "length (take (nat limit) ?s) = nat limit"
    using p by (cases "nat limit \<le> length ?s") auto
  moreover have "length (filter P ?s) = length (filter P ps)" for P
    by (metis mset_filter mset_js_sort size_mset)
  ultimately show ?thesis using mem by simp
qed

definition of_author :: "string \<Rightarrow> pull_request list \<Rightarrow> pull_request list" where
  "of_author k ps = filter (\<lambda>p. countable p \<and> author_key p = k) ps"

definition grouped :: "pull_request list \<Rightarrow> (string, string \<times> pull_request list) jsmap \<Rightarrow> bool" where
  "grouped ps m \<longleftrightarrow> distinct (map_keys m) \<and>
     (\<forall>k. case map_get m k of
        None \<Rightarrow> of_author k ps = []
      | Some (a, qs) \<Rightarrow> qs = of_author k ps \<and> to_lower a = k)"

lemma grouped_step: "grouped ps m \<Longrightarrow> grouped (ps @ [p]) (add_to_author p m)"
proof (cases "countable p")
  case False
  then show "grouped ps m \<Longrightarrow> grouped (ps @ [p]) (add_to_author p m)"
    by (simp add: grouped_def add_to_author_def of_author_def cong: option.case_cong)
next
  case True
  then obtain a where a: "pr_author p = Some a" by (auto simp: countable_def split: option.splits)
  assume g: "grouped ps m"
  let ?k = "author_key p"
  have k: "case map_get m k of None \<Rightarrow> of_author k ps = [] | Some (b, qs) \<Rightarrow> qs = of_author k ps \<and> to_lower b = k" for k
    using g by (simp add: grouped_def)
  have add: "of_author k (ps @ [p]) = of_author k ps @ (if k = ?k then [p] else [])" for k
    using True by (simp add: of_author_def)
  have "distinct (map_keys (add_to_author p m))"
    using g True by (auto simp: grouped_def add_to_author_def jsm.distinct_keys_put split: option.split)
  moreover have "case map_get (add_to_author p m) k of None \<Rightarrow> of_author k (ps @ [p]) = []
      | Some (b, qs) \<Rightarrow> qs = of_author k (ps @ [p]) \<and> to_lower b = k" for k
    using k [of k] k [of ?k] True a
    by (cases "k = ?k") (auto simp: add_to_author_def add jsm.get_put author_key_def split: option.splits)
  ultimately show "grouped (ps @ [p]) (add_to_author p m)" by (simp add: grouped_def)
qed

lemma grouped_fold: "grouped ps m \<Longrightarrow> grouped (ps @ qs) (fold add_to_author qs m)"
proof (induction qs arbitrary: ps m)
  case (Cons q qs)
  from Cons.IH [OF grouped_step [OF Cons.prems]] show ?case by simp
qed simp

lemma by_author_member:
  assumes "(a, qs) \<in> set (map snd (by_author ps))"
  shows "qs = of_author (to_lower a) ps"
proof -
  have g: "grouped ps (by_author ps)"
    using grouped_fold [of "[]" "[]" ps] by (simp add: by_author_def grouped_def of_author_def map_keys_def)
  from assms obtain k where "(k, a, qs) \<in> set (by_author ps)" by auto
  moreover have "distinct (map fst (by_author ps))" using g by (simp add: grouped_def map_keys_def)
  ultimately have "map_get (by_author ps) k = Some (a, qs)" by (simp add: map_get_def)
  moreover have "case map_get (by_author ps) k of None \<Rightarrow> of_author k ps = []
      | Some (a, qs) \<Rightarrow> qs = of_author k ps \<and> to_lower a = k"
    using g by (simp add: grouped_def)
  ultimately show ?thesis by auto
qed

lemma close_excess_numbers:
  "close_excess gh body ps w = (Inr ns, w') \<Longrightarrow>
   ns = map pr_number (filter (\<lambda>p. \<not> hasLabel p MANUAL_ONLY_LABEL) ps)"
  by (induction ps arbitrary: w ns) (auto split: prod.splits sum.splits if_splits)

lemma enforce_authors_results:
  "enforce_authors gh limit_of es w = (Inr rs, w') \<Longrightarrow>
   map ar_author rs = map fst es \<and>
   (\<forall>r\<in>set rs. \<exists>qs. (ar_author r, qs) \<in> set es \<and> ar_limit r = limit_of (ar_author r) \<and>
      ar_closed r = map pr_number (filter (\<lambda>p. \<not> hasLabel p MANUAL_ONLY_LABEL)
        (selectExcessPullRequests (ar_limit r) qs)))"
proof (induction es arbitrary: w rs)
  case (Cons e es)
  obtain a ps where e: "e = (a, ps)" by (cases e)
  let ?body = "buildLimitComment (limit_of a) (int (length ps))"
  let ?ps = "selectExcessPullRequests (limit_of a) ps"
  from Cons.prems obtain closed w1 rs' where c: "close_excess gh ?body ?ps w = (Inr closed, w1)"
    and r: "enforce_authors gh limit_of es w1 = (Inr rs', w')"
    and rs: "rs = \<lparr>ar_author = a, ar_closed = closed, ar_count = int (length ps), ar_limit = limit_of a\<rparr> # rs'"
    by (auto simp: e Let_def split: prod.splits sum.splits)
  from Cons.IH [OF r] close_excess_numbers [OF c] show ?case by (auto simp: rs e)
qed simp

definition limits_ok :: "(string, int) jsmap \<Rightarrow> bool" where
  "limits_ok m \<longleftrightarrow> (\<forall>k n. map_get m k = Some n \<longrightarrow> valid_limit (Some n))"

lemma limits_ok_put: "limits_ok m \<Longrightarrow> valid_limit (Some n) \<Longrightarrow> limits_ok (map_set k n m)"
  by (simp add: limits_ok_def jsm.get_put)

lemma add_override_ok: "limits_ok (fst acc) \<Longrightarrow> limits_ok (fst (add_override e acc))"
proof -
  obtain user v m ws where e: "e = (user, v)" "acc = (m, ws)" by (cases e; cases acc)
  assume "limits_ok (fst acc)"
  then show ?thesis
    by (cases v) (simp_all add: e add_override_def limits_ok_put valid_limit_def)
qed

lemma fold_override_ok: "limits_ok (fst acc) \<Longrightarrow> limits_ok (fst (fold add_override es acc))"
  by (induction es arbitrary: acc) (simp_all add: add_override_ok)

lemma overrides_ok: "limits_ok (fst (parsePullRequestLimitOverrides parse raw))"
proof -
  have "limits_ok []" by (simp add: limits_ok_def)
  then show ?thesis
    by (simp add: parsePullRequestLimitOverrides_def Let_def fold_override_ok
        split: option.split overrides_json.split)
qed

lemma digits_value_positive: "1 \<le> k \<Longrightarrow> 1 \<le> digits_value k s"
  by (induction s arbitrary: k) auto

lemma parsePositiveInteger_ok: "parsePositiveInteger v = Some n \<Longrightarrow> valid_limit (Some n)"
proof -
  let ?t = "trim (case v of None \<Rightarrow> [] | Some s \<Rightarrow> s)"
  assume "parsePositiveInteger v = Some n"
  then have t: "positive_numeral ?t" "n = int (digits_value 0 ?t)" "n \<le> MAX_SAFE"
    by (auto simp: parsePositiveInteger_def Let_def split: if_splits)
  obtain c r where c: "?t = c # r" "is_digit c" "c \<noteq> CHR ''0''"
    using t(1) by (auto simp: positive_numeral_def split: list.splits)
  have "code_unit c \<noteq> code_unit (CHR ''0'')" using c(3) by (metis of_char_eq_iff)
  then have "1 \<le> code_unit c - 48" using c(2) by (simp add: is_digit_def) linarith
  from digits_value_positive [OF this, of r] have "1 \<le> digits_value 0 ?t" unfolding c(1) by simp
  with t(2,3) show ?thesis by (simp add: valid_limit_def)
qed

lemma parseMaxOpenPullRequests_ok: "valid_limit (Some (fst (parseMaxOpenPullRequests raw)))"
proof (cases "parsePositiveInteger raw")
  case None
  then show ?thesis
    by (simp add: parseMaxOpenPullRequests_def valid_limit_def DEFAULT_MAX_OPEN_PRS_def MAX_SAFE_def)
next
  case (Some n)
  with parsePositiveInteger_ok [OF Some] show ?thesis by (simp add: parseMaxOpenPullRequests_def)
qed

section \<open>Properties\<close>

text \<open>The limit of a contributor is at least one and a safe integer, whatever the variables hold:
  the default, the global one, or a personal override.\<close>

theorem limit_is_positive:
  "valid_limit (Some (fst (fst (resolvePullRequestLimit parse author rawLimit rawOverrides))))"
proof -
  obtain g w1 m w2 where p: "parseMaxOpenPullRequests rawLimit = (g, w1)"
      "parsePullRequestLimitOverrides parse rawOverrides = (m, w2)"
    by (cases "parseMaxOpenPullRequests rawLimit"; cases "parsePullRequestLimitOverrides parse rawOverrides")
  have "valid_limit (Some g)" "limits_ok m"
    using parseMaxOpenPullRequests_ok [of rawLimit] overrides_ok [of parse rawOverrides] by (simp_all add: p)
  then show ?thesis
    by (cases "map_get m (to_lower author)") (simp_all add: resolvePullRequestLimit_def p limits_ok_def)
qed


definition sample_pr :: "int \<Rightarrow> string list \<Rightarrow> pull_request" where
  "sample_pr n ls = \<lparr>pr_number = n, pr_author = Some ''Ann'', pr_bot = False, pr_labels = ls\<rparr>"

definition sample_github :: "int list github" where
  "sample_github = \<lparr>list_comments = (\<lambda>n w. (Inr [], w)), create_comment = (\<lambda>n b w. (Inr (), w)),
     update_comment = (\<lambda>i b w. (Inr (), w)), close_request = (\<lambda>n w. (Inr (), n # w))\<rparr>"


end
