(* ===== verification/Integration_Paths.thy ===== *)
theory Integration_Paths
  imports Node_Path
begin

text \<open>
  \<open>scripts/lib/port-integrations.js\<close>, the part that reads paths, file modes, package formats
  and targets out of integration manifests, and the registry in which every install or package
  target is claimed once. A manifest value that may have any JSON type is a datatype with one
  constructor per type the code tells apart.
\<close>

unbundle bit_operations_syntax

datatype path_error =
    Not_A_Relative_Path | Not_Inside | Targets_Root | Invalid_Path | Path_Not_Found
  | Unsafe_Component string | Bad_Entry nat | Bad_Entry_Name nat
  | Bad_Mode | Special_Mode_Bits | Bad_Format | Formats_Not_Array
  | Dependencies_Not_Object | Dependencies_Not_Array string | Bad_Dependency string
  | Target_Conflict string string string
  | Bad_Integration_Id | Ids_Not_Array | Duplicate_Integration string

section \<open>Relative paths\<close>

definition path_separator :: "char \<Rightarrow> bool" where
  "path_separator c = (c = CHR ''/'' \<or> c = CHR 92)"

definition relativePathParts :: "string \<Rightarrow> string list" where
  "relativePathParts p = filter (\<lambda>part. part \<noteq> ''.'') (split_class path_separator [] p)"

text \<open>\<open>None\<close> is a value that is no string.\<close>

definition normalizeInstallRelativePath :: "string option \<Rightarrow> path_error + string" where
  "normalizeInstallRelativePath v =
     (case v of
        None \<Rightarrow> Inl Not_A_Relative_Path
      | Some p \<Rightarrow>
          if trim p = [] then Inl Not_A_Relative_Path
          else let parts = relativePathParts p in
            if is_absolute p \<or> dotdot \<in> set parts then Inl Not_Inside
            else if parts = [] then Inl Targets_Root
            else Inr (join ''/'' parts))"

text \<open>The check on a path relative to a directory; both are given by their segments.\<close>

definition leaves :: "string list \<Rightarrow> string list \<Rightarrow> bool" where
  "leaves dir target =
     (let rel = path_relative dir target in starts_with ''..'' rel \<or> is_absolute rel)"

definition resolveInstallRelativePath ::
  "string \<Rightarrow> string \<Rightarrow> string option \<Rightarrow> path_error + string \<times> string list" where
  "resolveInstallRelativePath cwd installDir v =
     ebind (normalizeInstallRelativePath v) (\<lambda>normalized.
       let resolved = resolve_segments cwd [installDir, normalized] in
       if leaves (resolve_segments cwd [installDir]) resolved then Inl Not_Inside
       else Inr (normalized, resolved))"

definition resolveIntegrationRelativePath ::
  "(string list \<Rightarrow> bool) \<Rightarrow> string \<Rightarrow> string \<Rightarrow> string option \<Rightarrow> bool \<Rightarrow> path_error + string list" where
  "resolveIntegrationRelativePath exists cwd dir v mustExist =
     (case v of
        None \<Rightarrow> Inl Invalid_Path
      | Some p \<Rightarrow>
          if trim p = [] then Inl Invalid_Path
          else if is_absolute p \<or> dotdot \<in> set (relativePathParts p) then Inl Not_Inside
          else let resolved = resolve_segments cwd [dir, p] in
            if leaves (resolve_segments cwd [dir]) resolved then Inl Not_Inside
            else if mustExist \<and> \<not> exists resolved then Inl Path_Not_Found
            else Inr resolved)"

definition pathStaysInside :: "string list \<Rightarrow> string list \<Rightarrow> bool" where
  "pathStaysInside rt candidate =
     (let rel = path_relative rt candidate in
      rel = [] \<or> (rel \<noteq> dotdot \<and> \<not> starts_with ''../'' rel \<and> \<not> is_absolute rel))"

section \<open>File modes\<close>

datatype mode_value = Mode_Absent | Mode_Text string | Mode_Other

fun octal_value :: "nat \<Rightarrow> string \<Rightarrow> nat" where
  "octal_value acc [] = acc"
| "octal_value acc (c # s) = octal_value (8 * acc + (code_unit c - 48)) s"

definition parseFileMode :: "mode_value \<Rightarrow> nat \<Rightarrow> path_error + nat" where
  "parseFileMode v fallback =
     (case v of
        Mode_Absent \<Rightarrow> Inr fallback
      | Mode_Other \<Rightarrow> Inl Bad_Mode
      | Mode_Text s \<Rightarrow>
          let raw = trim s in
          if (length raw = 3 \<or> length raw = 4) \<and> list_all is_octal raw then Inr (octal_value 0 raw)
          else Inl Bad_Mode)"

text \<open>\<open>(mode & 0o7000) !== 0\<close>: the set-user-id, set-group-id and sticky bits.\<close>

definition has_special_bits :: "nat \<Rightarrow> bool" where
  "has_special_bits m = (m AND 0xE00 \<noteq> 0)"

lemma special_bits_mask: "(m :: nat) AND 0xE00 = push_bit 9 (take_bit 3 (drop_bit 9 m))"
proof -
  have "(0xE00 :: nat) = push_bit 9 (mask 3)" by (simp add: mask_eq_exp_minus_1)
  moreover have "m AND push_bit 9 (mask 3) = push_bit 9 (take_bit 3 (drop_bit 9 m))"
    by (rule bit_eqI) (auto simp: bit_simps)
  ultimately show ?thesis by simp
qed

lemma has_special_bits_code [code]: "has_special_bits m \<longleftrightarrow> m div 512 mod 8 \<noteq> 0"
  unfolding has_special_bits_def special_bits_mask
  by (simp add: push_bit_eq_mult take_bit_eq_mod drop_bit_eq_div)

text \<open>The default mode is \<open>0o644\<close>.\<close>

definition parsePackageResourceMode :: "mode_value \<Rightarrow> path_error + nat" where
  "parsePackageResourceMode v =
     ebind (parseFileMode v 0x1A4) (\<lambda>m. if has_special_bits m then Inl Special_Mode_Bits else Inr m)"

fun octal_str :: "nat \<Rightarrow> string" where
  "octal_str n = (if n < 8 then [char_of (48 + n)] else octal_str (n div 8) @ [char_of (48 + n mod 8)])"

declare octal_str.simps [simp del]

definition modeString :: "nat option \<Rightarrow> string option" where
  "modeString m = map_option (\<lambda>n. replicate (4 - length (octal_str n)) CHR ''0'' @ octal_str n) m"

section \<open>Lists of entries\<close>

datatype flag = Flag_Absent | Flag bool | Flag_Other

datatype formats_value = Formats_Absent | Formats "string option list" | Formats_Other

record entry_fields =
  e_source :: "string option"
  e_path :: "string option"
  e_name :: "string option"
  e_target :: "string option"
  e_mode :: mode_value
  e_retain :: flag
  e_formats :: formats_value

datatype raw_entry = Entry_Text string | Entry_Object entry_fields | Entry_Other

datatype entry_list = No_Entries | Single raw_entry | Several "raw_entry list"

record normal_entry =
  ne_source :: "string list"
  ne_name :: "string option"
  ne_fields :: entry_fields

definition no_fields :: entry_fields where
  "no_fields = \<lparr>e_source = None, e_path = None, e_name = None, e_target = None, e_mode = Mode_Absent,
     e_retain = Flag_Absent, e_formats = Formats_Absent\<rparr>"

definition or_else :: "'a option \<Rightarrow> 'a option \<Rightarrow> 'a option" where
  "or_else a b = (case a of None \<Rightarrow> b | Some x \<Rightarrow> Some x)"

definition last_segment :: "string list \<Rightarrow> string" where
  "last_segment ss = (case ss of [] \<Rightarrow> [] | _ \<Rightarrow> last ss)"

definition bad_entry_name :: "string \<Rightarrow> bool" where
  "bad_entry_name n =
     (n = [] \<or> is_absolute n \<or> dotdot \<in> set (relativePathParts n) \<or> CHR ''/'' \<in> set n \<or> CHR 92 \<in> set n)"

definition normalize_entry ::
  "(string list \<Rightarrow> bool) \<Rightarrow> string \<Rightarrow> string \<Rightarrow> nat \<times> raw_entry \<Rightarrow> path_error + normal_entry" where
  "normalize_entry exists cwd dir ie =
     (case ie of (index, e) \<Rightarrow>
        (case e of
           Entry_Text s \<Rightarrow>
             ebind (resolveIntegrationRelativePath exists cwd dir (Some s) True) (\<lambda>src.
               Inr \<lparr>ne_source = src, ne_name = None, ne_fields = no_fields\<rparr>)
         | Entry_Other \<Rightarrow> Inl (Bad_Entry index)
         | Entry_Object f \<Rightarrow>
             ebind (resolveIntegrationRelativePath exists cwd dir (or_else (e_source f) (e_path f)) True) (\<lambda>src.
               let nm = (case e_name f of None \<Rightarrow> last_segment src | Some n \<Rightarrow> n) in
               if bad_entry_name nm then Inl (Bad_Entry_Name index)
               else Inr \<lparr>ne_source = src, ne_name = Some nm, ne_fields = f\<rparr>)))"

definition entries_of :: "entry_list \<Rightarrow> raw_entry list" where
  "entries_of v = (case v of No_Entries \<Rightarrow> [] | Single e \<Rightarrow> [e] | Several es \<Rightarrow> es)"

definition normalizeEntryList ::
  "(string list \<Rightarrow> bool) \<Rightarrow> string \<Rightarrow> string \<Rightarrow> entry_list \<Rightarrow> path_error + normal_entry list" where
  "normalizeEntryList exists cwd dir v = emap (normalize_entry exists cwd dir) (enumerate 0 (entries_of v))"

section \<open>Package formats, targets and dependencies\<close>

definition SUPPORTED_PACKAGE_FORMATS :: "string list" where
  "SUPPORTED_PACKAGE_FORMATS = [''deb'', ''rpm'', ''pacman'']"

definition normalizePackageFormat :: "string option \<Rightarrow> path_error + string" where
  "normalizePackageFormat v =
     (case v of None \<Rightarrow> Inl Bad_Format
      | Some s \<Rightarrow> if s \<in> set SUPPORTED_PACKAGE_FORMATS then Inr s else Inl Bad_Format)"

definition normalizePackageFormats :: "formats_value \<Rightarrow> path_error + string list" where
  "normalizePackageFormats v =
     (case v of
        Formats_Absent \<Rightarrow> Inr []
      | Formats_Other \<Rightarrow> Inl Formats_Not_Array
      | Formats xs \<Rightarrow> ebind (emap normalizePackageFormat xs) (\<lambda>fs. Inr (js_sort order_cmp (uniq fs))))"

text \<open>\<open>/^(?!-)(?!\.\.?$)[A-Za-z0-9._+@:-]+$/\<close>.\<close>

definition package_path_char :: "char \<Rightarrow> bool" where
  "package_path_char c = (is_alnum c \<or> c \<in> set ''._+@:-'')"

definition PACKAGE_PATH_COMPONENT_PATTERN :: "string \<Rightarrow> bool" where
  "PACKAGE_PATH_COMPONENT_PATTERN s =
     (s \<noteq> [] \<and> hd s \<noteq> CHR ''-'' \<and> s \<noteq> ''.'' \<and> s \<noteq> dotdot \<and> list_all package_path_char s)"

definition normalizePackageTarget :: "string option \<Rightarrow> path_error + string" where
  "normalizePackageTarget v =
     (case v of
        None \<Rightarrow> Inl Not_A_Relative_Path
      | Some p \<Rightarrow>
          if trim p = [] then Inl Not_A_Relative_Path
          else let parts = relativePathParts p in
            if is_absolute p \<or> dotdot \<in> set parts then Inl Not_Inside
            else if parts = [] then Inl Targets_Root
            else (case find (\<lambda>part. \<not> PACKAGE_PATH_COMPONENT_PATTERN part) parts of
                    Some part \<Rightarrow> Inl (Unsafe_Component part)
                  | None \<Rightarrow> Inr (join ''/'' parts)))"

text \<open>\<open>/^[A-Za-z0-9][A-Za-z0-9+._:@()=<>~\/-]*$/\<close>, after the suffix that stands for the ELF class of
  an RPM.\<close>

definition dependency_char :: "char \<Rightarrow> bool" where
  "dependency_char c = (is_alnum c \<or> c \<in> set ''+._:@()=<>~/-'')"

definition PACKAGE_DEPENDENCY_PATTERN :: "string \<Rightarrow> bool" where
  "PACKAGE_DEPENDENCY_PATTERN s = (case s of [] \<Rightarrow> False | c # r \<Rightarrow> is_alnum c \<and> list_all dependency_char r)"

definition RPM_ELF_DEPENDENCY_SUFFIX :: string where
  "RPM_ELF_DEPENDENCY_SUFFIX = ''%{chatgpt_elf_suffix}''"

definition dependency_token :: "string \<Rightarrow> string \<Rightarrow> string" where
  "dependency_token fmt e =
     (if fmt = ''rpm'' \<and> ends_with RPM_ELF_DEPENDENCY_SUFFIX e
      then take (length e - length RPM_ELF_DEPENDENCY_SUFFIX) e else e)"

datatype dependencies_value =
    Dependencies_Absent | Dependencies "(string \<times> string option list option) list" | Dependencies_Other

definition check_dependency :: "string \<Rightarrow> string option \<Rightarrow> path_error + string" where
  "check_dependency fmt v =
     (case v of
        None \<Rightarrow> Inl (Bad_Dependency fmt)
      | Some e \<Rightarrow> if PACKAGE_DEPENDENCY_PATTERN (dependency_token fmt e) then Inr e else Inl (Bad_Dependency fmt))"

definition add_dependencies ::
  "string \<times> string option list option \<Rightarrow> (string, string list) jsmap \<Rightarrow> path_error + (string, string list) jsmap" where
  "add_dependencies x acc =
     (case x of (rawFormat, entries) \<Rightarrow>
        ebind (normalizePackageFormat (Some rawFormat)) (\<lambda>fmt.
          case entries of
            None \<Rightarrow> Inl (Dependencies_Not_Array fmt)
          | Some es \<Rightarrow> ebind (emap (check_dependency fmt) es) (\<lambda>ds.
              Inr (map_set fmt (js_sort order_cmp (uniq ds)) acc))))"

definition normalizePackageDependencies :: "dependencies_value \<Rightarrow> path_error + (string, string list) jsmap" where
  "normalizePackageDependencies v =
     (case v of
        Dependencies_Absent \<Rightarrow> Inr []
      | Dependencies_Other \<Rightarrow> Inl Dependencies_Not_Object
      | Dependencies xs \<Rightarrow> efold add_dependencies xs [])"

section \<open>Claims\<close>

text \<open>Claiming a key: the first owner of a key in conflict with it keeps it out.\<close>

definition claim_key ::
  "('k \<Rightarrow> 'k \<Rightarrow> bool) \<Rightarrow> 'k \<Rightarrow> 'o \<Rightarrow> ('k, 'o) jsmap \<Rightarrow> ('k \<times> 'o) + ('k, 'o) jsmap" where
  "claim_key conflict k owner owners =
     (case find (\<lambda>(existing, o'). conflict k existing) owners of
        Some c \<Rightarrow> Inl c
      | None \<Rightarrow> Inr (map_set k owner owners))"

definition overlaps :: "string \<Rightarrow> string \<Rightarrow> bool" where
  "overlaps target existing =
     (target = existing \<or> starts_with (existing @ ''/'') target \<or> starts_with (target @ ''/'') existing)"

definition claimInstallTarget :: "string \<Rightarrow> string \<Rightarrow> (string, string) jsmap \<Rightarrow> path_error + (string, string) jsmap" where
  "claimInstallTarget target owner owners =
     (case claim_key overlaps target owner owners of
        Inl (existing, previous) \<Rightarrow> Inl (Target_Conflict target existing previous)
      | Inr m \<Rightarrow> Inr m)"

text \<open>The contract of a registry of claims: conflict is symmetric and no key is free of itself.\<close>

locale exclusive_claims =
  fixes conflict :: "'k \<Rightarrow> 'k \<Rightarrow> bool"
  assumes conflict_refl: "conflict k k"
    and conflict_sym: "conflict k l \<Longrightarrow> conflict l k"
begin

definition exclusive :: "('k, 'o) jsmap \<Rightarrow> bool" where
  "exclusive m \<longleftrightarrow> (\<forall>k\<in>set (map_keys m). \<forall>l\<in>set (map_keys m). k \<noteq> l \<longrightarrow> \<not> conflict k l) \<and> distinct (map_keys m)"

lemma exclusive_empty: "exclusive []"
  by (simp add: exclusive_def map_keys_def)

lemma claim_free:
  "claim_key conflict k owner m = Inr m' \<Longrightarrow> \<forall>l\<in>set (map_keys m). \<not> conflict k l"
  by (auto simp: claim_key_def map_keys_def find_None_iff split: option.splits)

lemma claim_keys: "claim_key conflict k owner m = Inr m' \<Longrightarrow> map_keys m' = map_keys m @ [k]"
proof -
  assume c: "claim_key conflict k owner m = Inr m'"
  have "k \<notin> set (map_keys m)" using claim_free [OF c] conflict_refl [of k] by blast
  then show ?thesis using c by (auto simp: claim_key_def jsm.keys_put split: option.splits)
qed

lemma claim_exclusive:
  assumes "claim_key conflict k owner m = Inr m'" and "exclusive m"
  shows "exclusive m'"
  using claim_keys [OF assms(1)] claim_free [OF assms(1)] assms(2) conflict_sym conflict_refl
  unfolding exclusive_def by (auto 0 3)

end

interpretation targets: exclusive_claims overlaps
  by unfold_locales (auto simp: overlaps_def)

interpretation ids: exclusive_claims "(=) :: string \<Rightarrow> string \<Rightarrow> bool"
  by unfold_locales auto

section \<open>Laws of paths\<close>

lemma relativePathParts_members:
  "part \<in> set (relativePathParts p) \<Longrightarrow> part \<noteq> [] \<and> part \<noteq> ''.'' \<and> (\<forall>c\<in>set part. \<not> path_separator c)"
  using split_class_members [of "[]" path_separator part p] by (auto simp: relativePathParts_def)

lemma slash_separator [simp]: "path_separator CHR ''/''"
  by (simp add: path_separator_def)

lemma relativePathParts_join:
  assumes "\<forall>s\<in>set parts. s \<noteq> [] \<and> s \<noteq> ''.'' \<and> (\<forall>c\<in>set s. \<not> path_separator c)"
  shows "relativePathParts (join ''/'' parts) = parts"
proof -
  have "split_class path_separator [] (join [CHR ''/''] parts) = parts"
    by (rule split_class_join) (use assms in auto)
  then show ?thesis using assms by (simp add: relativePathParts_def filter_id_conv)
qed

definition inside_target :: "string \<Rightarrow> bool" where
  "inside_target t \<longleftrightarrow> (\<exists>parts. parts \<noteq> [] \<and> t = join ''/'' parts \<and>
     (\<forall>s\<in>set parts. plain_segment s \<and> (\<forall>c\<in>set s. \<not> path_separator c)))"

lemma parts_plain:
  "dotdot \<notin> set (relativePathParts p) \<Longrightarrow> s \<in> set (relativePathParts p) \<Longrightarrow>
   plain_segment s \<and> (\<forall>c\<in>set s. \<not> path_separator c)"
  using relativePathParts_members [of s p] by (auto simp: plain_segment_def real_name_def)

lemma inside_parts:
  assumes "dotdot \<notin> set (relativePathParts p)" and "relativePathParts p \<noteq> []"
  shows "inside_target (join ''/'' (relativePathParts p))"
  unfolding inside_target_def
  by (rule exI [of _ "relativePathParts p"]) (simp add: assms(2) parts_plain [OF assms(1)])

lemma normalizeInstallRelativePath_inside:
  "normalizeInstallRelativePath v = Inr t \<Longrightarrow> inside_target t"
  by (cases v)
    (auto simp: normalizeInstallRelativePath_def Let_def intro!: inside_parts split: if_split_asm)

lemma normalizePackageTarget_parts:
  assumes "normalizePackageTarget v = Inr t"
  shows "\<exists>p. v = Some p \<and> t = join ''/'' (relativePathParts p) \<and> dotdot \<notin> set (relativePathParts p) \<and>
    relativePathParts p \<noteq> [] \<and> list_all PACKAGE_PATH_COMPONENT_PATTERN (relativePathParts p)"
proof (cases v)
  case None
  with assms show ?thesis by (simp add: normalizePackageTarget_def)
next
  case (Some p)
  with assms have "dotdot \<notin> set (relativePathParts p)" "relativePathParts p \<noteq> []"
    "find (\<lambda>part. \<not> PACKAGE_PATH_COMPONENT_PATTERN part) (relativePathParts p) = None"
    "t = join ''/'' (relativePathParts p)"
    by (auto simp: normalizePackageTarget_def Let_def split: if_split_asm option.splits)
  with Some show ?thesis by (simp add: find_None_iff list_all_iff)
qed

lemma normalizePackageTarget_inside:
  "normalizePackageTarget v = Inr t \<Longrightarrow>
   inside_target t \<and> (\<exists>parts. t = join ''/'' parts \<and> list_all PACKAGE_PATH_COMPONENT_PATTERN parts)"
  using normalizePackageTarget_parts inside_parts by blast

lemma segments_join:
  assumes "parts \<noteq> []" and "\<forall>s\<in>set parts. slash \<notin> set s"
  shows "segments (join ''/'' parts) = parts"
  using split_char_join [OF assms(1), of slash] assms(2) by (simp add: segments_def)

lemma octal_value_append: "octal_value a (s @ t) = octal_value (octal_value a s) t"
  by (induction s arbitrary: a) auto

lemma octal_str_value: "octal_value 0 (octal_str n) = n"
proof (induction n rule: octal_str.induct)
  case (1 n)
  show ?case
  proof (cases "n < 8")
    case True
    then show ?thesis by (subst octal_str.simps) simp
  next
    case False
    with 1 show ?thesis by (subst octal_str.simps) (simp add: octal_value_append)
  qed
qed

lemma octal_str_octal: "c \<in> set (octal_str n) \<Longrightarrow> is_octal c"
proof (induction n rule: octal_str.induct)
  case (1 n)
  have d: "is_octal (char_of (48 + k))" if "k < 8" for k :: nat using that by (simp add: is_octal_def)
  show ?case
  proof (cases "n < 8")
    case True
    with 1(2) d show ?thesis by (subst (asm) octal_str.simps) simp
  next
    case False
    with 1(2) have "c \<in> set (octal_str (n div 8)) \<or> c = char_of (48 + n mod 8)"
      by (subst (asm) octal_str.simps) auto
    with 1(1) False d show ?thesis by auto
  qed
qed

lemma octal_not_space: "is_octal c \<Longrightarrow> is_space c \<Longrightarrow> False"
  by (auto simp: is_octal_def is_space_def)

lemma octal_str_length: "n < 8 ^ k \<Longrightarrow> 0 < k \<Longrightarrow> length (octal_str n) \<le> k"
proof (induction k arbitrary: n)
  case (Suc k)
  show ?case
  proof (cases "n < 8")
    case False
    then have "0 < k" using Suc.prems(1) by (cases k) auto
    moreover have "n div 8 < 8 ^ k" using Suc.prems(1) by (simp add: less_mult_imp_div_less mult.commute)
    ultimately have "length (octal_str (n div 8)) \<le> k" using Suc.IH by blast
    with False show ?thesis by (subst octal_str.simps) simp
  qed (subst octal_str.simps, simp)
qed simp

lemma octal_value_zeros: "octal_value 0 (replicate k CHR ''0'' @ s) = octal_value 0 s"
  by (induction k) auto

lemma norm_acc_append: "norm_acc up acc (xs @ ys) = norm_acc up (rev (norm_acc up acc xs)) ys"
proof (induction up acc xs rule: norm_acc.induct)
  case (1 up acc)
  then show ?case by simp
next
  case (2 up acc s ss)
  show ?case
  proof (cases "s = [] \<or> s = ''.''")
    case True
    then show ?thesis using 2(1) by auto
  next
    case skip: False
    show ?thesis
    proof (cases "s = dotdot")
      case False
      then show ?thesis using 2(5) skip by simp
    next
      case True
      then show ?thesis using 2(2-4) skip by (cases acc) auto
    qed
  qed
qed

lemma normalize_segments_plain_append:
  "\<forall>s\<in>set parts. plain_segment s \<Longrightarrow>
   normalize_segments False (xs @ parts) = normalize_segments False xs @ parts"
  unfolding normalize_segments_def norm_acc_append
  using norm_acc_plain_id [of parts False "rev (norm_acc False [] xs)"]
  by (simp add: plain_segment_def list_all_iff)

lemma join_nonempty: "parts \<noteq> [] \<Longrightarrow> hd parts \<noteq> [] \<Longrightarrow> join sep parts \<noteq> [] \<and> hd (join sep parts) = hd (hd parts)"
  by (cases parts; cases "tl parts") (auto simp: hd_append)

lemma inside_target_resolves:
  assumes "inside_target t"
  shows "\<exists>parts. parts \<noteq> [] \<and> t = join ''/'' parts \<and> (\<forall>s\<in>set parts. plain_segment s) \<and>
    resolve_segments cwd [dir, t] = resolve_segments cwd [dir] @ parts"
proof -
  obtain parts where p: "parts \<noteq> []" "t = join ''/'' parts" "\<forall>s\<in>set parts. plain_segment s"
    using assms by (auto simp: inside_target_def)
  have seg: "segments t = parts" using segments_join [OF p(1)] p(2,3) by (simp add: plain_segment_def)
  have "plain_segment (hd parts)" using p(1,3) by simp
  then have "hd parts \<noteq> []" "hd (hd parts) \<noteq> slash"
    by (auto simp: plain_segment_def real_name_def dest: hd_in_set)
  with join_nonempty [OF p(1), of "''/''"] have t: "t \<noteq> []" "\<not> is_absolute t"
    by (auto simp: p(2) is_absolute_def starts_with_def take_Suc)
  have "resolve_segments cwd [dir, t] = normalize_segments False (resolve_parts cwd [dir] @ parts)"
    using t by (simp add: resolve_segments_def seg)
  also have "\<dots> = resolve_segments cwd [dir] @ parts"
    using normalize_segments_plain_append [OF p(3)] by (simp add: resolve_segments_def)
  finally show ?thesis using p by blast
qed

section \<open>Properties\<close>

text \<open>C31: an install target that is accepted lies inside the install directory, whatever that is:
  resolving it gives the directory followed by the target's own non-empty names. Normalising it
  again changes nothing, unless it is nothing but white space.\<close>

theorem install_target_stays_inside:
  assumes "normalizeInstallRelativePath v = Inr t"
  shows "(trim t = [] \<or> normalizeInstallRelativePath (Some t) = Inr t) \<and>
    (\<exists>parts. parts \<noteq> [] \<and> t = join ''/'' parts \<and> (\<forall>s\<in>set parts. plain_segment s) \<and>
       resolve_segments cwd [dir, t] = resolve_segments cwd [dir] @ parts)"
proof -
  obtain p where v: "v = Some p" "t = join ''/'' (relativePathParts p)" "trim p \<noteq> []"
      "dotdot \<notin> set (relativePathParts p)" "relativePathParts p \<noteq> []"
    using assms by (auto simp: normalizeInstallRelativePath_def Let_def split: option.splits if_splits)
  have parts: "relativePathParts t = relativePathParts p"
    unfolding v(2) by (rule relativePathParts_join) (use relativePathParts_members in blast)
  let ?ps = "relativePathParts p"
  have pl: "plain_segment (hd ?ps)" using parts_plain [OF v(4)] v(5) by simp
  then have h: "hd ?ps \<noteq> []" "hd (hd ?ps) \<noteq> slash"
    by (auto simp: plain_segment_def real_name_def dest: hd_in_set)
  with join_nonempty [OF v(5), of "''/''"] have abs: "\<not> is_absolute t"
    by (auto simp: v(2) is_absolute_def starts_with_def take_Suc)
  have "trim t = [] \<or> normalizeInstallRelativePath (Some t) = Inr t"
    using abs v(4,5) by (simp add: normalizeInstallRelativePath_def parts Let_def flip: v(2))
  then show ?thesis
    using inside_target_resolves [OF normalizeInstallRelativePath_inside [OF assms]] by blast
qed

theorem install_target_stays_inside_witness:
  "resolve_segments ''/w'' [''/opt/app'', ''share/x''] = [''opt'', ''app''] @ [''share'', ''x'']"
proof -
  have "normalizeInstallRelativePath (Some ''./share//x'') = Inr ''share/x''" by code_simp
  from install_target_stays_inside [OF this, of "''/w''" "''/opt/app''"]
  obtain parts where p: "parts \<noteq> []" "''share/x'' = join ''/'' parts" "\<forall>s\<in>set parts. plain_segment s"
      "resolve_segments ''/w'' [''/opt/app'', ''share/x''] = resolve_segments ''/w'' [''/opt/app''] @ parts"
    by blast
  have "parts = segments ''share/x''" using segments_join [OF p(1)] p(2,3) by (simp add: plain_segment_def)
  also have "\<dots> = [''share'', ''x'']" by code_simp
  finally have "resolve_segments ''/w'' [''/opt/app'', ''share/x''] =
      resolve_segments ''/w'' [''/opt/app''] @ [''share'', ''x'']" using p(4) by simp
  moreover have "resolve_segments ''/w'' [''/opt/app''] = [''opt'', ''app'']" by code_simp
  ultimately show ?thesis by simp
qed

text \<open>C40: a file mode survives being written to the staged manifest and read back, and a mode read
  from a package resource has no special permission bit.\<close>

theorem file_mode_roundtrip:
  "(n < 8 ^ 4 \<longrightarrow> (\<exists>s. modeString (Some n) = Some s \<and> length s = 4 \<and> parseFileMode (Mode_Text s) fallback = Inr n)) \<and>
   (parsePackageResourceMode v = Inr m \<longrightarrow> \<not> has_special_bits m)"
proof (intro conjI impI)
  assume n: "n < 8 ^ 4"
  let ?s = "replicate (4 - length (octal_str n)) CHR ''0'' @ octal_str n"
  have len: "length ?s = 4" using octal_str_length [of n 4] n by simp
  have oct: "\<forall>c\<in>set ?s. is_octal c" using octal_str_octal by (auto simp: is_octal_def)
  then have "trim ?s = ?s" by (intro trim_no_space) (blast intro: octal_not_space)
  then have "parseFileMode (Mode_Text ?s) fallback = Inr n"
    using len oct by (simp add: parseFileMode_def Let_def list_all_iff octal_value_zeros octal_str_value)
  with len show "\<exists>s. modeString (Some n) = Some s \<and> length s = 4 \<and> parseFileMode (Mode_Text s) fallback = Inr n"
    by (simp add: modeString_def)
next
  assume "parsePackageResourceMode v = Inr m"
  then show "\<not> has_special_bits m"
    by (auto simp: parsePackageResourceMode_def res_simps split: if_splits)
qed

theorem file_mode_roundtrip_witness:
  "\<exists>s. modeString (Some 0x1ED) = Some s \<and> length s = 4 \<and> parseFileMode (Mode_Text s) 0 = Inr 0x1ED"
  using file_mode_roundtrip [of "0x1ED" 0 Mode_Absent 0] by simp

end
