(* ===== verification/Integration_Config.thy ===== *)
theory Integration_Config
  imports Integration_Paths
begin

text \<open>
  \<open>scripts/lib/port-integrations.js\<close>, the configuration: where the integrations and their
  configuration are, which integrations are there, which of them are enabled, and whether the
  enabled ones fit together; and the snapshot a packaged app carries of all that. The environment,
  the file system and the parsed JSON files are parameters; what is only printed is left out.
\<close>

section \<open>Where things are\<close>

record environment =
  env_root :: "string option"
  env_config :: "string option"
  env_app_id :: "string option"
  env_linux_app_id :: "string option"
  env_xdg_config_home :: "string option"
  env_home :: "string option"
  env_cwd :: string
  env_default_root :: string

record file_system =
  fs_exists :: "string \<Rightarrow> bool"
  fs_is_directory :: "string \<Rightarrow> bool"
  fs_names :: "string \<Rightarrow> string list"

text \<open>\<open>process.env.X?.trim()\<close>, when it is not empty.\<close>

definition env_value :: "string option \<Rightarrow> string option" where
  "env_value v = (case v of None \<Rightarrow> None | Some s \<Rightarrow> if trim s = [] then None else Some (trim s))"

definition portIntegrationsRoot :: "environment \<Rightarrow> string option \<Rightarrow> string" where
  "portIntegrationsRoot env opt =
     (case opt of
        Some r \<Rightarrow> path_resolve (env_cwd env) [r]
      | None \<Rightarrow> (case env_value (env_root env) of
                  Some r \<Rightarrow> path_resolve (env_cwd env) [r]
                | None \<Rightarrow> env_default_root env))"

definition app_id_char :: "char \<Rightarrow> bool" where
  "app_id_char c = (is_alnum c \<or> c \<in> set ''._-'')"

fun APP_CONFIG_ID_PATTERN :: "string \<Rightarrow> bool" where
  "APP_CONFIG_ID_PATTERN [] = False"
| "APP_CONFIG_ID_PATTERN (c # s) = (is_alnum c \<and> list_all app_id_char s)"

definition portIntegrationsConfigAppId :: "environment \<Rightarrow> string" where
  "portIntegrationsConfigAppId env =
     (case List.map_filter (\<lambda>v. case env_value v of
              Some s \<Rightarrow> if APP_CONFIG_ID_PATTERN s then Some s else None
            | None \<Rightarrow> None) [env_app_id env, env_linux_app_id env] of
        [] \<Rightarrow> ''chatgpt''
      | s # rest \<Rightarrow> s)"

definition isCheckoutPortIntegrationsRoot :: "file_system \<Rightarrow> environment \<Rightarrow> string \<Rightarrow> bool" where
  "isCheckoutPortIntegrationsRoot fs env rt =
     (let ss = resolve_segments (env_cwd env) [rt] in
      last_segment ss = ''port-integrations'' \<and> fs_exists fs (path_join [abs_path (butlast ss), ''.git'']))"

definition portIntegrationsUserConfigPath :: "environment \<Rightarrow> string option" where
  "portIntegrationsUserConfigPath env =
     (let xdg = env_value (env_xdg_config_home env); home = env_value (env_home env);
          config_home =
            (case xdg of
               Some x \<Rightarrow> if is_absolute x then Some x
                         else (case home of Some h \<Rightarrow> if is_absolute h then Some (path_join [h, ''.config'']) else None
                                          | None \<Rightarrow> None)
             | None \<Rightarrow> (case home of Some h \<Rightarrow> if is_absolute h then Some (path_join [h, ''.config'']) else None
                                   | None \<Rightarrow> None))
      in map_option (\<lambda>c. path_join [c, portIntegrationsConfigAppId env, ''port-integrations.json'']) config_home)"

definition portIntegrationsConfigPath ::
  "file_system \<Rightarrow> environment \<Rightarrow> string \<Rightarrow> string option \<Rightarrow> string" where
  "portIntegrationsConfigPath fs env rt opt =
     (case env_value opt of
        Some _ \<Rightarrow> path_resolve (env_cwd env) [the opt]
      | None \<Rightarrow>
          (case env_value (env_config env) of
             Some c \<Rightarrow> path_resolve (env_cwd env) [c]
           | None \<Rightarrow>
               (let local = path_join [rt, ''integrations.json''] in
                if fs_exists fs local then local
                else (case (if isCheckoutPortIntegrationsRoot fs env rt then None
                            else portIntegrationsUserConfigPath env) of
                        Some u \<Rightarrow> if fs_exists fs u then u else path_join [rt, ''integrations.example.json'']
                      | None \<Rightarrow> path_join [rt, ''integrations.example.json'']))))"

section \<open>Identifiers\<close>

definition integration_id_char :: "char \<Rightarrow> bool" where
  "integration_id_char c = (is_lower c \<or> is_digit c \<or> c = CHR ''-'')"

fun INTEGRATION_ID_PATTERN :: "string \<Rightarrow> bool" where
  "INTEGRATION_ID_PATTERN [] = False"
| "INTEGRATION_ID_PATTERN (c # s) = ((is_lower c \<or> is_digit c) \<and> list_all integration_id_char s)"

definition assertIntegrationId :: "string option \<Rightarrow> path_error + string" where
  "assertIntegrationId v =
     (case v of None \<Rightarrow> Inl Bad_Integration_Id
      | Some s \<Rightarrow> if INTEGRATION_ID_PATTERN s then Inr s else Inl Bad_Integration_Id)"

text \<open>A value that should be an array of ids; an element that is no string is \<open>None\<close>.\<close>

datatype ids_value = Ids_Absent | Ids "string option list" | Ids_Other

definition normalizeIntegrationIdList :: "ids_value \<Rightarrow> path_error + string list" where
  "normalizeIntegrationIdList v =
     (case v of
        Ids_Absent \<Rightarrow> Inr []
      | Ids_Other \<Rightarrow> Inl Ids_Not_Array
      | Ids xs \<Rightarrow> ebind (emap assertIntegrationId xs) (\<lambda>ids. Inr (uniq ids)))"

definition legacy_alias :: "string \<Rightarrow> string" where
  "legacy_alias s = (if s = ''zed-opener'' then ''open-target-discovery'' else s)"

text \<open>Strictly, an invalid or repeated id is an error; otherwise it is dropped.\<close>

definition add_enabled :: "bool \<Rightarrow> string option \<Rightarrow> string list \<Rightarrow> path_error + string list" where
  "add_enabled strict v ids =
     (case assertIntegrationId v of
        Inl e \<Rightarrow> if strict then Inl e else Inr ids
      | Inr s \<Rightarrow>
          let i = legacy_alias s in
          if i \<in> set ids then (if strict then Inl (Duplicate_Integration s) else Inr ids)
          else Inr (ids @ [i]))"

definition normalizeEnabledIntegrationIds :: "bool \<Rightarrow> ids_value \<Rightarrow> path_error + string list" where
  "normalizeEnabledIntegrationIds strict v =
     (case v of
        Ids xs \<Rightarrow> efold (add_enabled strict) xs []
      | _ \<Rightarrow> if strict then Inl Ids_Not_Array else Inr [])"

definition normalizePortIntegrationSettings :: "(string \<times> 's option) list option \<Rightarrow> (string, 's) jsmap" where
  "normalizePortIntegrationSettings v =
     (case v of
        None \<Rightarrow> []
      | Some es \<Rightarrow> fold (\<lambda>(rawId, s) m.
          if \<not> INTEGRATION_ID_PATTERN rawId then m
          else (case s of None \<Rightarrow> m | Some x \<Rightarrow> map_set (legacy_alias rawId) x m)) es [])"

record 's raw_config =
  raw_enabled :: ids_value
  raw_disabled :: ids_value
  raw_settings :: "(string \<times> 's option) list option"

record 's integrations_config =
  cfg_enabled :: "string list"
  cfg_disabled :: "string list"
  cfg_settings :: "(string, 's) jsmap"

text \<open>The parsed configuration file, \<open>None\<close> when it is missing or no object: strictly an error.\<close>

definition portIntegrationsConfig :: "bool \<Rightarrow> 's raw_config option \<Rightarrow> path_error + 's integrations_config" where
  "portIntegrationsConfig strict c =
     (case c of
        None \<Rightarrow> if strict then Inl Path_Not_Found
                else Inr \<lparr>cfg_enabled = [], cfg_disabled = [], cfg_settings = []\<rparr>
      | Some r \<Rightarrow>
          ebind (normalizeEnabledIntegrationIds strict (raw_enabled r)) (\<lambda>en.
          ebind (if raw_disabled r = Ids_Absent then Inr []
                 else normalizeEnabledIntegrationIds strict (raw_disabled r)) (\<lambda>dis.
            Inr \<lparr>cfg_enabled = en, cfg_disabled = dis,
                 cfg_settings = normalizePortIntegrationSettings (raw_settings r)\<rparr>)))"

section \<open>Discovery\<close>

datatype origin = Repo | Local

record candidate =
  c_dir :: string
  c_origin :: origin

definition RESERVED_TOP_LEVEL_NAMES :: "string list" where
  "RESERVED_TOP_LEVEL_NAMES = [''local'', ''README.md'', ''integrations.example.json'', ''integrations.json'']"

definition candidates_in :: "file_system \<Rightarrow> string \<Rightarrow> string list \<Rightarrow> origin \<Rightarrow> candidate list" where
  "candidates_in fs dir skipped org =
     map (\<lambda>n. \<lparr>c_dir = path_join [dir, n], c_origin = org\<rparr>)
       (filter (\<lambda>n. n \<notin> set skipped \<and> \<not> starts_with ''.'' n \<and> fs_is_directory fs (path_join [dir, n]) \<and>
                    fs_exists fs (path_join [path_join [dir, n], ''integration.json'']))
         (js_sort order_cmp (fs_names fs dir)))"

definition integrationManifestCandidates :: "file_system \<Rightarrow> string \<Rightarrow> candidate list" where
  "integrationManifestCandidates fs rt =
     (if \<not> fs_exists fs rt then []
      else candidates_in fs rt RESERVED_TOP_LEVEL_NAMES Repo @
           (let local = path_join [rt, ''local''] in
            if fs_is_directory fs local then candidates_in fs local [] Local else []))"

record raw_manifest =
  rm_id :: "string option"
  rm_defaultEnabled :: bool
  rm_requires :: ids_value
  rm_conflicts :: ids_value
  rm_resources :: entry_list
  rm_runtimeHooks :: "(string \<times> entry_list) list option"
  rm_packageResources :: "raw_entry list option option"
  rm_packageDependencies :: dependencies_value
  rm_packageHooks :: entry_list

record integration =
  int_id :: string
  int_dir :: string
  int_origin :: origin
  int_requires :: "string list"
  int_conflicts :: "string list"
  int_manifest :: raw_manifest

definition normalizePortIntegrationManifest ::
  "file_system \<Rightarrow> (string \<Rightarrow> raw_manifest option) \<Rightarrow> candidate \<Rightarrow> path_error + integration" where
  "normalizePortIntegrationManifest fs read c =
     (case read (path_join [c_dir c, ''integration.json'']) of
        None \<Rightarrow> Inl Path_Not_Found
      | Some m \<Rightarrow>
          ebind (assertIntegrationId (rm_id m)) (\<lambda>i.
            let readme = path_join [c_dir c, ''README.md''] in
            if \<not> fs_exists fs readme \<or> fs_is_directory fs readme then Inl Path_Not_Found
            else ebind (normalizeIntegrationIdList (rm_requires m)) (\<lambda>req.
                 ebind (normalizeIntegrationIdList (rm_conflicts m)) (\<lambda>con.
                   Inr \<lparr>int_id = i, int_dir = c_dir c, int_origin = c_origin c, int_requires = req,
                        int_conflicts = con, int_manifest = m\<rparr>))))"

definition add_integration ::
  "file_system \<Rightarrow> (string \<Rightarrow> raw_manifest option) \<Rightarrow> candidate \<Rightarrow> (string, integration) jsmap
     \<Rightarrow> path_error + (string, integration) jsmap" where
  "add_integration fs read c seen =
     ebind (normalizePortIntegrationManifest fs read c) (\<lambda>i.
       case claim_key (=) (int_id i) i seen of
         Inl previous \<Rightarrow> Inl (Duplicate_Integration (int_id i))
       | Inr m \<Rightarrow> Inr m)"

definition discoverPortIntegrationManifests ::
  "file_system \<Rightarrow> (string \<Rightarrow> raw_manifest option) \<Rightarrow> string \<Rightarrow> path_error + integration list" where
  "discoverPortIntegrationManifests fs read rt =
     ebind (efold (add_integration fs read) (integrationManifestCandidates fs rt) []) (\<lambda>m.
       Inr (js_sort (\<lambda>l r. locale_compare (int_id l) (int_id r)) (map snd m)))"

section \<open>Which are enabled\<close>

definition add_if_enabled :: "string list \<Rightarrow> string list \<Rightarrow> string \<Rightarrow> string list \<Rightarrow> string list" where
  "add_if_enabled disabled available i ids =
     (if i \<in> set disabled \<or> i \<in> set ids \<or> i \<notin> set available then ids else ids @ [i])"

datatype enabled_error = Enabled_Missing "string list" | Requires_Missing string string | Conflicts_With string string

definition enabledPortIntegrationIds ::
  "bool \<Rightarrow> 's integrations_config \<Rightarrow> integration list \<Rightarrow> enabled_error + string list" where
  "enabledPortIntegrationIds strict cfg available =
     (let names = map int_id available;
          defaults = map int_id (filter (\<lambda>i. rm_defaultEnabled (int_manifest i)) available);
          missing = filter (\<lambda>i. i \<notin> set names) (cfg_enabled cfg);
          ids = fold (add_if_enabled (cfg_disabled cfg) names) (defaults @ cfg_enabled cfg) []
      in if strict \<and> missing \<noteq> [] then Inl (Enabled_Missing missing) else Inr ids)"

definition enabledPortIntegrationsConfig ::
  "bool \<Rightarrow> 's integrations_config \<Rightarrow> integration list \<Rightarrow> enabled_error + 's integrations_config" where
  "enabledPortIntegrationsConfig strict cfg available =
     ebind (enabledPortIntegrationIds strict cfg available) (\<lambda>ids.
       Inr \<lparr>cfg_enabled = ids, cfg_disabled = cfg_disabled cfg,
            cfg_settings = List.map_filter (\<lambda>i. map_option (Pair i) (map_get (cfg_settings cfg) i)) ids\<rparr>)"

definition check_requires :: "string list \<Rightarrow> integration \<Rightarrow> string \<Rightarrow> unit \<Rightarrow> enabled_error + unit" where
  "check_requires en i r u = ensure (r \<in> set en) (Requires_Missing (int_id i) r)"

definition check_conflicts :: "string list \<Rightarrow> integration \<Rightarrow> string \<Rightarrow> unit \<Rightarrow> enabled_error + unit" where
  "check_conflicts en i c u = ensure (c \<notin> set en) (Conflicts_With (int_id i) c)"

definition check_integration :: "string list \<Rightarrow> integration \<Rightarrow> unit \<Rightarrow> enabled_error + unit" where
  "check_integration en i u =
     ebind (efold (check_requires en i) (int_requires i) ()) (\<lambda>u. efold (check_conflicts en i) (int_conflicts i) ())"

definition validateEnabledIntegrationDependencies :: "integration list \<Rightarrow> enabled_error + unit" where
  "validateEnabledIntegrationDependencies is = efold (check_integration (map int_id is)) is ()"

definition find_integration :: "integration list \<Rightarrow> string \<Rightarrow> integration option" where
  "find_integration available i = map_get (map_new (map (\<lambda>x. (int_id x, x)) available)) i"

definition loadEnabledPortIntegrations :: "integration list \<Rightarrow> string list \<Rightarrow> enabled_error + integration list" where
  "loadEnabledPortIntegrations available enabled =
     (let missing = filter (\<lambda>i. find_integration available i = None) enabled;
          is = List.map_filter (find_integration available) enabled
      in if missing \<noteq> [] then Inl (Enabled_Missing missing)
         else ebind (validateEnabledIntegrationDependencies is) (\<lambda>u. Inr is))"

section \<open>Canonical JSON\<close>

datatype json =
    JNull | JBool bool | JNum int | JStr string | JArr "json list" | JObj "(string \<times> json) list"

definition hex_digit :: "nat \<Rightarrow> char" where
  "hex_digit n = (if n < 10 then char_of (48 + n) else char_of (87 + n))"

text \<open>\<open>JSON.stringify\<close> of a string.\<close>

definition json_char :: "char \<Rightarrow> string" where
  "json_char c =
     (let n = code_unit c in
      if c = CHR 34 then [CHR 92, CHR 34]
      else if c = CHR 92 then [CHR 92, CHR 92]
      else if n = 8 then [CHR 92, CHR ''b'']
      else if n = 9 then [CHR 92, CHR ''t'']
      else if n = 10 then [CHR 92, CHR ''n'']
      else if n = 12 then [CHR 92, CHR ''f'']
      else if n = 13 then [CHR 92, CHR ''r'']
      else if n < 32 then [CHR 92, CHR ''u'', CHR ''0'', CHR ''0'', hex_digit (n div 16), hex_digit (n mod 16)]
      else [c])"

definition json_string :: "string \<Rightarrow> string" where
  "json_string s = [CHR 34] @ concat (map json_char s) @ [CHR 34]"

fun canonicalJson :: "json \<Rightarrow> string" where
  "canonicalJson JNull = ''null''"
| "canonicalJson (JBool b) = (if b then ''true'' else ''false'')"
| "canonicalJson (JNum i) = int_str i"
| "canonicalJson (JStr s) = json_string s"
| "canonicalJson (JArr xs) = ''['' @ join '','' (map canonicalJson xs) @ '']''"
| "canonicalJson (JObj kvs) =
     ''{'' @ join '','' (map (\<lambda>kv. json_string (fst kv) @ '':'' @ snd kv)
        (js_sort (\<lambda>x y. order_cmp (fst x) (fst y)) (map (\<lambda>(k, v). (k, canonicalJson v)) kvs))) @ ''}''"

section \<open>The snapshot of a packaged app\<close>

record raw_build_info =
  bi_enabled :: ids_value
  bi_resolved_enabled :: ids_value
  bi_resolved_disabled :: ids_value
  bi_settings_object :: bool
  bi_resolved :: json
  bi_rootKind :: "string option"
  bi_inputsSha256 :: "string option"

record integration_snapshot =
  sn_enabled :: "string list"
  sn_resolved :: json
  sn_rootKind :: string
  sn_inputsSha256 :: string

definition add_build_info_id :: "string option \<Rightarrow> string list \<Rightarrow> path_error + string list" where
  "add_build_info_id v ids =
     ebind (assertIntegrationId v) (\<lambda>i. if i \<in> set ids then Inl (Duplicate_Integration i) else Inr (ids @ [i]))"

definition integrationIdsFromBuildInfo :: "ids_value \<Rightarrow> path_error + string list" where
  "integrationIdsFromBuildInfo v = (case v of Ids xs \<Rightarrow> efold add_build_info_id xs [] | _ \<Rightarrow> Inl Ids_Not_Array)"

definition sha256_text :: "string \<Rightarrow> bool" where
  "sha256_text s = (length s = 64 \<and> list_all is_lower_hex s)"

definition portIntegrationSnapshotFromBuildInfo :: "raw_build_info option \<Rightarrow> path_error + integration_snapshot" where
  "portIntegrationSnapshotFromBuildInfo b =
     (case b of
        None \<Rightarrow> Inl Path_Not_Found
      | Some r \<Rightarrow>
          ebind (integrationIdsFromBuildInfo (bi_enabled r)) (\<lambda>en.
          ebind (integrationIdsFromBuildInfo (bi_resolved_enabled r)) (\<lambda>ren.
          ebind (integrationIdsFromBuildInfo (bi_resolved_disabled r)) (\<lambda>dis.
            if canonicalJson (JArr (map JStr en)) \<noteq> canonicalJson (JArr (map JStr ren)) then Inl Ids_Not_Array
            else if \<not> bi_settings_object r then Inl Invalid_Path
            else (case (bi_rootKind r, bi_inputsSha256 r) of
                    (Some k, Some sha) \<Rightarrow>
                      if k \<noteq> ''checkout'' \<and> k \<noteq> ''external'' \<or> \<not> sha256_text sha then Inl Invalid_Path
                      else Inr \<lparr>sn_enabled = en, sn_resolved = bi_resolved r, sn_rootKind = k,
                                sn_inputsSha256 = sha\<rparr>
                  | _ \<Rightarrow> Inl Invalid_Path)))))"

record build_inputs =
  in_resolved :: json
  in_rootKind :: string
  in_sha256 :: string

text \<open>The ids a package is built with: those of the snapshot, provided the current inputs match it.\<close>

definition packageIntegrationOptions ::
  "raw_build_info option \<Rightarrow> build_inputs \<Rightarrow> path_error + string list" where
  "packageIntegrationOptions b inputs =
     ebind (portIntegrationSnapshotFromBuildInfo b) (\<lambda>s.
       if canonicalJson (sn_resolved s) \<noteq> canonicalJson (in_resolved inputs) \<or>
          sn_rootKind s \<noteq> in_rootKind inputs \<or> sn_inputsSha256 s \<noteq> in_sha256 inputs
       then Inl Invalid_Path else Inr (sn_enabled s))"

section \<open>Laws\<close>

lemma fold_add_if_enabled:
  "distinct ids \<Longrightarrow>
   distinct (fold (add_if_enabled dis names) xs ids) \<and>
   set (fold (add_if_enabled dis names) xs ids) = set ids \<union> {i \<in> set xs. i \<notin> set dis \<and> i \<in> set names}"
proof (induction xs arbitrary: ids)
  case (Cons x xs)
  have "distinct (add_if_enabled dis names x ids)" using Cons.prems by (simp add: add_if_enabled_def)
  from Cons.IH [OF this] show ?case by (auto simp: add_if_enabled_def)
qed simp

lemma efold_unit_iff: "efold (\<lambda>x u. f x) xs () = Inr () \<longleftrightarrow> (\<forall>x\<in>set xs. f x = Inr ())"
  by (induction xs) (auto split: sum.split)

lemma check_integration_iff:
  "check_integration en i () = Inr () \<longleftrightarrow>
   set (int_requires i) \<subseteq> set en \<and> set (int_conflicts i) \<inter> set en = {}"
proof -
  have "efold (check_requires en i) xs () = Inr () \<longleftrightarrow> (\<forall>x\<in>set xs. check_requires en i x () = Inr ())" for xs
    using efold_unit_iff [of "\<lambda>r. check_requires en i r ()" xs] by simp
  then have "efold (check_requires en i) (int_requires i) () = Inr () \<longleftrightarrow> set (int_requires i) \<subseteq> set en"
    by (auto simp: check_requires_def)
  moreover have "efold (check_conflicts en i) xs () = Inr () \<longleftrightarrow> (\<forall>x\<in>set xs. check_conflicts en i x () = Inr ())" for xs
    using efold_unit_iff [of "\<lambda>r. check_conflicts en i r ()" xs] by simp
  then have "efold (check_conflicts en i) (int_conflicts i) () = Inr () \<longleftrightarrow> set (int_conflicts i) \<inter> set en = {}"
    by (auto simp: check_conflicts_def)
  ultimately show ?thesis by (simp add: check_integration_def ebind_eq_Inr)
qed

lemma validate_dependencies_iff:
  "validateEnabledIntegrationDependencies is = Inr () \<longleftrightarrow>
   (\<forall>i\<in>set is. set (int_requires i) \<subseteq> int_id ` set is \<and> set (int_conflicts i) \<inter> int_id ` set is = {})"
proof -
  have "efold (check_integration (map int_id is)) is () = Inr () \<longleftrightarrow>
      (\<forall>i\<in>set is. check_integration (map int_id is) i () = Inr ())"
    using efold_unit_iff [of "\<lambda>i. check_integration (map int_id is) i ()" "is"] by simp
  then show ?thesis by (simp add: validateEnabledIntegrationDependencies_def check_integration_iff)
qed

lemma add_integration_ids:
  assumes "efold (add_integration fs read) cs m = Inr m'" and "ids.exclusive m"
    and "\<forall>(k, i)\<in>set m. k = int_id i"
  shows "ids.exclusive m' \<and> (\<forall>(k, i)\<in>set m'. k = int_id i)"
proof (rule efold_preserves [OF assms(1), of "\<lambda>m. ids.exclusive m \<and> (\<forall>(k, i)\<in>set m. k = int_id i)"])
  show "ids.exclusive m \<and> (\<forall>(k, i)\<in>set m. k = int_id i)" using assms(2,3) by blast
  fix c and s s' :: "(string, integration) jsmap"
  assume s: "ids.exclusive s \<and> (\<forall>(k, i)\<in>set s. k = int_id i)" and "add_integration fs read c s = Inr s'"
  then obtain i where "(case claim_key (=) (int_id i) i s of
      Inl previous \<Rightarrow> Inl (Duplicate_Integration (int_id i)) | Inr m \<Rightarrow> Inr m) = Inr s'"
    by (auto simp: add_integration_def ebind_eq_Inr)
  then have c: "claim_key (=) (int_id i) i s = Inr s'" by (auto split: sum.splits)
  then have "s' = map_set (int_id i) i s" by (simp add: claim_key_def split: option.splits)
  moreover have "set (map_set (int_id i) i s) \<subseteq> insert (int_id i, i) (set s)"
    by (induction s) (auto simp: map_set_def)
  ultimately show "ids.exclusive s' \<and> (\<forall>(k, i)\<in>set s'. k = int_id i)"
    using ids.claim_exclusive [OF c] s by blast
qed

interpretation by_key: consistent_comparator "\<lambda>x y :: string \<times> string. order_cmp (fst x) (fst y)"
  by unfold_locales auto

interpretation by_id: consistent_comparator "\<lambda>l r :: integration. locale_compare (int_id l) (int_id r)"
  by unfold_locales (auto intro: collate.cmp_refl collate.cmp_trans simp: collate.cmp_total)

lemma sorted_keys_unique:
  fixes xs ys :: "(string \<times> string) list"
  assumes "mset xs = mset ys" and "distinct (map fst xs)"
    and "sorted (map fst xs)" and "sorted (map fst ys)"
  shows "xs = ys"
proof -
  have keys: "map fst xs = map fst ys"
    using assms by (metis mset_map properties_for_sort sorted_sort_id)
  have "map_of xs = map_of ys"
    using map_of_inject_set [of xs ys] assms(1,2) keys by (metis mset_eq_setD)
  moreover have "map (\<lambda>k. (k, the (map_of zs k))) (map fst zs) = zs" if "distinct (map fst zs)" for zs :: "(string \<times> string) list"
    using that by (auto simp: map_of_is_SomeI intro!: map_idI)
  ultimately show ?thesis using assms(2) keys by metis
qed

lemma js_sort_keys_unique:
  assumes "mset xs = mset ys" and "distinct (map fst xs)"
  shows "js_sort (\<lambda>x y :: string \<times> string. order_cmp (fst x) (fst y)) xs =
    js_sort (\<lambda>x y. order_cmp (fst x) (fst y)) ys"
proof (rule sorted_keys_unique)
  let ?s = "js_sort (\<lambda>x y :: string \<times> string. order_cmp (fst x) (fst y))"
  show "mset (?s xs) = mset (?s ys)" using assms(1) by simp
  show "distinct (map fst (?s xs))" using assms(2) by simp
  show "sorted (map fst (?s xs))" "sorted (map fst (?s ys))"
    using by_key.sorted_sort [of xs] by_key.sorted_sort [of ys] by (simp_all add: sorted_wrt_map)
qed

section \<open>Properties\<close>

text \<open>The integrations that are enabled are, each once, exactly the available ones that are not
  disabled and are either enabled by the configuration or by default.\<close>

theorem enabledPortIntegrationIds_exact:
  assumes "enabledPortIntegrationIds strict cfg available = Inr ids"
  shows "distinct ids \<and> (\<forall>i. i \<in> set ids \<longleftrightarrow>
    i \<in> int_id ` set available \<and> i \<notin> set (cfg_disabled cfg) \<and>
    (i \<in> set (cfg_enabled cfg) \<or> i \<in> int_id ` {x \<in> set available. rm_defaultEnabled (int_manifest x)}))"
proof -
  let ?defaults = "map int_id (filter (\<lambda>i. rm_defaultEnabled (int_manifest i)) available)"
  have "ids = fold (add_if_enabled (cfg_disabled cfg) (map int_id available)) (?defaults @ cfg_enabled cfg) []"
    using assms by (simp add: enabledPortIntegrationIds_def Let_def split: if_splits)
  then show ?thesis
    using fold_add_if_enabled [of "[]" "cfg_disabled cfg" "map int_id available" "?defaults @ cfg_enabled cfg"]
    by auto
qed

definition sample_integration :: "string \<Rightarrow> string list \<Rightarrow> string list \<Rightarrow> bool \<Rightarrow> integration" where
  "sample_integration i req con def = \<lparr>int_id = i, int_dir = ''/r/'' @ i, int_origin = Repo,
     int_requires = req, int_conflicts = con, int_manifest = \<lparr>rm_id = Some i, rm_defaultEnabled = def,
       rm_requires = Ids (map Some req), rm_conflicts = Ids (map Some con), rm_resources = No_Entries,
       rm_runtimeHooks = None, rm_packageResources = None, rm_packageDependencies = Dependencies_Absent,
       rm_packageHooks = No_Entries\<rparr>\<rparr>"

theorem enabledPortIntegrationIds_exact_witness:
  "distinct [''a'', ''c''] \<and> ''b'' \<notin> set [''a'', ''c'']"
proof -
  let ?av = "[sample_integration ''a'' [] [] True, sample_integration ''b'' [] [] True, sample_integration ''c'' [] [] False]"
  let ?cfg = "\<lparr>cfg_enabled = [''c''], cfg_disabled = [''b''], cfg_settings = []\<rparr> :: unit integrations_config"
  have "enabledPortIntegrationIds False ?cfg ?av = Inr [''a'', ''c'']" by code_simp
  from enabledPortIntegrationIds_exact [OF this] show ?thesis by auto
qed

text \<open>The enabled integrations are accepted exactly when each one finds everything it requires
  among them and nothing it conflicts with.\<close>

theorem dependencies_exact:
  "validateEnabledIntegrationDependencies is = Inr () \<longleftrightarrow>
   (\<forall>i\<in>set is. set (int_requires i) \<subseteq> int_id ` set is) \<and>
   (\<forall>i\<in>set is. set (int_conflicts i) \<inter> int_id ` set is = {})"
  using validate_dependencies_iff by blast

theorem dependencies_exact_witness:
  "validateEnabledIntegrationDependencies [sample_integration ''a'' [''b''] [''c''] True, sample_integration ''b'' [] [] True]
     = Inr ()"
  by (subst dependencies_exact) (simp add: sample_integration_def)

text \<open>Integrations that are discovered have different ids, which match the pattern, and stand in
  the order of their ids.\<close>

theorem discovered_integrations_distinct:
  assumes "discoverPortIntegrationManifests fs read rt = Inr is"
  shows "distinct (map int_id is) \<and> sorted_wrt (\<lambda>l r. locale_compare (int_id l) (int_id r) \<le> 0) is"
proof -
  obtain m where m: "efold (add_integration fs read) (integrationManifestCandidates fs rt) [] = Inr m"
    and s: "is = js_sort (\<lambda>l r. locale_compare (int_id l) (int_id r)) (map snd m)"
    using assms by (auto simp: discoverPortIntegrationManifests_def res_simps)
  have inv: "ids.exclusive m \<and> (\<forall>(k, i)\<in>set m. k = int_id i)"
    using add_integration_ids [OF m] ids.exclusive_empty by simp
  then have "map (int_id \<circ> snd) m = map_keys m" by (auto simp: map_keys_def)
  then have "distinct (map int_id is)" using inv by (simp add: s ids.exclusive_def)
  then show ?thesis using by_id.sorted_sort [of "map snd m"] by (simp add: s)
qed

definition sample_read :: "string \<Rightarrow> raw_manifest option" where
  "sample_read p = (if p = ''/r/b/integration.json'' then Some (int_manifest (sample_integration ''b'' [] [] True))
     else if p = ''/r/a/integration.json'' then Some (int_manifest (sample_integration ''a'' [''b''] [] False))
     else None)"

definition sample_fs :: file_system where
  "sample_fs = \<lparr>fs_exists = (\<lambda>p. True), fs_is_directory = (\<lambda>p. p \<in> {''/r/a'', ''/r/b''}),
     fs_names = (\<lambda>p. if p = ''/r'' then [''b'', ''README.md'', ''a''] else [])\<rparr>"

theorem discovered_integrations_distinct_witness:
  "distinct (map int_id [sample_integration ''a'' [''b''] [] False, sample_integration ''b'' [] [] True])"
proof -
  have "discoverPortIntegrationManifests sample_fs sample_read ''/r''
      = Inr [sample_integration ''a'' [''b''] [] False, sample_integration ''b'' [] [] True]"
    by code_simp
  from discovered_integrations_distinct [OF this] show ?thesis by blast
qed

text \<open>C39: the canonical text of a JSON object does not depend on the order of its keys.\<close>

theorem canonicalJson_key_order:
  assumes "mset kvs = mset kvs'" and "distinct (map fst kvs)"
  shows "canonicalJson (JObj kvs) = canonicalJson (JObj kvs')"
proof -
  let ?f = "\<lambda>(k, v). (k, canonicalJson v)"
  have "mset (map ?f kvs) = mset (map ?f kvs')" using assms(1) by simp
  moreover have "map fst (map ?f kvs) = map fst kvs" by auto
  then have "distinct (map fst (map ?f kvs))" using assms(2) by (simp only:)
  ultimately have "js_sort (\<lambda>x y. order_cmp (fst x) (fst y)) (map ?f kvs) =
      js_sort (\<lambda>x y. order_cmp (fst x) (fst y)) (map ?f kvs')"
    by (rule js_sort_keys_unique)
  then show ?thesis by simp
qed

theorem canonicalJson_key_order_witness:
  "canonicalJson (JObj [(''b'', JNum 1), (''a'', JArr [JNull])]) = canonicalJson (JObj [(''a'', JArr [JNull]), (''b'', JNum 1)])"
  by (rule canonicalJson_key_order) auto

end
