(* ===== verification/Integration_Plans.thy ===== *)
theory Integration_Plans
  imports Integration_Config
begin

text \<open>
  \<open>scripts/lib/port-integrations.js\<close>, the plans: what the enabled integrations install in the
  app, and what they add to a package, in the integrations' order. Every target is claimed in one
  registry, so that no two of them overlap. The file system is asked which sources exist, and what
  kind of file they are; integration ids stand for the owners in messages.
\<close>

unbundle bit_operations_syntax

datatype plan_error =
    Entry_Error path_error | Hooks_Not_Object string | Unsupported_Hook string | Bad_Retain string
  | Resources_Not_Array string | Resource_Not_Object string nat | Not_A_Regular_File string nat
  | Symlink_On_Path string | Reserved_Debian string | Reserved_Pacman string
  | Outside_Package_Root | Inside_App string

fun as_plan_error :: "path_error + 'a \<Rightarrow> plan_error + 'a" where
  "as_plan_error (Inl e) = Inl (Entry_Error e)"
| "as_plan_error (Inr x) = Inr x"

lemma as_plan_error_Inr [res_simps]: "as_plan_error r = Inr x \<longleftrightarrow> r = Inr x"
  by (cases r) auto

section \<open>The install plan\<close>

definition STAGED_MANIFEST :: string where
  "STAGED_MANIFEST = ''.chatgpt-linux/port-integrations-staged.json''"

text \<open>\<open>RUNTIME_HOOK_DIRS\<close>: the directory of a kind of hook, and whether its files are executable.\<close>

definition RUNTIME_HOOK_DIRS :: "(string, string \<times> bool) jsmap" where
  "RUNTIME_HOOK_DIRS =
     [(''env'', (''env.d'', False)), (''prelaunch'', (''prelaunch.d'', True)),
      (''electronArgs'', (''electron-args.d'', False)), (''launcher'', (''launcher.d'', True)),
      (''coldStart'', (''cold-start.d'', True)), (''afterExit'', (''after-exit.d'', True))]"

record planned_resource =
  pr_id :: string
  pr_source :: "string list"
  pr_target :: string
  pr_mode :: "nat option"
  pr_index :: nat

record planned_hook =
  ph_id :: string
  ph_key :: string
  ph_source :: "string list"
  ph_name :: string
  ph_mode :: nat
  ph_target :: string
  ph_index :: nat

record install_plan =
  ip_resources :: "planned_resource list"
  ip_hooks :: "planned_hook list"
  ip_owners :: "(string, string) jsmap"

definition owner_of :: "string \<Rightarrow> nat \<Rightarrow> string \<Rightarrow> string" where
  "owner_of what index i =
     what @ '' '' @ nat_str (index + 1) @ '' for integration '' @ [CHR 39] @ i @ [CHR 39]"

definition add_resource :: "integration \<Rightarrow> nat \<times> normal_entry \<Rightarrow> install_plan \<Rightarrow> plan_error + install_plan" where
  "add_resource i ie pl =
     (case ie of (index, e) \<Rightarrow>
        as_plan_error
          (ebind (normalizeInstallRelativePath (e_target (ne_fields e))) (\<lambda>target.
           ebind (claimInstallTarget target (owner_of ''resource'' index (int_id i)) (ip_owners pl)) (\<lambda>owners.
           ebind (if e_mode (ne_fields e) = Mode_Absent then Inr None
                  else ebind (parseFileMode (e_mode (ne_fields e)) 0x1A4) (\<lambda>m. Inr (Some m))) (\<lambda>mode.
             Inr (pl\<lparr>ip_resources := ip_resources pl @ [\<lparr>pr_id = int_id i, pr_source = ne_source e,
                       pr_target = target, pr_mode = mode, pr_index = index\<rparr>],
                     ip_owners := owners\<rparr>))))))"

definition hook_name :: "integration \<Rightarrow> normal_entry \<Rightarrow> string" where
  "hook_name i e =
     int_id i @ ''-'' @ (case ne_name e of Some n \<Rightarrow> n | None \<Rightarrow> last_segment (ne_source e))"

definition hook_target :: "string \<Rightarrow> string \<Rightarrow> string" where
  "hook_target dir nm = ''.chatgpt-linux/'' @ dir @ ''/'' @ nm"

definition add_hook ::
  "integration \<Rightarrow> bool \<Rightarrow> string \<Rightarrow> string \<times> bool \<Rightarrow> nat \<times> normal_entry \<Rightarrow> install_plan
     \<Rightarrow> plan_error + install_plan" where
  "add_hook i retainedOnly key hook ie pl =
     (case ie of (index, e) \<Rightarrow>
        if e_retain (ne_fields e) = Flag_Other then Inl (Bad_Retain (int_id i))
        else if retainedOnly \<and> e_retain (ne_fields e) \<noteq> Flag True then Inr pl
        else let nm = hook_name i e; target = hook_target (fst hook) nm in
          as_plan_error
            (ebind (claimInstallTarget target (owner_of (''runtimeHooks.'' @ key) index (int_id i)) (ip_owners pl)) (\<lambda>owners.
             ebind (parseFileMode (e_mode (ne_fields e)) (if snd hook then 0x1ED else 0x1A4)) (\<lambda>mode.
               Inr (pl\<lparr>ip_hooks := ip_hooks pl @ [\<lparr>ph_id = int_id i, ph_key = key, ph_source = ne_source e,
                         ph_name = nm, ph_mode = mode, ph_target = target, ph_index = index\<rparr>],
                       ip_owners := owners\<rparr>)))))"

definition add_hook_kind ::
  "(string list \<Rightarrow> bool) \<Rightarrow> string \<Rightarrow> integration \<Rightarrow> bool \<Rightarrow> string \<times> entry_list \<Rightarrow> install_plan
     \<Rightarrow> plan_error + install_plan" where
  "add_hook_kind exists cwd i retainedOnly ks pl =
     (case map_get RUNTIME_HOOK_DIRS (fst ks) of
        None \<Rightarrow> Inl (Unsupported_Hook (fst ks))
      | Some hook \<Rightarrow>
          ebind (as_plan_error (normalizeEntryList exists cwd (int_dir i) (snd ks))) (\<lambda>es.
            efold (add_hook i retainedOnly (fst ks) hook) (enumerate 0 es) pl))"

text \<open>The hooks of an integration: \<open>None\<close> where they are no object, the empty list where absent.\<close>

definition add_hooks ::
  "(string list \<Rightarrow> bool) \<Rightarrow> string \<Rightarrow> bool \<Rightarrow> integration \<Rightarrow> install_plan \<Rightarrow> plan_error + install_plan" where
  "add_hooks exists cwd retainedOnly i pl =
     (case rm_runtimeHooks (int_manifest i) of
        None \<Rightarrow> Inl (Hooks_Not_Object (int_id i))
      | Some hooks \<Rightarrow> efold (add_hook_kind exists cwd i retainedOnly) hooks pl)"

definition install_integration ::
  "(string list \<Rightarrow> bool) \<Rightarrow> string \<Rightarrow> integration \<Rightarrow> install_plan \<Rightarrow> plan_error + install_plan" where
  "install_integration exists cwd i pl =
     ebind (as_plan_error (normalizeEntryList exists cwd (int_dir i) (rm_resources (int_manifest i)))) (\<lambda>es.
     ebind (efold (add_resource i) (enumerate 0 es) pl) (\<lambda>pl'.
       add_hooks exists cwd False i pl'))"

definition empty_install_plan :: install_plan where
  "empty_install_plan = \<lparr>ip_resources = [], ip_hooks = [],
     ip_owners = [(STAGED_MANIFEST, ''port integration staging framework'')]\<rparr>"

definition enabledPortIntegrationInstallPlan ::
  "(string list \<Rightarrow> bool) \<Rightarrow> string \<Rightarrow> integration list \<Rightarrow> integration list \<Rightarrow> plan_error + install_plan" where
  "enabledPortIntegrationInstallPlan exists cwd enabled available =
     ebind (efold (install_integration exists cwd) enabled empty_install_plan) (\<lambda>pl.
       efold (add_hooks exists cwd True)
         (filter (\<lambda>i. int_id i \<notin> int_id ` set enabled) available) pl)"

section \<open>The package plan\<close>

definition PACMAN_RESERVED_PACKAGE_TARGETS :: "string list" where
  "PACMAN_RESERVED_PACKAGE_TARGETS = [''.BUILDINFO'', ''.CHANGELOG'', ''.INSTALL'', ''.MTREE'', ''.PKGINFO'']"

datatype file_kind = Regular_File | Directory | Symbolic_Link | Other_File

record package_resource =
  pk_id :: string
  pk_source :: "string list"
  pk_target :: string
  pk_mode :: nat
  pk_formats :: "string list"
  pk_index :: nat

record package_plan =
  pp_resources :: "package_resource list"
  pp_dependencies :: "string list"
  pp_owners :: "(string, string) jsmap"

text \<open>Every path from the integration's directory down to the source.\<close>

fun paths_below :: "string list \<Rightarrow> string list \<Rightarrow> string list list" where
  "paths_below current [] = []"
| "paths_below current (s # ss) = (current @ [s]) # paths_below (current @ [s]) ss"

definition assertNoSymbolicLinkAncestors ::
  "(string list \<Rightarrow> file_kind) \<Rightarrow> string list \<Rightarrow> string list \<Rightarrow> plan_error + unit" where
  "assertNoSymbolicLinkAncestors kind_at rt target =
     (if leaves rt target then Inl (Entry_Error Not_Inside)
      else ensure (list_all (\<lambda>p. kind_at p \<noteq> Symbolic_Link)
                    (paths_below rt (relativePathParts (path_relative rt target))))
             (Symlink_On_Path (abs_path target)))"

definition reserved_target :: "string \<Rightarrow> string \<Rightarrow> plan_error option" where
  "reserved_target fmt target =
     (if fmt = ''deb'' \<and> (target = ''DEBIAN'' \<or> starts_with ''DEBIAN/'' target) then Some (Reserved_Debian target)
      else if fmt = ''pacman'' \<and> hd (segments target) \<in> set PACMAN_RESERVED_PACKAGE_TARGETS
      then Some (Reserved_Pacman target)
      else None)"

definition package_owner :: "string \<Rightarrow> string" where
  "package_owner i = ''integration '' @ [CHR 39] @ i @ [CHR 39]"

definition add_package_resource ::
  "(string list \<Rightarrow> bool) \<Rightarrow> (string list \<Rightarrow> file_kind) \<Rightarrow> string \<Rightarrow> string \<Rightarrow> integration
     \<Rightarrow> nat \<times> raw_entry \<Rightarrow> package_plan \<Rightarrow> plan_error + package_plan" where
  "add_package_resource exists kind_at cwd fmt i ie pl =
     (case ie of (index, e) \<Rightarrow>
        (case e of
           Entry_Object f \<Rightarrow>
             ebind (as_plan_error (resolveIntegrationRelativePath exists cwd (int_dir i)
                                     (or_else (e_source f) (e_path f)) True)) (\<lambda>src.
             ebind (assertNoSymbolicLinkAncestors kind_at (resolve_segments cwd [int_dir i]) src) (\<lambda>u.
             ebind (ensure (kind_at src = Regular_File) (Not_A_Regular_File (int_id i) index)) (\<lambda>u.
             ebind (as_plan_error (normalizePackageTarget (e_target f))) (\<lambda>target.
             ebind (as_plan_error (normalizePackageFormats (e_formats f))) (\<lambda>formats.
               if formats \<noteq> [] \<and> fmt \<notin> set formats then Inr pl
               else (case reserved_target fmt target of
                       Some err \<Rightarrow> Inl err
                     | None \<Rightarrow>
                         ebind (as_plan_error (claimInstallTarget target (package_owner (int_id i)) (pp_owners pl))) (\<lambda>owners.
                         ebind (as_plan_error (parsePackageResourceMode (e_mode f))) (\<lambda>mode.
                           Inr (pl\<lparr>pp_resources := pp_resources pl @ [\<lparr>pk_id = int_id i, pk_source = src,
                                     pk_target = target, pk_mode = mode, pk_formats = formats, pk_index = index\<rparr>],
                                   pp_owners := owners\<rparr>)))))))))
         | _ \<Rightarrow> Inl (Resource_Not_Object (int_id i) index)))"

text \<open>The package resources of an integration: absent, no array, or an array.\<close>

definition package_integration ::
  "(string list \<Rightarrow> bool) \<Rightarrow> (string list \<Rightarrow> file_kind) \<Rightarrow> string \<Rightarrow> string \<Rightarrow> integration \<Rightarrow> package_plan
     \<Rightarrow> plan_error + package_plan" where
  "package_integration exists kind_at cwd fmt i pl =
     ebind (as_plan_error (normalizePackageDependencies (rm_packageDependencies (int_manifest i)))) (\<lambda>deps.
       let pl' = pl\<lparr>pp_dependencies := pp_dependencies pl @
                    (case map_get deps fmt of None \<Rightarrow> [] | Some ds \<Rightarrow> ds)\<rparr> in
       case rm_packageResources (int_manifest i) of
         None \<Rightarrow> Inr pl'
       | Some None \<Rightarrow> Inl (Resources_Not_Array (int_id i))
       | Some (Some es) \<Rightarrow> efold (add_package_resource exists kind_at cwd fmt i) (enumerate 0 es) pl')"

definition enabledPortIntegrationPackagePlan ::
  "(string list \<Rightarrow> bool) \<Rightarrow> (string list \<Rightarrow> file_kind) \<Rightarrow> string \<Rightarrow> string option \<Rightarrow> integration list
     \<Rightarrow> plan_error + package_plan" where
  "enabledPortIntegrationPackagePlan exists kind_at cwd packageFormat enabled =
     ebind (as_plan_error (normalizePackageFormat packageFormat)) (\<lambda>fmt.
     ebind (efold (package_integration exists kind_at cwd fmt) enabled
              \<lparr>pp_resources = [], pp_dependencies = [], pp_owners = []\<rparr>) (\<lambda>pl.
       Inr (pl\<lparr>pp_resources := js_sort (\<lambda>l r. locale_compare (pk_target l) (pk_target r)) (pp_resources pl),
               pp_dependencies := js_sort order_cmp (uniq (pp_dependencies pl))\<rparr>)))"

definition enabledPortIntegrationPackageDependencies :: "package_plan \<Rightarrow> string list" where
  "enabledPortIntegrationPackageDependencies pl = pp_dependencies pl"

definition enabledPortIntegrationPackageFiles :: "package_plan \<Rightarrow> string list" where
  "enabledPortIntegrationPackageFiles pl = map (\<lambda>r. ''/'' @ pk_target r) (pp_resources pl)"

definition check_outside_app :: "string \<Rightarrow> package_resource \<Rightarrow> unit \<Rightarrow> plan_error + unit" where
  "check_outside_app app r u =
     ensure (\<not> (pk_target r = app \<or> starts_with (app @ ''/'') (pk_target r) \<or>
                 starts_with (pk_target r @ ''/'') app)) (Inside_App (pk_target r))"

definition assertPackageResourcesOutsideApp ::
  "string list \<Rightarrow> string list \<Rightarrow> package_plan \<Rightarrow> plan_error + unit" where
  "assertPackageResourcesOutsideApp rt app pl =
     (let rel = path_relative rt app in
      if rel = [] \<or> rel = ''..'' \<or> starts_with ''../'' rel \<or> is_absolute rel then Inl Outside_Package_Root
      else efold (check_outside_app rel) (pp_resources pl) ())"

section \<open>Package hooks\<close>

record package_hook =
  pkh_id :: string
  pkh_path :: "string list"
  pkh_formats :: "string list"
  pkh_index :: nat

definition hook_formats :: "formats_value \<Rightarrow> path_error + string list" where
  "hook_formats v =
     normalizeIntegrationIdList (case v of Formats_Absent \<Rightarrow> Ids_Absent | Formats xs \<Rightarrow> Ids xs | Formats_Other \<Rightarrow> Ids_Other)"

definition add_package_hook ::
  "string option \<Rightarrow> integration \<Rightarrow> nat \<times> normal_entry \<Rightarrow> package_hook list \<Rightarrow> path_error + package_hook list" where
  "add_package_hook fmt i ie hooks =
     (case ie of (index, e) \<Rightarrow>
        ebind (hook_formats (e_formats (ne_fields e))) (\<lambda>formats.
          if (case fmt of None \<Rightarrow> False | Some f \<Rightarrow> formats \<noteq> [] \<and> f \<notin> set formats) then Inr hooks
          else Inr (hooks @ [\<lparr>pkh_id = int_id i, pkh_path = ne_source e, pkh_formats = formats, pkh_index = index\<rparr>])))"

definition enabledPortIntegrationPackageHooks ::
  "(string list \<Rightarrow> bool) \<Rightarrow> string \<Rightarrow> string option \<Rightarrow> integration list \<Rightarrow> path_error + package_hook list" where
  "enabledPortIntegrationPackageHooks exists cwd fmt enabled =
     efold (\<lambda>i hooks.
       ebind (normalizeEntryList exists cwd (int_dir i) (rm_packageHooks (int_manifest i))) (\<lambda>es.
         efold (add_package_hook fmt i) (enumerate 0 es) hooks)) enabled []"

section \<open>Laws\<close>

lemma claimInstallTarget_claim:
  "claimInstallTarget t ow m = Inr m' \<longleftrightarrow> claim_key overlaps t ow m = Inr m'"
  by (auto simp: claimInstallTarget_def split: sum.splits)

text \<open>What every step of the install plan keeps: the registry is exclusive and holds the staged
  manifest and the targets of the plan, in the order they were claimed.\<close>

definition install_invariant :: "install_plan \<Rightarrow> bool" where
  "install_invariant pl \<longleftrightarrow> targets.exclusive (ip_owners pl) \<and>
     mset (map_keys (ip_owners pl)) =
       {#STAGED_MANIFEST#} + mset (map pr_target (ip_resources pl)) + mset (map ph_target (ip_hooks pl)) \<and>
     (\<forall>r\<in>set (ip_resources pl). inside_target (pr_target r))"

lemma add_resource_invariant:
  "add_resource i ie pl = Inr pl' \<Longrightarrow> install_invariant pl \<Longrightarrow> install_invariant pl'"
  by (cases ie)
    (auto simp: add_resource_def res_simps claimInstallTarget_claim install_invariant_def
      targets.claim_keys normalizeInstallRelativePath_inside dest: targets.claim_exclusive)

lemma add_hook_invariant:
  "add_hook i ro key hook ie pl = Inr pl' \<Longrightarrow> install_invariant pl \<Longrightarrow> install_invariant pl'"
  by (cases ie)
    (auto simp: add_hook_def Let_def res_simps claimInstallTarget_claim install_invariant_def
      targets.claim_keys dest: targets.claim_exclusive split: if_splits)

lemma add_hook_kind_invariant:
  "add_hook_kind exists cwd i ro ks pl = Inr pl' \<Longrightarrow> install_invariant pl \<Longrightarrow> install_invariant pl'"
  by (auto simp: add_hook_kind_def res_simps split: option.splits
      elim: efold_preserves dest: add_hook_invariant)

lemma add_hooks_invariant:
  "add_hooks exists cwd ro i pl = Inr pl' \<Longrightarrow> install_invariant pl \<Longrightarrow> install_invariant pl'"
  by (auto simp: add_hooks_def split: option.splits elim: efold_preserves dest: add_hook_kind_invariant)

lemma install_integration_invariant:
  assumes "install_integration exists cwd i pl = Inr pl'" and "install_invariant pl"
  shows "install_invariant pl'"
proof -
  obtain es p1 where 1: "efold (add_resource i) (enumerate 0 es) pl = Inr p1"
    and 2: "add_hooks exists cwd False i p1 = Inr pl'"
    using assms(1) by (auto simp: install_integration_def res_simps)
  have "install_invariant p1"
    by (rule efold_preserves [OF 1, of install_invariant]) (use assms(2) add_resource_invariant in blast)+
  then show ?thesis using add_hooks_invariant [OF 2] by blast
qed

lemma install_plan_invariant:
  assumes "enabledPortIntegrationInstallPlan exists cwd enabled available = Inr pl"
  shows "install_invariant pl"
proof -
  obtain p1 where 1: "efold (install_integration exists cwd) enabled empty_install_plan = Inr p1"
    and 2: "efold (add_hooks exists cwd True) (filter (\<lambda>i. int_id i \<notin> int_id ` set enabled) available) p1 = Inr pl"
    using assms by (auto simp: enabledPortIntegrationInstallPlan_def res_simps)
  have "install_invariant empty_install_plan"
    by (simp add: install_invariant_def empty_install_plan_def targets.exclusive_def map_keys_def)
  then have "install_invariant p1"
    by (rule efold_preserves [OF 1]) (rule install_integration_invariant)
  then show ?thesis by (rule efold_preserves [OF 2]) (rule add_hooks_invariant)
qed

definition package_invariant :: "string \<Rightarrow> package_plan \<Rightarrow> bool" where
  "package_invariant fmt pl \<longleftrightarrow> targets.exclusive (pp_owners pl) \<and>
     map_keys (pp_owners pl) = map pk_target (pp_resources pl) \<and>
     (\<forall>r\<in>set (pp_resources pl). inside_target (pk_target r) \<and> \<not> has_special_bits (pk_mode r) \<and>
        reserved_target fmt (pk_target r) = None \<and> (pk_formats r = [] \<or> fmt \<in> set (pk_formats r)))"

lemma special_bits: "parsePackageResourceMode v = Inr m \<Longrightarrow> \<not> has_special_bits m"
  by (auto simp: parsePackageResourceMode_def res_simps split: if_splits)

lemma add_package_resource_invariant:
  assumes "add_package_resource exists kind_at cwd fmt i ie pl = Inr pl'" and "package_invariant fmt pl"
  shows "package_invariant fmt pl'"
proof -
  obtain index f where ie: "ie = (index, Entry_Object f)"
    using assms(1) by (cases ie; cases "snd ie") (auto simp: add_package_resource_def)
  obtain src target formats where t: "normalizePackageTarget (e_target f) = Inr target"
    and step: "(if formats \<noteq> [] \<and> fmt \<notin> set formats then Inr pl
       else (case reserved_target fmt target of
          Some err \<Rightarrow> Inl err
        | None \<Rightarrow>
            ebind (as_plan_error (claimInstallTarget target (package_owner (int_id i)) (pp_owners pl))) (\<lambda>owners.
            ebind (as_plan_error (parsePackageResourceMode (e_mode f))) (\<lambda>mode.
              Inr (pl\<lparr>pp_resources := pp_resources pl @ [\<lparr>pk_id = int_id i, pk_source = src,
                        pk_target = target, pk_mode = mode, pk_formats = formats, pk_index = index\<rparr>],
                      pp_owners := owners\<rparr>))))) = Inr pl'"
    using assms(1) unfolding ie by (auto simp: add_package_resource_def res_simps)
  show ?thesis
  proof (cases "formats \<noteq> [] \<and> fmt \<notin> set formats")
    case True
    with step assms(2) show ?thesis by simp
  next
    case False
    with step obtain owners mode where
      free: "reserved_target fmt target = None" and
      c: "claim_key overlaps target (package_owner (int_id i)) (pp_owners pl) = Inr owners" and
      m: "parsePackageResourceMode (e_mode f) = Inr mode" and
      pl': "pl' = pl\<lparr>pp_resources := pp_resources pl @ [\<lparr>pk_id = int_id i, pk_source = src,
          pk_target = target, pk_mode = mode, pk_formats = formats, pk_index = index\<rparr>], pp_owners := owners\<rparr>"
      by (auto simp: res_simps claimInstallTarget_claim split: option.splits)
    have "inside_target target" using normalizePackageTarget_inside [OF t] by blast
    then show ?thesis
      using assms(2) False free targets.claim_keys [OF c] targets.claim_exclusive [OF c] special_bits [OF m]
      by (auto simp: package_invariant_def pl')
  qed
qed

lemma package_integration_invariant:
  assumes "package_integration exists kind_at cwd fmt i pl = Inr pl'" and "package_invariant fmt pl"
  shows "package_invariant fmt pl'"
proof -
  obtain ds where ds: "let pl1 = pl\<lparr>pp_dependencies := ds\<rparr> in
       (case rm_packageResources (int_manifest i) of
         None \<Rightarrow> Inr pl1
       | Some None \<Rightarrow> Inl (Resources_Not_Array (int_id i))
       | Some (Some es) \<Rightarrow> efold (add_package_resource exists kind_at cwd fmt i) (enumerate 0 es) pl1) = Inr pl'"
    using assms(1) by (auto simp: package_integration_def res_simps Let_def)
  have inv: "package_invariant fmt (pl\<lparr>pp_dependencies := ds\<rparr>)"
    using assms(2) by (simp add: package_invariant_def)
  show ?thesis
  proof (cases "rm_packageResources (int_manifest i)")
    case None
    with ds inv show ?thesis by simp
  next
    case (Some es)
    with ds obtain xs where "efold (add_package_resource exists kind_at cwd fmt i) (enumerate 0 xs)
        (pl\<lparr>pp_dependencies := ds\<rparr>) = Inr pl'" by (cases es) auto
    then show ?thesis using inv
      by (rule efold_preserves) (rule add_package_resource_invariant)
  qed
qed


interpretation by_target: consistent_comparator "\<lambda>l r. locale_compare (pk_target l) (pk_target r)"
  by unfold_locales (auto intro: collate.cmp_refl collate.cmp_trans simp: collate.cmp_total)

section \<open>Properties\<close>

text \<open>C15: in an install plan, all the targets, with the staged manifest that the launcher reads, are
  different and none lies at or below another; and every resource stays inside the app.\<close>

theorem install_targets_exclusive:
  assumes "enabledPortIntegrationInstallPlan exists cwd enabled available = Inr pl"
  defines "ts \<equiv> STAGED_MANIFEST # map pr_target (ip_resources pl) @ map ph_target (ip_hooks pl)"
  shows "distinct ts \<and> (\<forall>s\<in>set ts. \<forall>t\<in>set ts. overlaps s t \<longrightarrow> s = t) \<and>
    (\<forall>r\<in>set (ip_resources pl). inside_target (pr_target r))"
proof -
  have inv: "install_invariant pl" by (rule install_plan_invariant [OF assms(1)])
  then have m: "mset (map_keys (ip_owners pl)) = mset ts"
    by (simp add: install_invariant_def ts_def)
  then have "distinct ts \<longleftrightarrow> distinct (map_keys (ip_owners pl))" "set ts = set (map_keys (ip_owners pl))"
    by (metis mset_eq_imp_distinct_iff, metis set_mset_mset)
  then show ?thesis
    using inv by (auto simp: install_invariant_def targets.exclusive_def)
qed

definition sample_entry :: "string \<Rightarrow> raw_entry" where
  "sample_entry t = Entry_Object (no_fields\<lparr>e_source := Some ''a.so'', e_target := Some t\<rparr>)"

definition sample_provider :: "string \<Rightarrow> string \<Rightarrow> integration" where
  "sample_provider i t = sample_integration i [] [] True\<lparr>int_manifest :=
     (int_manifest (sample_integration i [] [] True))\<lparr>rm_resources := Single (sample_entry t),
       rm_runtimeHooks := Some [(''env'', Single (sample_entry t))],
       rm_packageResources := Some (Some [sample_entry (''usr/'' @ t)])\<rparr>\<rparr>"

definition sample_install_plan :: install_plan where
  "sample_install_plan =
     (case enabledPortIntegrationInstallPlan (\<lambda>p. True) ''/r'' [sample_provider ''x'' ''lib/a.so'', sample_provider ''y'' ''lib/b.so''] [] of
        Inr pl \<Rightarrow> pl | Inl e \<Rightarrow> empty_install_plan)"

theorem install_targets_exclusive_witness:
  "map pr_target (ip_resources sample_install_plan) = [''lib/a.so'', ''lib/b.so''] \<and>
   distinct (STAGED_MANIFEST # map pr_target (ip_resources sample_install_plan) @ map ph_target (ip_hooks sample_install_plan))"
proof -
  have "enabledPortIntegrationInstallPlan (\<lambda>p. True) ''/r'' [sample_provider ''x'' ''lib/a.so'', sample_provider ''y'' ''lib/b.so''] []
      = Inr sample_install_plan" by code_simp
  note d = install_targets_exclusive [OF this]
  have "map pr_target (ip_resources sample_install_plan) = [''lib/a.so'', ''lib/b.so'']" by code_simp
  then show ?thesis using d by blast
qed

text \<open>C16: the resources of a package plan stand in the order of their targets; no target lies at or
  below another or is reserved by the package format; each stays inside the package root, carries
  no set-user-id, set-group-id or sticky bit, and is meant for the format; and the dependencies are
  sorted and distinct.\<close>

theorem package_plan_sound:
  assumes "enabledPortIntegrationPackagePlan exists kind_at cwd packageFormat enabled = Inr pl"
  shows "\<exists>fmt. normalizePackageFormat packageFormat = Inr fmt \<and>
    distinct (map pk_target (pp_resources pl)) \<and>
    sorted_wrt (\<lambda>l r. locale_compare (pk_target l) (pk_target r) \<le> 0) (pp_resources pl) \<and>
    (\<forall>r\<in>set (pp_resources pl). \<forall>s\<in>set (pp_resources pl).
       overlaps (pk_target r) (pk_target s) \<longrightarrow> pk_target r = pk_target s) \<and>
    (\<forall>r\<in>set (pp_resources pl). inside_target (pk_target r) \<and> \<not> has_special_bits (pk_mode r) \<and>
       reserved_target fmt (pk_target r) = None \<and> (pk_formats r = [] \<or> fmt \<in> set (pk_formats r))) \<and>
    sorted (pp_dependencies pl) \<and> distinct (pp_dependencies pl)"
proof -
  obtain fmt p where fmt: "normalizePackageFormat packageFormat = Inr fmt"
    and p: "efold (package_integration exists kind_at cwd fmt) enabled
      \<lparr>pp_resources = [], pp_dependencies = [], pp_owners = []\<rparr> = Inr p"
    and pl: "pl = p\<lparr>pp_resources := js_sort (\<lambda>l r. locale_compare (pk_target l) (pk_target r)) (pp_resources p),
               pp_dependencies := js_sort order_cmp (uniq (pp_dependencies p))\<rparr>"
    using assms by (auto simp: enabledPortIntegrationPackagePlan_def res_simps)
  have inv: "package_invariant fmt p"
    by (rule efold_preserves [OF p])
      (simp add: package_invariant_def targets.exclusive_def map_keys_def, rule package_integration_invariant)
  note [simp] = pl
  have "distinct (map pk_target (pp_resources pl))"
    using inv by (auto simp: package_invariant_def targets.exclusive_def)
  moreover have "sorted_wrt (\<lambda>l r. locale_compare (pk_target l) (pk_target r) \<le> 0) (pp_resources pl)"
    using by_target.sorted_sort by simp
  moreover have "overlaps (pk_target r) (pk_target s) \<Longrightarrow> pk_target r = pk_target s"
    if "r \<in> set (pp_resources pl)" "s \<in> set (pp_resources pl)" for r s
    using inv that unfolding package_invariant_def targets.exclusive_def by force
  moreover have "\<forall>r\<in>set (pp_resources pl). inside_target (pk_target r) \<and> \<not> has_special_bits (pk_mode r) \<and>
       reserved_target fmt (pk_target r) = None \<and> (pk_formats r = [] \<or> fmt \<in> set (pk_formats r))"
    using inv by (simp add: package_invariant_def)
  moreover have "sorted (pp_dependencies pl) \<and> distinct (pp_dependencies pl)"
    using units.sorted_sort [of "uniq (pp_dependencies p)"]
      distinct_map_js_sort [of id order_cmp "uniq (pp_dependencies p)"] by simp
  ultimately show ?thesis using fmt by blast
qed

definition sample_package_plan :: package_plan where
  "sample_package_plan =
     (case enabledPortIntegrationPackagePlan (\<lambda>p. True) (\<lambda>p. Regular_File) ''/r'' (Some ''deb'')
         [sample_provider ''x'' ''lib/b.so'', sample_provider ''y'' ''lib/a.so''] of
        Inr pl \<Rightarrow> pl | Inl e \<Rightarrow> \<lparr>pp_resources = [], pp_dependencies = [], pp_owners = []\<rparr>)"

theorem package_plan_sound_witness:
  "map pk_target (pp_resources sample_package_plan) = [''usr/lib/a.so'', ''usr/lib/b.so''] \<and>
   sorted (pp_dependencies sample_package_plan)"
proof -
  have "enabledPortIntegrationPackagePlan (\<lambda>p. True) (\<lambda>p. Regular_File) ''/r'' (Some ''deb'')
         [sample_provider ''x'' ''lib/b.so'', sample_provider ''y'' ''lib/a.so''] = Inr sample_package_plan"
    by code_simp
  note d = package_plan_sound [OF this]
  have "map pk_target (pp_resources sample_package_plan) = [''usr/lib/a.so'', ''usr/lib/b.so'']" by code_simp
  then show ?thesis using d by blast
qed

end
