(* ===== verification/Integration_Patches.thy ===== *)
theory Integration_Patches
  imports Integration_Config Patch_Engine
begin

text \<open>
  \<open>scripts/lib/port-integrations.js\<close>, the patches and hooks that integrations bring: each descriptor an
  integration exports is wrapped, so that it is known as the integration's, comes after the core
  ones, and sees its integration in the context. What cannot be loaded or used is left out with a warning. What
  \<open>require\<close> gives for an entry point is a parameter; a warning is a value of \<open>integration_warning\<close>.
\<close>

section \<open>Entry points\<close>

datatype integration_warning =
    Bad_Entrypoint path_error | Load_Failed string string string
  | Not_Object string nat | Without_Apply string nat | Without_Id string nat | Without_Descriptors string

text \<open>A value, with the warnings printed on the way.\<close>

type_synonym 'a warned_value = "integration_warning list \<times> 'a"

text \<open>The value of \<open>manifest.entrypoints?.[key]\<close>, and whether a path exists.\<close>

type_synonym entrypoints = "integration \<Rightarrow> string \<Rightarrow> mval option"

definition mval_text :: "mval \<Rightarrow> string option" where
  "mval_text v = (case v of MStr s \<Rightarrow> Some s | _ \<Rightarrow> None)"

definition resolveIntegrationEntrypoint ::
  "entrypoints \<Rightarrow> (string list \<Rightarrow> bool) \<Rightarrow> string \<Rightarrow> integration \<Rightarrow> string \<Rightarrow> string list option warned_value" where
  "resolveIntegrationEntrypoint entrypoint exists cwd i key =
     (case nullish (entrypoint i key) of
        None \<Rightarrow> ([], None)
      | Some v \<Rightarrow>
          (case resolveIntegrationRelativePath exists cwd (int_dir i) (mval_text v) True of
             Inl e \<Rightarrow> ([Bad_Entrypoint e], None)
           | Inr path \<Rightarrow> ([], Some path)))"

text \<open>What \<open>require\<close> of a file gives: an error with its message, or the exports.\<close>

type_synonym 'w modules = "string list \<Rightarrow> string + 'w exported option"

definition loadIntegrationEntrypointModule ::
  "'w modules \<Rightarrow> entrypoints \<Rightarrow> (string list \<Rightarrow> bool) \<Rightarrow> string \<Rightarrow> integration \<Rightarrow> string
     \<Rightarrow> (string list \<times> 'w exported option) option warned_value" where
  "loadIntegrationEntrypointModule require_module entrypoint exists cwd i key =
     (case resolveIntegrationEntrypoint entrypoint exists cwd i key of
        (ws, None) \<Rightarrow> (ws, None)
      | (ws, Some path) \<Rightarrow>
          (case require_module path of
             Inl message \<Rightarrow> (ws @ [Load_Failed (int_id i) key message], None)
           | Inr exports \<Rightarrow> (ws, Some (path, exports))))"

section \<open>Wrapping a descriptor\<close>

definition integrationContext :: "integration \<Rightarrow> 'w patch_context \<Rightarrow> 'w patch_context" where
  "integrationContext i c = c\<lparr>contextIntegration := Some (int_id i)\<rparr>"

definition integration_prefix :: "integration \<Rightarrow> string" where
  "integration_prefix i = ''integration:'' @ int_id i"

definition prefixedIntegrationPatchId :: "integration \<Rightarrow> string \<Rightarrow> string" where
  "prefixedIntegrationPatchId i descId =
     (if starts_with (integration_prefix i) descId then descId else integration_prefix i @ '':'' @ descId)"

text \<open>The patch function gets a copy of the context: what it does to the application stays, what it sets in
  the copy is lost.\<close>

definition wrap_apply :: "integration \<Rightarrow> (pvalue \<Rightarrow> 'w patch_context \<Rightarrow> 'w applied) \<Rightarrow>
    pvalue \<Rightarrow> 'w patch_context \<Rightarrow> 'w applied" where
  "wrap_apply i f v c =
     (let a = f v (integrationContext i c) in a\<lparr>context_after := c\<lparr>world := world (context_after a)\<rparr>\<rparr>)"

definition wrap_summary :: "integration \<Rightarrow> 'w target_summary \<Rightarrow> 'w target_summary" where
  "wrap_summary i t = (case t of Summary_Fun f \<Rightarrow> Summary_Fun (\<lambda>c. f (integrationContext i c)) | _ \<Rightarrow> t)"

definition wrap_descriptor ::
  "integration \<Rightarrow> 'w descriptor \<Rightarrow> string \<Rightarrow> string \<Rightarrow> (pvalue \<Rightarrow> 'w patch_context \<Rightarrow> 'w applied) \<Rightarrow> nat \<Rightarrow> nat
     \<Rightarrow> 'w descriptor" where
  "wrap_descriptor i d wrappedId sourcePath f index integrationIndex =
     d\<lparr>d_id := Some (MStr wrappedId),
       d_name := or_text (d_name d) wrappedId,
       d_ciPolicy := or_text (d_ciPolicy d) ''optional'',
       d_sourceKind := Some (MStr ''integration''),
       d_integrationId := Some (MStr (int_id i)),
       d_order := Some (case d_order d of Some n \<Rightarrow> n | None \<Rightarrow> 20000 + int integrationIndex * 100 + int index * 10),
       d_sourcePath := Some sourcePath,
       d_apply := Fun (wrap_apply i f),
       d_appliesTo := map_option (\<lambda>g c. g (integrationContext i c)) (d_appliesTo d),
       d_enabled := map_option (\<lambda>g c. g (integrationContext i c)) (d_enabled d),
       d_assetMatch := (case d_assetMatch d of
                          Fun m \<Rightarrow> Fun (\<lambda>text name c. m text name (integrationContext i c)) | other \<Rightarrow> other),
       d_targetSummary := map_option (wrap_summary i) (d_targetSummary d),
       d_status := map_option (\<lambda>g v ws c. g v ws (integrationContext i c)) (d_status d)\<rparr>"

definition wrapIntegrationPatchDescriptor ::
  "integration \<Rightarrow> 'w descriptor option \<Rightarrow> string \<Rightarrow> nat \<Rightarrow> nat \<Rightarrow> 'w descriptor option warned_value" where
  "wrapIntegrationPatchDescriptor i desc sourcePath index integrationIndex =
     (case desc of
        None \<Rightarrow> ([Not_Object (int_id i) (index + 1)], None)
      | Some d \<Rightarrow>
          (case d_apply d of
             Fun f \<Rightarrow>
               (case descriptorId d of
                  Some (MStr (c # cs)) \<Rightarrow>
                    ([], Some (wrap_descriptor i d (prefixedIntegrationPatchId i (c # cs)) sourcePath f index integrationIndex))
                | _ \<Rightarrow> ([Without_Id (int_id i) (index + 1)], None))
           | _ \<Rightarrow> ([Without_Apply (int_id i) (index + 1)], None)))"

definition integrationPatchDescriptorListFromExports ::
  "integration \<Rightarrow> 'w exported option \<Rightarrow> string \<Rightarrow> nat \<Rightarrow> 'w descriptor list warned_value" where
  "integrationPatchDescriptorListFromExports i exports sourcePath integrationIndex =
     (case exports of
        None \<Rightarrow> ([Without_Descriptors (int_id i)], [])
      | Some x \<Rightarrow>
          (let wrapped = map (\<lambda>(index, d). wrapIntegrationPatchDescriptor i d sourcePath index integrationIndex)
                           (enumerate 0 (exported_list x))
           in (concat (map fst wrapped), List.map_filter snd wrapped)))"

definition path_text :: "string list \<Rightarrow> string" where
  "path_text parts = ''/'' @ join ''/'' parts"

definition loaded_descriptors ::
  "'w modules \<Rightarrow> entrypoints \<Rightarrow> (string list \<Rightarrow> bool) \<Rightarrow> string \<Rightarrow> nat \<times> integration \<Rightarrow> 'w descriptor list warned_value" where
  "loaded_descriptors require_module entrypoint exists cwd ii =
     (case loadIntegrationEntrypointModule require_module entrypoint exists cwd (snd ii) ''patchDescriptors'' of
        (ws, None) \<Rightarrow> (ws, [])
      | (ws, Some (path, exports)) \<Rightarrow>
          (case integrationPatchDescriptorListFromExports (snd ii) exports (path_text path) (fst ii) of
             (ws', ds) \<Rightarrow> (ws @ ws', ds)))"

definition loadPortIntegrationPatchDescriptors ::
  "'w modules \<Rightarrow> entrypoints \<Rightarrow> (string list \<Rightarrow> bool) \<Rightarrow> string \<Rightarrow> enabled_error + integration list
     \<Rightarrow> enabled_error + 'w descriptor list warned_value" where
  "loadPortIntegrationPatchDescriptors require_module entrypoint exists cwd enabled =
     ebind enabled (\<lambda>is.
       let loaded = map (loaded_descriptors require_module entrypoint exists cwd) (enumerate 0 is)
       in Inr (concat (map fst loaded), concat (map snd loaded)))"

section \<open>Hooks\<close>

definition resolved_hook ::
  "entrypoints \<Rightarrow> (string list \<Rightarrow> bool) \<Rightarrow> string \<Rightarrow> string \<Rightarrow> integration \<Rightarrow> (string \<times> string list) option warned_value" where
  "resolved_hook entrypoint exists cwd key i =
     (case resolveIntegrationEntrypoint entrypoint exists cwd i key of (ws, p) \<Rightarrow> (ws, map_option (Pair (int_id i)) p))"

definition enabledPortIntegrationStageHooks ::
  "entrypoints \<Rightarrow> (string list \<Rightarrow> bool) \<Rightarrow> string \<Rightarrow> enabled_error + integration list
     \<Rightarrow> enabled_error + (string \<times> string list) list warned_value" where
  "enabledPortIntegrationStageHooks entrypoint exists cwd enabled =
     ebind enabled (\<lambda>is.
       let hooks = map (resolved_hook entrypoint exists cwd ''stageHook'') is
       in Inr (concat (map fst hooks), List.map_filter snd hooks))"

definition disabledPortIntegrationCleanupHooks ::
  "entrypoints \<Rightarrow> (string list \<Rightarrow> bool) \<Rightarrow> string \<Rightarrow> string list \<Rightarrow> integration list
     \<Rightarrow> (string \<times> string list) list warned_value" where
  "disabledPortIntegrationCleanupHooks entrypoint exists cwd enabledIds available =
     (let hooks = map (resolved_hook entrypoint exists cwd ''cleanupHook'')
                    (filter (\<lambda>i. int_id i \<notin> set enabledIds) available)
      in (concat (map fst hooks), List.map_filter snd hooks))"

section \<open>Lemmas\<close>

text \<open>What a wrapped descriptor is.\<close>

definition belongs_to :: "integration \<Rightarrow> 'w descriptor \<Rightarrow> bool" where
  "belongs_to i d \<longleftrightarrow>
     d_sourceKind d = Some (MStr ''integration'') \<and> d_integrationId d = Some (MStr (int_id i)) \<and>
     (\<exists>x. d_id d = Some (MStr (integration_prefix i @ x))) \<and> (\<exists>f. d_apply d = Fun f)"

lemma prefixed_id: "\<exists>x. prefixedIntegrationPatchId i t = integration_prefix i @ x"
  by (auto simp: prefixedIntegrationPatchId_def starts_with_iff)

lemma wrapped_belongs:
  "wrapIntegrationPatchDescriptor i desc p n m = (ws, Some d) \<Longrightarrow> belongs_to i d"
  using prefixed_id [of i]
  by (auto simp: wrapIntegrationPatchDescriptor_def wrap_descriptor_def belongs_to_def
      split: option.splits mval.splits list.splits slot.splits)

lemma exported_belong:
  "integrationPatchDescriptorListFromExports i exports p m = (ws, ds) \<Longrightarrow> list_all (belongs_to i) ds"
  by (auto simp: integrationPatchDescriptorListFromExports_def Let_def list_all_iff List.map_filter_def
      split: option.splits) (metis prod.collapse wrapped_belongs)

lemma loaded_belong:
  "loaded_descriptors rq en ex cwd ii = (ws, ds) \<Longrightarrow> list_all (belongs_to (snd ii)) ds"
  by (auto simp: loaded_descriptors_def dest: exported_belong split: prod.splits option.splits)

lemma load_belong:
  assumes "loadPortIntegrationPatchDescriptors rq en ex cwd (Inr is) = Inr (ws, ds)"
  shows "list_all (\<lambda>d. \<exists>i\<in>set is. belongs_to i d) ds"
proof -
  have ds: "ds = concat (map snd (map (loaded_descriptors rq en ex cwd) (enumerate 0 is)))"
    using assms by (simp add: loadPortIntegrationPatchDescriptors_def Let_def)
  have "\<exists>i\<in>set is. belongs_to i d" if "ii \<in> set (enumerate 0 is)" "d \<in> set (snd (loaded_descriptors rq en ex cwd ii))" for ii d
  proof -
    have "snd ii \<in> set is" using that(1) by (metis list.set_map image_eqI map_snd_enumerate)
    moreover have "belongs_to (snd ii) d"
      using loaded_belong [of rq en ex cwd ii] that(2) by (cases "loaded_descriptors rq en ex cwd ii") (auto simp: list_all_iff)
    ultimately show ?thesis by blast
  qed
  thus ?thesis unfolding ds list_all_iff by auto
qed

lemma normalize_keeps_owner:
  assumes "normalizeDescriptor (Some d) p n = Inr d'" and "belongs_to i d"
  shows "belongs_to i d'"
proof -
  have "d_id d' = descriptorId d" using normalizeDescriptor_id [OF assms(1)] .
  thus ?thesis using assms
    by (auto simp: normalizeDescriptor_def belongs_to_def descriptorId_def coalesce_def or_text_def Let_def
        split: option.splits mval.splits list.splits slot.splits if_splits) metis+
qed

lemma normalized_belong:
  assumes "normalizePatchDescriptors ds = Inr ns" and "list_all (\<lambda>d. \<exists>i\<in>I. belongs_to i d) ds"
  shows "list_all (\<lambda>d. \<exists>i\<in>I. belongs_to i d) ns"
proof -
  obtain ms where m: "emap (\<lambda>(index, d). normalizeDescriptor (Some d) (d_sourcePath d) index) (enumerate 0 ds) = Inr ms"
    and n: "set ns = set ms"
    using assms(1) by (auto simp: normalizePatchDescriptors_def sortPatchDescriptors_def ebind_eq_Inr)
  have "\<exists>k d. d \<in> set ds \<and> normalizeDescriptor (Some d) (d_sourcePath d) k = Inr d'" if e: "d' \<in> set ms" for d'
  proof -
    obtain x where x: "x \<in> set (enumerate 0 ds)"
      "(\<lambda>(index, d). normalizeDescriptor (Some d) (d_sourcePath d) index) x = Inr d'"
      using emap_set [OF m e] by blast
    have "snd x \<in> set ds" using x(1) by (metis list.set_map image_eqI map_snd_enumerate)
    thus ?thesis using x(2) by (cases x) auto
  qed
  thus ?thesis using assms(2) normalize_keeps_owner unfolding list_all_iff n by metis
qed

lemma belongs_not_core: "belongs_to i d \<Longrightarrow> \<not> core_kind d \<and> \<not> required_core d"
  by (auto simp: belongs_to_def core_kind_def required_core_def or_text_def)

lemma main_fold_not_core:
  "tfold main_step ds acc s = (Inr acc', t) \<Longrightarrow> list_all (\<lambda>d. \<not> core_kind d) ds \<Longrightarrow>
   coreWarnings acc' = coreWarnings acc \<and> requiredCoreWarnings acc' = requiredCoreWarnings acc"
proof (induction ds arbitrary: acc s)
  case (Cons d ds)
  then obtain a1 s1 where st: "main_step d acc s = (Inr a1, s1)" "tfold main_step ds a1 s1 = (Inr acc', t)"
    by (auto simp: res_simps)
  have "coreWarnings a1 = coreWarnings acc \<and> requiredCoreWarnings a1 = requiredCoreWarnings acc"
    using main_step_entry [OF st(1)] Cons.prems(2)
    by (cases "skip_status d (ctx s)") (auto simp: note_warnings_def required_core_def)
  thus ?case using Cons.IH [OF st(2)] Cons.prems(2) by simp
qed (simp add: res_simps)

section \<open>Properties\<close>


definition sample_modules :: "unit modules" where
  "sample_modules p = Inr (Some (One (Some (sample_patch (Inr (Text ''y'')) [''drift'']))))"

definition sample_wrapped :: "unit descriptor" where
  "sample_wrapped = wrap_descriptor (sample_integration ''a'' [] [] True) (sample_patch (Inr (Text ''y'')) [''drift''])
     ''integration:a:p'' ''/r/a/patch.js''
     (\<lambda>v c. \<lparr>outcome = Inr (Text ''y''), warned = [''drift''], strategies_noted = [], context_after = c\<rparr>) 0 0"

lemma sample_load:
  "loadPortIntegrationPatchDescriptors sample_modules (\<lambda>i k. Some (MStr ''patch.js'')) (\<lambda>p. True) ''/''
     (Inr [sample_integration ''a'' [] [] True]) = Inr ([], [sample_wrapped])"
proof -
  have r: "resolveIntegrationRelativePath (\<lambda>p. True) ''/'' ''/r/a'' (Some ''patch.js'') True = Inr [''r'', ''a'', ''patch.js'']"
    by code_simp
  have p: "prefixedIntegrationPatchId (sample_integration ''a'' [] [] True) ''p'' = ''integration:a:p''"
    by (simp add: prefixedIntegrationPatchId_def integration_prefix_def sample_integration_def starts_with_def)
  have d: "d_apply (sample_patch (Inr (Text ''y'')) [''drift'']) =
      Fun (\<lambda>v c. \<lparr>outcome = Inr (Text ''y''), warned = [''drift''], strategies_noted = [], context_after = c\<rparr>)"
    "descriptorId (sample_patch (Inr (Text ''y'')) [''drift'']) = Some (MStr ''p'')"
    by (simp_all add: sample_patch_def sample_descriptor_def descriptorId_def coalesce_def)
  have s: "int_dir (sample_integration ''a'' [] [] True) = ''/r/a''" by (simp add: sample_integration_def)
  show ?thesis
    by (simp add: loadPortIntegrationPatchDescriptors_def loaded_descriptors_def loadIntegrationEntrypointModule_def
        resolveIntegrationEntrypoint_def s mval_text_def r sample_modules_def d p sample_wrapped_def path_text_def
        integrationPatchDescriptorListFromExports_def exported_list_def wrapIntegrationPatchDescriptor_def
        List.map_filter_def)
qed

lemma sample_normal: "\<exists>n. normalizePatchDescriptors [sample_wrapped] = Inr [n] \<and> d_phase n = Some PHASE_MAIN_BUNDLE \<and>
    d_apply n = d_apply sample_wrapped"
  by (simp add: normalizePatchDescriptors_def normalizeDescriptor_def sample_wrapped_def wrap_descriptor_def
      sample_patch_def sample_descriptor_def or_text_def
      descriptorId_def coalesce_def descriptor_policy_def normalizeCiPolicy_def nullish_def
      CI_POLICIES_def PATCH_PHASES_def assertUniquePatchIds_def note_patch_id_def map_get_def
      map_set_def Let_def sortPatchDescriptors_def js_sort_def)


end
