(* ===== verification/Broker_Wire.thy ===== *)
theory Broker_Wire
  imports Js_Prelude "HOL-Library.Word"
begin

text \<open>
  \<open>scripts/patches/lib/generated-app-mutation-client.js\<close>, the wire format between the patcher and
  the broker that holds the application's directory: requests, their paths, and responses. A
  \<open>Buffer\<close> is a list of bytes. What the broker sends and accepts (\<open>generated-app-mutation-broker/src/lib.rs\<close>)
  is the specification: the client accepts exactly the broker's encodings.
\<close>

type_synonym byte = "8 word"
type_synonym buffer = "byte list"

text \<open>What may be thrown: by \<open>Decoder.bytes\<close>, by the bounds of \<open>readUIntBE\<close>, by \<open>Decoder.finish\<close>,
  by \<open>validateComponents\<close>, by the bounds of a request, and \<open>GeneratedAppIntegrityError\<close> with its
  reason and code.\<close>

datatype wire_error =
    Truncated | Out_Of_Range | Trailing_Bytes
  | Components_Not_Buffers | Component_Count | Bad_Component | Path_Too_Long
  | Request_Bounds | Bad_Operation_Id | Bad_Replacement
  | Integrity_Error string string

section \<open>Integers\<close>

text \<open>Big-endian: the \<open>n\<close> bytes of a number, and the number of some bytes.\<close>

primrec be_bytes :: "nat \<Rightarrow> nat \<Rightarrow> buffer" where
  "be_bytes 0 v = []"
| "be_bytes (Suc n) v = be_bytes n (v div 256) @ [of_nat v]"

definition be_value :: "buffer \<Rightarrow> nat" where
  "be_value bs = foldl (\<lambda>a b. 256 * a + unat b) 0 bs"

lemma length_be_bytes [simp]: "length (be_bytes n v) = n"
  by (induction n arbitrary: v) auto

lemma be_bytes_short:
  "be_bytes 2 v = [of_nat (v div 256), of_nat v]"
  "be_bytes 4 v = [of_nat (v div 256 div 256 div 256), of_nat (v div 256 div 256), of_nat (v div 256), of_nat v]"
proof -
  have n: "(2 :: nat) = Suc (Suc 0)" "(4 :: nat) = Suc (Suc (Suc (Suc 0)))" by simp_all
  show "be_bytes 2 v = [of_nat (v div 256), of_nat v]"
    "be_bytes 4 v = [of_nat (v div 256 div 256 div 256), of_nat (v div 256 div 256), of_nat (v div 256), of_nat v]"
    unfolding n be_bytes.simps by simp_all
qed

lemma be_value_Nil [simp]: "be_value [] = 0"
  by (simp add: be_value_def)

lemma be_value_snoc [simp]: "be_value (bs @ [b]) = 256 * be_value bs + unat b"
  by (simp add: be_value_def)

lemma byte_less: "unat (b :: byte) < 256"
  using unsigned_less [of b] by simp

lemma be_value_less: "be_value bs < 256 ^ length bs"
proof (induction bs rule: rev_induct)
  case (snoc b bs)
  with byte_less [of b] show ?case by simp
qed simp

lemma be_value_be_bytes: "v < 256 ^ n \<Longrightarrow> be_value (be_bytes n v) = v"
proof (induction n arbitrary: v)
  case (Suc n)
  have "be_value (be_bytes n (v div 256)) = v div 256" using Suc by (simp add: less_mult_imp_div_less mult.commute)
  then show ?case by (simp add: unat_of_nat)
qed simp

lemma be_bytes_be_value: "be_bytes (length bs) (be_value bs) = bs"
proof (induction bs rule: rev_induct)
  case (snoc b bs)
  have "(256 * be_value bs + unat b) div 256 = be_value bs" using byte_less [of b] by simp
  moreover have "(of_nat (256 * be_value bs + unat b) :: byte) = b"
  proof -
    have z: "(256 :: byte) = 0" by simp
    show ?thesis by (simp only: of_nat_add of_nat_mult of_nat_numeral z) simp
  qed
  ultimately show ?case using snoc by simp
qed simp


section \<open>The decoder\<close>

record decoder =
  dec_buffer :: buffer
  dec_offset :: nat

definition Decoder_bytes :: "nat \<Rightarrow> decoder \<Rightarrow> wire_error + buffer \<times> decoder" where
  "Decoder_bytes n d =
     (if dec_offset d + n > length (dec_buffer d) then Inl Truncated
      else Inr (take n (drop (dec_offset d) (dec_buffer d)), d\<lparr>dec_offset := dec_offset d + n\<rparr>))"

text \<open>\<open>readUIntBE\<close> of \<open>n\<close> bytes at the offset, then \<open>bytes(n)\<close>.\<close>

definition Decoder_number :: "nat \<Rightarrow> decoder \<Rightarrow> wire_error + nat \<times> decoder" where
  "Decoder_number n d =
     (if dec_offset d + n > length (dec_buffer d) then Inl Out_Of_Range
      else ebind (Decoder_bytes n d) (\<lambda>(bs, d'). Inr (be_value (take n (drop (dec_offset d) (dec_buffer d))), d')))"

definition Decoder_u8 :: "decoder \<Rightarrow> wire_error + byte \<times> decoder" where
  "Decoder_u8 d = ebind (Decoder_bytes 1 d) (\<lambda>(bs, d'). Inr (bs ! 0, d'))"

definition Decoder_u16 :: "decoder \<Rightarrow> wire_error + nat \<times> decoder" where
  "Decoder_u16 d = Decoder_number 2 d"

definition Decoder_u32 :: "decoder \<Rightarrow> wire_error + nat \<times> decoder" where
  "Decoder_u32 d = Decoder_number 4 d"

definition Decoder_u64 :: "decoder \<Rightarrow> wire_error + nat \<times> decoder" where
  "Decoder_u64 d = Decoder_number 8 d"

text \<open>\<open>readBigInt64BE\<close>: the same bytes in two's complement.\<close>

definition Decoder_i64 :: "decoder \<Rightarrow> wire_error + int \<times> decoder" where
  "Decoder_i64 d = ebind (Decoder_number 8 d) (\<lambda>(v, d'). Inr (sint (of_nat v :: 64 word), d'))"

definition Decoder_finish :: "decoder \<Rightarrow> wire_error + unit" where
  "Decoder_finish d = ensure (dec_offset d = length (dec_buffer d)) Trailing_Bytes"

record metadata =
  dev :: nat
  ino :: nat
  mode :: nat
  uid :: nat
  gid :: nat
  size_bytes :: nat
  mtimeSeconds :: int
  mtimeNanoseconds :: nat

definition decodeMetadata :: "decoder \<Rightarrow> wire_error + metadata \<times> decoder" where
  "decodeMetadata d0 =
     ebind (Decoder_u64 d0) (\<lambda>(v1, d1). ebind (Decoder_u64 d1) (\<lambda>(v2, d2).
     ebind (Decoder_u32 d2) (\<lambda>(v3, d3). ebind (Decoder_u32 d3) (\<lambda>(v4, d4).
     ebind (Decoder_u32 d4) (\<lambda>(v5, d5). ebind (Decoder_u64 d5) (\<lambda>(v6, d6).
     ebind (Decoder_i64 d6) (\<lambda>(v7, d7). ebind (Decoder_u64 d7) (\<lambda>(v8, d8).
       Inr (\<lparr>dev = v1, ino = v2, mode = v3, uid = v4, gid = v5, size_bytes = v6,
              mtimeSeconds = v7, mtimeNanoseconds = v8\<rparr>, d8)))))))))"

section \<open>Requests\<close>

definition VERSION :: byte where "VERSION = 1"
definition STATUS_OK :: byte where "STATUS_OK = 0"
definition STATUS_ERROR :: byte where "STATUS_ERROR = 1"
definition FLAG_VERIFIED_PRIVATE_FALLBACK :: byte where "FLAG_VERIFIED_PRIVATE_FALLBACK = 1"
definition MAX_FRAME :: nat where "MAX_FRAME = 16 * 1024 * 1024 + 64 * 1024"
definition MAX_FILE :: nat where "MAX_FILE = 16 * 1024 * 1024"
definition MAX_COMPONENTS :: nat where "MAX_COMPONENTS = 128"
definition MAX_COMPONENT :: nat where "MAX_COMPONENT = 255"
definition MAX_PATH :: nat where "MAX_PATH = 4096"
definition MAX_LIST_ENTRIES :: nat where "MAX_LIST_ENTRIES = 8192"

lemmas wire_bounds = MAX_FRAME_def MAX_FILE_def MAX_COMPONENTS_def MAX_COMPONENT_def MAX_PATH_def
  MAX_LIST_ENTRIES_def

datatype broker_operation = Op_List | Op_Read | Op_Replace

fun opcode :: "broker_operation \<Rightarrow> byte" where
  "opcode Op_List = 1"
| "opcode Op_Read = 2"
| "opcode Op_Replace = 3"

lemma opcode_inject [simp]: "opcode a = opcode b \<longleftrightarrow> a = b"
  by (cases a; cases b) auto

text \<open>A component the broker and the client accept: a name that is not empty, no dot name, not too
  long, without a slash or a null.\<close>

definition valid_component :: "buffer \<Rightarrow> bool" where
  "valid_component c =
     (c \<noteq> [] \<and> length c \<le> MAX_COMPONENT \<and> 0 \<notin> set c \<and> 0x2f \<notin> set c \<and> c \<noteq> [0x2e] \<and> c \<noteq> [0x2e, 0x2e])"

definition joined_length :: "buffer list \<Rightarrow> nat" where
  "joined_length cs = sum_list (map length cs) + (length cs - 1)"

text \<open>The components are \<open>None\<close> where they are no array, and a component where it is no \<open>Buffer\<close>.\<close>

definition check_component :: "buffer option \<Rightarrow> wire_error + buffer" where
  "check_component c =
     (case c of None \<Rightarrow> Inl Components_Not_Buffers
      | Some b \<Rightarrow> if valid_component b then Inr b else Inl Bad_Component)"

definition validateComponents :: "buffer option list option \<Rightarrow> bool \<Rightarrow> wire_error + buffer list" where
  "validateComponents components allowEmpty =
     (case components of
        None \<Rightarrow> Inl Components_Not_Buffers
      | Some cs \<Rightarrow>
          if \<not> allowEmpty \<and> cs = [] \<or> length cs > MAX_COMPONENTS then Inl Component_Count
          else ebind (emap check_component cs) (\<lambda>normalized.
                 if joined_length normalized > MAX_PATH then Inl Path_Too_Long else Inr normalized))"

definition encoded_path :: "buffer list \<Rightarrow> buffer" where
  "encoded_path cs = be_bytes 2 (length cs) @ concat (map (\<lambda>c. be_bytes 2 (length c) @ c) cs)"

definition encodePath :: "buffer option list option \<Rightarrow> bool \<Rightarrow> wire_error + buffer" where
  "encodePath components allowEmpty =
     ebind (validateComponents components allowEmpty) (\<lambda>cs. Inr (encoded_path cs))"

definition encodeRequest ::
  "broker_operation \<Rightarrow> buffer option list option \<Rightarrow> bool \<Rightarrow> buffer \<Rightarrow> wire_error + buffer" where
  "encodeRequest op components verifiedPrivateRoot sfx =
     (let header = [VERSION, opcode op, if verifiedPrivateRoot then FLAG_VERIFIED_PRIVATE_FALLBACK else 0, 0] in
      ebind (encodePath components (op = Op_List)) (\<lambda>p.
        let payload = header @ p @ sfx in
        if payload = [] \<or> length payload > MAX_FRAME then Inl Request_Bounds
        else Inr (be_bytes 4 (length payload) @ payload)))"

text \<open>The suffix of a replacement: the operation id that was read, and the bytes with their length.
  Each argument is \<open>None\<close> where it is no \<open>Buffer\<close>.\<close>

definition replace_suffix :: "buffer option \<Rightarrow> buffer option \<Rightarrow> wire_error + buffer" where
  "replace_suffix operationId replacement =
     (case operationId of
        None \<Rightarrow> Inl Bad_Operation_Id
      | Some token \<Rightarrow>
          if length token \<noteq> 16 then Inl Bad_Operation_Id
          else (case replacement of
                  None \<Rightarrow> Inl Bad_Replacement
                | Some bs \<Rightarrow> if length bs > MAX_FILE then Inl Bad_Replacement
                            else Inr (token @ be_bytes 4 (length bs) @ bs)))"


section \<open>Responses\<close>

record list_entry =
  entry_name :: buffer
  entry_metadata :: metadata

datatype broker_response =
    Listing "list_entry list"
  | Read_Result buffer metadata buffer buffer
  | Replaced buffer

fun broker_error_code :: "nat \<Rightarrow> string" where
  "broker_error_code n =
     (if n = 1 then ''protocol'' else if n = 2 then ''invalid-path'' else if n = 3 then ''unsupported-syscall''
      else if n = 4 then ''integrity'' else if n = 5 then ''not-found'' else if n = 6 then ''wrong-type''
      else if n = 7 then ''io'' else if n = 8 then ''bounds'' else ''protocol'')"

definition printable :: "byte \<Rightarrow> bool" where
  "printable b = (0x20 \<le> b \<and> b \<le> 0x7e)"

definition decode_entry :: "decoder \<Rightarrow> wire_error + list_entry \<times> decoder" where
  "decode_entry d0 =
     ebind (Decoder_u16 d0) (\<lambda>(n, d1). ebind (Decoder_bytes n d1) (\<lambda>(nm, d2).
     ebind (validateComponents (Some [Some nm]) False) (\<lambda>cs.
     ebind (decodeMetadata d2) (\<lambda>(m, d3). Inr (\<lparr>entry_name = nm, entry_metadata = m\<rparr>, d3)))))"

fun decode_entries :: "nat \<Rightarrow> decoder \<Rightarrow> wire_error + list_entry list \<times> decoder" where
  "decode_entries 0 d = Inr ([], d)"
| "decode_entries (Suc n) d =
     ebind (decode_entry d) (\<lambda>(e, d1). ebind (decode_entries n d1) (\<lambda>(es, d2). Inr (e # es, d2)))"

definition decode_error :: "decoder \<Rightarrow> wire_error + broker_response" where
  "decode_error d0 =
     ebind (Decoder_u16 d0) (\<lambda>(rawCode, d1). ebind (Decoder_u16 d1) (\<lambda>(n, d2).
     ebind (Decoder_bytes n d2) (\<lambda>(message, d3). ebind (Decoder_finish d3) (\<lambda>u.
       if \<not> list_all printable message then Inl (Integrity_Error ''non-ASCII broker error'' ''protocol'')
       else Inl (Integrity_Error ''broker rejected request'' (broker_error_code rawCode))))))"

definition decode_listing :: "decoder \<Rightarrow> wire_error + broker_response" where
  "decode_listing d0 =
     ebind (Decoder_u32 d0) (\<lambda>(n, d1).
       if n > MAX_LIST_ENTRIES then Inl (Integrity_Error ''broker list count is out of bounds'' ''bounds'')
       else ebind (decode_entries n d1) (\<lambda>(es, d2). ebind (Decoder_finish d2) (\<lambda>u. Inr (Listing es))))"

definition decode_read :: "decoder \<Rightarrow> wire_error + broker_response" where
  "decode_read d0 =
     ebind (Decoder_bytes 16 d0) (\<lambda>(token, d1). ebind (decodeMetadata d1) (\<lambda>(m, d2).
     ebind (Decoder_bytes 32 d2) (\<lambda>(digest, d3). ebind (Decoder_u32 d3) (\<lambda>(n, d4).
       if n > MAX_FILE then Inl (Integrity_Error ''broker content is out of bounds'' ''bounds'')
       else ebind (Decoder_bytes n d4) (\<lambda>(content, d5). ebind (Decoder_finish d5) (\<lambda>u.
              Inr (Read_Result token m digest content)))))))"

definition decode_replaced :: "buffer \<Rightarrow> decoder \<Rightarrow> wire_error + broker_response" where
  "decode_replaced expectedOperationId d0 =
     ebind (Decoder_bytes 16 d0) (\<lambda>(token, d1). ebind (Decoder_finish d1) (\<lambda>u.
       if token \<noteq> expectedOperationId
       then Inl (Integrity_Error ''broker returned the wrong operation id'' ''protocol'')
       else Inr (Replaced token)))"

definition decodeResponse :: "buffer \<Rightarrow> broker_operation \<Rightarrow> buffer \<Rightarrow> wire_error + broker_response" where
  "decodeResponse frame op expectedOperationId =
     ebind (Decoder_u8 \<lparr>dec_buffer = frame, dec_offset = 0\<rparr>) (\<lambda>(version, d1).
     ebind (Decoder_u8 d1) (\<lambda>(status, d2). ebind (Decoder_u8 d2) (\<lambda>(oc, d3).
     ebind (Decoder_u8 d3) (\<lambda>(reserved, d4).
       if version \<noteq> VERSION \<or> oc \<noteq> opcode op \<or> reserved \<noteq> 0
       then Inl (Integrity_Error ''invalid broker response header'' ''protocol'')
       else if status = STATUS_ERROR then decode_error d4
       else if status \<noteq> STATUS_OK then Inl (Integrity_Error ''unknown broker response status'' ''protocol'')
       else (case op of Op_List \<Rightarrow> decode_listing d4
                      | Op_Read \<Rightarrow> decode_read d4
                      | Op_Replace \<Rightarrow> decode_replaced expectedOperationId d4)))))"

section \<open>What the broker sends\<close>

text \<open>\<open>Metadata::encode\<close>, \<open>ok_header\<close>, \<open>error_response\<close>, and the responses of \<open>list\<close>, \<open>read\<close> and
  \<open>replace\<close>, with the bounds the broker keeps.\<close>

definition encode_metadata :: "metadata \<Rightarrow> buffer" where
  "encode_metadata m =
     be_bytes 8 (dev m) @ be_bytes 8 (ino m) @ be_bytes 4 (mode m) @ be_bytes 4 (uid m) @ be_bytes 4 (gid m) @
     be_bytes 8 (size_bytes m) @ be_bytes 8 (unat (word_of_int (mtimeSeconds m) :: 64 word)) @
     be_bytes 8 (mtimeNanoseconds m)"

definition metadata_fits :: "metadata \<Rightarrow> bool" where
  "metadata_fits m =
     (dev m < 256 ^ 8 \<and> ino m < 256 ^ 8 \<and> mode m < 256 ^ 4 \<and> uid m < 256 ^ 4 \<and> gid m < 256 ^ 4 \<and>
      size_bytes m < 256 ^ 8 \<and> - (2 ^ 63) \<le> mtimeSeconds m \<and> mtimeSeconds m < 2 ^ 63 \<and>
      mtimeNanoseconds m < 256 ^ 8)"

definition encode_entry :: "list_entry \<Rightarrow> buffer" where
  "encode_entry e = be_bytes 2 (length (entry_name e)) @ entry_name e @ encode_metadata (entry_metadata e)"

definition entry_fits :: "list_entry \<Rightarrow> bool" where
  "entry_fits e = (valid_component (entry_name e) \<and> metadata_fits (entry_metadata e))"

definition ok_header :: "broker_operation \<Rightarrow> buffer" where
  "ok_header op = [VERSION, STATUS_OK, opcode op, 0]"

fun encode_response :: "broker_response \<Rightarrow> buffer" where
  "encode_response (Listing es) =
     ok_header Op_List @ be_bytes 4 (length es) @ concat (map encode_entry es)"
| "encode_response (Read_Result token m digest content) =
     ok_header Op_Read @ token @ encode_metadata m @ digest @ be_bytes 4 (length content) @ content"
| "encode_response (Replaced token) = ok_header Op_Replace @ token"

fun response_fits :: "broker_operation \<Rightarrow> buffer \<Rightarrow> broker_response \<Rightarrow> bool" where
  "response_fits op expected (Listing es) =
     (op = Op_List \<and> length es \<le> MAX_LIST_ENTRIES \<and> list_all entry_fits es)"
| "response_fits op expected (Read_Result token m digest content) =
     (op = Op_Read \<and> length token = 16 \<and> metadata_fits m \<and> length digest = 32 \<and> length content \<le> MAX_FILE)"
| "response_fits op expected (Replaced token) = (op = Op_Replace \<and> length token = 16 \<and> token = expected)"

definition error_response :: "broker_operation \<Rightarrow> nat \<Rightarrow> buffer \<Rightarrow> buffer" where
  "error_response op code message =
     [VERSION, STATUS_ERROR, opcode op, 0] @ be_bytes 2 code @ be_bytes 2 (length message) @ message"


section \<open>Codecs\<close>

text \<open>A decoder that has consumed some bytes and has others left.\<close>

definition dec_at :: "buffer \<Rightarrow> buffer \<Rightarrow> decoder" where
  "dec_at pre post = \<lparr>dec_buffer = pre @ post, dec_offset = length pre\<rparr>"

text \<open>The contract of a decoding operation: from any such state it returns a value exactly when the
  bytes that are left begin with the encoding of that value, which is then consumed.\<close>

locale codec =
  fixes parse :: "decoder \<Rightarrow> 'e + 'a \<times> decoder"
    and enc :: "'a \<Rightarrow> buffer"
    and ok :: "'a \<Rightarrow> bool"
  assumes parse_iff: "parse (dec_at pre post) = Inr (v, d) \<longleftrightarrow>
    (\<exists>rest. ok v \<and> post = enc v @ rest \<and> d = dec_at (pre @ enc v) rest)"
begin

lemma roundtrip: "ok v \<Longrightarrow> parse (dec_at pre (enc v @ rest)) = Inr (v, dec_at (pre @ enc v) rest)"
  by (simp add: parse_iff)

lemma roundtrip_end: "ok v \<Longrightarrow> parse (dec_at pre (enc v)) = Inr (v, dec_at (pre @ enc v) [])"
  using roundtrip [of v pre "[]"] by simp

text \<open>No encoding begins another one: what was sent is determined by its bytes.\<close>

lemma prefix_free:
  assumes "ok v" and "ok w" and "enc v @ p = enc w @ q"
  shows "v = w \<and> p = q"
proof -
  have "parse (dec_at [] (enc v @ p)) = Inr (v, dec_at ([] @ enc v) p)" by (rule roundtrip [OF assms(1)])
  moreover have "parse (dec_at [] (enc w @ q)) = Inr (w, dec_at ([] @ enc w) q)" by (rule roundtrip [OF assms(2)])
  ultimately have "v = w" using assms(3) by simp
  with assms(3) show ?thesis by simp
qed

end

lemma Decoder_bytes_iff:
  "Decoder_bytes n (dec_at pre post) = Inr (v, d) \<longleftrightarrow>
    (\<exists>rest. length v = n \<and> post = v @ rest \<and> d = dec_at (pre @ v) rest)"
  by (auto simp: Decoder_bytes_def dec_at_def append_eq_conv_conj intro!: exI [of _ "drop n post"])

interpretation bytes: codec "Decoder_bytes n" "\<lambda>v. v" "\<lambda>v. length v = n" for n
  by unfold_locales (rule Decoder_bytes_iff)

lemma Decoder_number_at: "Decoder_number n (dec_at pre post) =
    (if length post < n then Inl Out_Of_Range
     else Inr (be_value (take n post), dec_at (pre @ take n post) (drop n post)))"
  by (auto simp: Decoder_number_def Decoder_bytes_def dec_at_def)

interpretation number: codec "Decoder_number n" "be_bytes n" "\<lambda>v. v < 256 ^ n" for n
proof unfold_locales
  fix pre post v d
  have "Decoder_number n (dec_at pre post) = Inr (v, d) \<longleftrightarrow>
      (\<exists>bs rest. length bs = n \<and> post = bs @ rest \<and> v = be_value bs \<and> d = dec_at (pre @ bs) rest)"
  proof (cases "length post < n")
    case False
    then have "(length bs = n \<and> post = bs @ rest) = (bs = take n post \<and> rest = drop n post)" for bs rest
      by (auto simp: append_eq_conv_conj)
    with False show ?thesis unfolding Decoder_number_at by auto
  qed (auto simp: Decoder_number_at)
  also have "\<dots> \<longleftrightarrow> (\<exists>rest. v < 256 ^ n \<and> post = be_bytes n v @ rest \<and> d = dec_at (pre @ be_bytes n v) rest)"
    by (metis be_bytes_be_value be_value_be_bytes be_value_less length_be_bytes)
  finally show "Decoder_number n (dec_at pre post) = Inr (v, d) \<longleftrightarrow>
      (\<exists>rest. v < 256 ^ n \<and> post = be_bytes n v @ rest \<and> d = dec_at (pre @ be_bytes n v) rest)" .
qed

interpretation u8: codec Decoder_u8 "\<lambda>b. [b]" "\<lambda>b. True"
  by unfold_locales (auto simp: Decoder_u8_def res_simps bytes.parse_iff length_Suc_conv)

interpretation u16: codec Decoder_u16 "be_bytes 2" "\<lambda>v. v < 256 ^ 2"
  unfolding Decoder_u16_def [abs_def] by (rule number.codec_axioms)

interpretation u32: codec Decoder_u32 "be_bytes 4" "\<lambda>v. v < 256 ^ 4"
  unfolding Decoder_u32_def [abs_def] by (rule number.codec_axioms)

interpretation u64: codec Decoder_u64 "be_bytes 8" "\<lambda>v. v < 256 ^ 8"
  unfolding Decoder_u64_def [abs_def] by (rule number.codec_axioms)

lemma two_complement: "(\<exists>n. n < 256 ^ 8 \<and> v = sint (of_nat n :: 64 word) \<and> P n) \<longleftrightarrow>
  - (2 ^ 63) \<le> v \<and> v < 2 ^ 63 \<and> P (unat (word_of_int v :: 64 word))"
proof
  assume "\<exists>n. n < 256 ^ 8 \<and> v = sint (of_nat n :: 64 word) \<and> P n"
  then obtain n where n: "n < 256 ^ 8" "v = sint (of_nat n :: 64 word)" "P n" by blast
  have "word_of_int v = (of_nat n :: 64 word)" using n(2) by simp
  then have "unat (word_of_int v :: 64 word) = n" using n(1) by (simp add: unat_of_nat)
  with n show "- (2 ^ 63) \<le> v \<and> v < 2 ^ 63 \<and> P (unat (word_of_int v :: 64 word))"
    using sint_greater_eq [of "of_nat n :: 64 word"] sint_less [of "of_nat n :: 64 word"] by simp
next
  assume v: "- (2 ^ 63) \<le> v \<and> v < 2 ^ 63 \<and> P (unat (word_of_int v :: 64 word))"
  let ?n = "unat (word_of_int v :: 64 word)"
  have "sint (word_of_int v :: 64 word) = v" using v by (simp add: sint_sbintrunc' signed_take_bit_int_eq_self)
  moreover have "?n < 256 ^ 8" using unsigned_less [of "word_of_int v :: 64 word"] by simp
  ultimately show "\<exists>n. n < 256 ^ 8 \<and> v = sint (of_nat n :: 64 word) \<and> P n" using v by force
qed

definition i64_bytes :: "int \<Rightarrow> buffer" where
  "i64_bytes v = be_bytes 8 (unat (word_of_int v :: 64 word))"

interpretation i64: codec Decoder_i64 i64_bytes "\<lambda>v. - (2 ^ 63) \<le> v \<and> v < 2 ^ 63"
proof unfold_locales
  fix pre post v d
  have "Decoder_i64 (dec_at pre post) = Inr (v, d) \<longleftrightarrow> (\<exists>n. n < 256 ^ 8 \<and> v = sint (of_nat n :: 64 word) \<and>
      (\<exists>rest. post = be_bytes 8 n @ rest \<and> d = dec_at (pre @ be_bytes 8 n) rest))"
    by (auto simp: Decoder_i64_def res_simps number.parse_iff)
  then show "Decoder_i64 (dec_at pre post) = Inr (v, d) \<longleftrightarrow>
      (\<exists>rest. (- (2 ^ 63) \<le> v \<and> v < 2 ^ 63) \<and> post = i64_bytes v @ rest \<and> d = dec_at (pre @ i64_bytes v) rest)"
    unfolding two_complement i64_bytes_def by blast
qed

lemmas parse_iffs = bytes.parse_iff u8.parse_iff u16.parse_iff u32.parse_iff u64.parse_iff i64.parse_iff

lemma ebind_pair_Inr: "ebind r (\<lambda>(x, d). f x d) = Inr y \<longleftrightarrow> (\<exists>x d. r = Inr (x, d) \<and> f x d = Inr y)"
  by (auto simp: res_simps)

interpretation metadata: codec decodeMetadata encode_metadata metadata_fits
proof unfold_locales
  fix pre post m d
  have "decodeMetadata (dec_at pre post) = Inr (m, d) \<longleftrightarrow>
      (\<exists>rest. metadata_fits m \<and> post = encode_metadata m @ rest \<and> d = dec_at (pre @ encode_metadata m) rest)"
    by (cases m) (auto simp: decodeMetadata_def ebind_pair_Inr parse_iffs encode_metadata_def metadata_fits_def
        i64_bytes_def)
  then show "decodeMetadata (dec_at pre post) = Inr (m, d) \<longleftrightarrow>
      (\<exists>rest. metadata_fits m \<and> post = encode_metadata m @ rest \<and> d = dec_at (pre @ encode_metadata m) rest)" .
qed

lemma validate_single: "validateComponents (Some [Some nm]) False = Inr cs \<longleftrightarrow> valid_component nm \<and> cs = [nm]"
  by (auto simp: validateComponents_def check_component_def joined_length_def wire_bounds valid_component_def)

interpretation entry: codec decode_entry encode_entry entry_fits
proof unfold_locales
  fix pre post e d
  have "valid_component nm \<Longrightarrow> length nm < 256 ^ 2" for nm
    by (auto simp: valid_component_def wire_bounds)
  then show "decode_entry (dec_at pre post) = Inr (e, d) \<longleftrightarrow>
      (\<exists>rest. entry_fits e \<and> post = encode_entry e @ rest \<and> d = dec_at (pre @ encode_entry e) rest)"
    by (cases e) (auto simp: decode_entry_def ebind_pair_Inr ebind_eq_Inr validate_single parse_iffs metadata.parse_iff
        encode_entry_def entry_fits_def)
qed

interpretation entries: codec "decode_entries n" "\<lambda>es. concat (map encode_entry es)"
  "\<lambda>es. length es = n \<and> list_all entry_fits es" for n
proof unfold_locales
  fix pre post es d
  show "decode_entries n (dec_at pre post) = Inr (es, d) \<longleftrightarrow> (\<exists>rest. (length es = n \<and> list_all entry_fits es) \<and>
      post = concat (map encode_entry es) @ rest \<and> d = dec_at (pre @ concat (map encode_entry es)) rest)"
  proof (induction n arbitrary: pre post es d)
    case 0
    show ?case by auto
  next
    case (Suc n)
    have fwd: "length es = n \<Longrightarrow> list_all entry_fits es \<Longrightarrow>
        decode_entries (length es) (dec_at pre (concat (map encode_entry es) @ rest)) =
          Inr (es, dec_at (pre @ concat (map encode_entry es)) rest)" for es pre rest
      using Suc.IH by auto
    show ?case (is "?l \<longleftrightarrow> ?r")
    proof
      show "?l \<Longrightarrow> ?r" by (auto simp: ebind_pair_Inr entry.parse_iff Suc.IH)
      show "?r \<Longrightarrow> ?l" by (cases es) (auto simp: ebind_pair_Inr entry.roundtrip fwd)
    qed
  qed
qed

lemma finish_iff: "Decoder_finish (dec_at pre post) = Inr u \<longleftrightarrow> post = []"
  by (simp add: Decoder_finish_def dec_at_def)

lemmas roundtrips = bytes.roundtrip u8.roundtrip u16.roundtrip u32.roundtrip metadata.roundtrip entry.roundtrip
  entries.roundtrip
  bytes.roundtrip_end entries.roundtrip_end

lemma finish_end [simp]: "Decoder_finish (dec_at pre []) = Inr ()"
  by (simp add: finish_iff)

lemma decode_listing_iff: "decode_listing (dec_at pre post) = Inr r \<longleftrightarrow>
  (\<exists>es. r = Listing es \<and> length es \<le> MAX_LIST_ENTRIES \<and> list_all entry_fits es \<and>
    post = be_bytes 4 (length es) @ concat (map encode_entry es))" (is "?l \<longleftrightarrow> ?r")
proof
  show "?l \<Longrightarrow> ?r"
    by (auto simp: decode_listing_def ebind_pair_Inr ebind_eq_Inr parse_iffs entries.parse_iff finish_iff
        split: if_splits)
  show "?r \<Longrightarrow> ?l" by (auto simp: decode_listing_def roundtrips wire_bounds)
qed

lemma decode_read_iff: "decode_read (dec_at pre post) = Inr r \<longleftrightarrow>
  (\<exists>token m digest content. r = Read_Result token m digest content \<and> length token = 16 \<and> metadata_fits m \<and>
    length digest = 32 \<and> length content \<le> MAX_FILE \<and>
    post = token @ encode_metadata m @ digest @ be_bytes 4 (length content) @ content)" (is "?l \<longleftrightarrow> ?r")
proof
  show "?l \<Longrightarrow> ?r"
    by (auto simp: decode_read_def ebind_pair_Inr ebind_eq_Inr parse_iffs metadata.parse_iff finish_iff
        split: if_splits)
  show "?r \<Longrightarrow> ?l" by (auto simp: decode_read_def roundtrips wire_bounds)
qed

lemma decode_replaced_iff: "decode_replaced expected (dec_at pre post) = Inr r \<longleftrightarrow>
  r = Replaced expected \<and> length expected = 16 \<and> post = expected"
  by (auto simp: decode_replaced_def ebind_pair_Inr ebind_eq_Inr parse_iffs finish_iff)

lemma decode_error_not_Inr: "decode_error d \<noteq> Inr r"
  by (auto simp: decode_error_def ebind_pair_Inr ebind_eq_Inr split: if_splits)

lemma start_at: "\<lparr>dec_buffer = frame, dec_offset = 0\<rparr> = dec_at [] frame"
  by (simp add: dec_at_def)

section \<open>What the broker accepts\<close>

text \<open>\<open>Decoder\<close> and the request part of \<open>Broker::handle\<close> in \<open>generated-app-mutation-broker/src/lib.rs\<close>.\<close>

datatype broker_error = Err_Protocol | Err_Invalid_Path | Err_Bounds

definition broker_take :: "nat \<Rightarrow> decoder \<Rightarrow> broker_error + buffer \<times> decoder" where
  "broker_take n d =
     (if dec_offset d + n > length (dec_buffer d) then Inl Err_Protocol
      else Inr (take n (drop (dec_offset d) (dec_buffer d)), d\<lparr>dec_offset := dec_offset d + n\<rparr>))"

definition broker_u8 :: "decoder \<Rightarrow> broker_error + byte \<times> decoder" where
  "broker_u8 d = ebind (broker_take 1 d) (\<lambda>(bs, d'). Inr (bs ! 0, d'))"

definition broker_number :: "nat \<Rightarrow> decoder \<Rightarrow> broker_error + nat \<times> decoder" where
  "broker_number n d = ebind (broker_take n d) (\<lambda>(bs, d'). Inr (be_value bs, d'))"

fun broker_components :: "nat \<Rightarrow> nat \<Rightarrow> decoder \<Rightarrow> broker_error + buffer list \<times> decoder" where
  "broker_components 0 used d = Inr ([], d)"
| "broker_components (Suc k) used d0 =
     ebind (broker_number 2 d0) (\<lambda>(n, d1).
       if n = 0 then Inl Err_Invalid_Path
       else if n > MAX_COMPONENT then Inl Err_Bounds
       else ebind (broker_take n d1) (\<lambda>(c, d2).
         if c = [0x2e] \<or> c = [0x2e, 0x2e] \<or> 0x2f \<in> set c \<or> 0 \<in> set c then Inl Err_Invalid_Path
         else if used + n > MAX_PATH then Inl Err_Bounds
         else ebind (broker_components k (used + n) d2) (\<lambda>(cs, d3). Inr (c # cs, d3))))"

definition broker_path :: "bool \<Rightarrow> decoder \<Rightarrow> broker_error + buffer list \<times> decoder" where
  "broker_path allow_empty d0 =
     ebind (broker_number 2 d0) (\<lambda>(k, d1).
       if k = 0 \<and> \<not> allow_empty then Inl Err_Invalid_Path
       else if k > MAX_COMPONENTS then Inl Err_Bounds
       else broker_components k (k - 1) d1)"

definition broker_end :: "decoder \<Rightarrow> broker_error + unit" where
  "broker_end d = ensure (dec_offset d = length (dec_buffer d)) Err_Protocol"

datatype broker_request =
    Req_List "buffer list" | Req_Read "buffer list" | Req_Replace "buffer list" buffer buffer

definition broker_replace_fields :: "buffer list \<Rightarrow> decoder \<Rightarrow> broker_error + broker_request" where
  "broker_replace_fields path d0 =
     ebind (broker_take 16 d0) (\<lambda>(token, d1). ebind (broker_number 4 d1) (\<lambda>(n, d2).
       if n > MAX_FILE then Inl Err_Bounds
       else ebind (broker_take n d2) (\<lambda>(bs, d3). ebind (broker_end d3) (\<lambda>u. Inr (Req_Replace path token bs)))))"

definition broker_decode_request :: "buffer \<Rightarrow> broker_error + bool \<times> broker_request" where
  "broker_decode_request frame =
     ebind (broker_u8 \<lparr>dec_buffer = frame, dec_offset = 0\<rparr>) (\<lambda>(version, d1).
     ebind (broker_u8 d1) (\<lambda>(oc, d2). ebind (broker_u8 d2) (\<lambda>(flags, d3). ebind (broker_u8 d3) (\<lambda>(reserved, d4).
       if version \<noteq> VERSION \<or> reserved \<noteq> 0 \<or> (flags \<noteq> 0 \<and> flags \<noteq> FLAG_VERIFIED_PRIVATE_FALLBACK)
       then Inl Err_Protocol
       else ebind (broker_path (oc = opcode Op_List) d4) (\<lambda>(path, d5).
         ebind (if oc = opcode Op_List then ebind (broker_end d5) (\<lambda>u. Inr (Req_List path))
                else if oc = opcode Op_Read then ebind (broker_end d5) (\<lambda>u. Inr (Req_Read path))
                else if oc = opcode Op_Replace then broker_replace_fields path d5
                else Inl Err_Protocol)
           (\<lambda>req. Inr (flags = FLAG_VERIFIED_PRIVATE_FALLBACK, req)))))))"

interpretation btake: codec "broker_take n" "\<lambda>v. v" "\<lambda>v. length v = n" for n
proof unfold_locales
  fix pre post d and v :: buffer
  have "broker_take n (dec_at pre post) = Inr (v, d) \<longleftrightarrow> Decoder_bytes n (dec_at pre post) = Inr (v, d)"
    by (auto simp: broker_take_def Decoder_bytes_def)
  then show "broker_take n (dec_at pre post) = Inr (v, d) \<longleftrightarrow>
      (\<exists>rest. length v = n \<and> post = v @ rest \<and> d = dec_at (pre @ v) rest)"
    by (simp add: bytes.parse_iff)
qed

interpretation bu8: codec broker_u8 "\<lambda>b. [b]" "\<lambda>b. True"
  by unfold_locales (auto simp: broker_u8_def res_simps btake.parse_iff length_Suc_conv)

interpretation bnumber: codec "broker_number n" "be_bytes n" "\<lambda>v. v < 256 ^ n" for n
proof unfold_locales
  fix pre post v d
  have "broker_number n (dec_at pre post) = Inr (v, d) \<longleftrightarrow> Decoder_number n (dec_at pre post) = Inr (v, d)"
    by (auto simp: broker_number_def broker_take_def Decoder_number_def Decoder_bytes_def)
  then show "broker_number n (dec_at pre post) = Inr (v, d) \<longleftrightarrow>
      (\<exists>rest. v < 256 ^ n \<and> post = be_bytes n v @ rest \<and> d = dec_at (pre @ be_bytes n v) rest)"
    by (simp add: number.parse_iff)
qed

lemmas broker_roundtrips = btake.roundtrip bu8.roundtrip bnumber.roundtrip btake.roundtrip_end

text \<open>Components within the bounds are read back, whatever the length of the path before them.\<close>

lemma broker_components_read:
  assumes "list_all valid_component cs" and "used + sum_list (map length cs) \<le> MAX_PATH"
  shows "broker_components (length cs) used
      (dec_at pre (concat (map (\<lambda>c. be_bytes 2 (length c) @ c) cs) @ rest)) =
    Inr (cs, dec_at (pre @ concat (map (\<lambda>c. be_bytes 2 (length c) @ c) cs)) rest)"
  using assms
proof (induction cs arbitrary: used pre)
  case (Cons c cs)
  have "valid_component c" using Cons.prems(1) by simp
  then have c: "0 < length c" "length c < 256 ^ 2" "\<not> length c > MAX_COMPONENT"
    "\<not> (c = [0x2e] \<or> c = [0x2e, 0x2e] \<or> 0x2f \<in> set c \<or> 0 \<in> set c)"
    by (auto simp: valid_component_def wire_bounds)
  have "broker_components (length cs) (used + length c)
      (dec_at ((pre @ be_bytes 2 (length c)) @ c) (concat (map (\<lambda>c. be_bytes 2 (length c) @ c) cs) @ rest)) =
    Inr (cs, dec_at (((pre @ be_bytes 2 (length c)) @ c) @ concat (map (\<lambda>c. be_bytes 2 (length c) @ c) cs)) rest)"
    by (rule Cons.IH) (use Cons.prems in simp_all)
  then show ?case using c Cons.prems(2) by (simp add: broker_roundtrips)
qed simp

lemma check_component_iff: "check_component c = Inr b \<longleftrightarrow> c = Some b \<and> valid_component b"
  by (auto simp: check_component_def split: option.splits)

lemma check_components_iff:
  "emap check_component xs = Inr cs \<longleftrightarrow> xs = map Some cs \<and> list_all valid_component cs"
  unfolding emap_eq_Inr check_component_iff by (induction xs cs rule: list_induct2') auto

lemma validateComponents_iff:
  "validateComponents components allowEmpty = Inr cs \<longleftrightarrow>
     components = Some (map Some cs) \<and> list_all valid_component cs \<and> (allowEmpty \<or> cs \<noteq> []) \<and>
     length cs \<le> MAX_COMPONENTS \<and> joined_length cs \<le> MAX_PATH"
proof (cases components)
  case (Some xs)
  have "validateComponents (Some xs) allowEmpty = Inr cs \<longleftrightarrow> (allowEmpty \<or> xs \<noteq> []) \<and> length xs \<le> MAX_COMPONENTS \<and>
      emap check_component xs = Inr cs \<and> joined_length cs \<le> MAX_PATH"
    by (cases "emap check_component xs") (auto simp: validateComponents_def)
  then show ?thesis unfolding Some check_components_iff by auto
qed (simp add: validateComponents_def)

lemma broker_path_read:
  assumes "validateComponents components allow_empty = Inr cs"
  shows "broker_path allow_empty (dec_at pre (encoded_path cs @ rest)) = Inr (cs, dec_at (pre @ encoded_path cs) rest)"
proof -
  from assms have v: "list_all valid_component cs" "allow_empty \<or> cs \<noteq> []" "length cs \<le> MAX_COMPONENTS"
      "length cs - 1 + sum_list (map length cs) \<le> MAX_PATH"
    by (auto simp: validateComponents_iff joined_length_def)
  have "length cs < 256 ^ 2" using v(3) by (simp add: wire_bounds)
  then show ?thesis
    using v broker_components_read [OF v(1) v(4), of "pre @ be_bytes 2 (length cs)" rest]
    by (auto simp: broker_path_def encoded_path_def broker_roundtrips)
qed

section \<open>Properties\<close>

text \<open>C36: the client accepts a successful response exactly when it is, byte for byte, what the broker
  sends for the answer it returns, within the bounds of the protocol; so no response is read in
  two ways, cut short or padded.\<close>

theorem decodeResponse_exact:
  "decodeResponse frame op expected = Inr r \<longleftrightarrow> response_fits op expected r \<and> frame = encode_response r"
proof
  assume "decodeResponse frame op expected = Inr r"
  then show "response_fits op expected r \<and> frame = encode_response r"
    by (cases op) (auto simp: decodeResponse_def start_at ebind_pair_Inr u8.parse_iff decode_error_not_Inr
        decode_listing_iff decode_read_iff decode_replaced_iff ok_header_def split: if_splits)
next
  assume r: "response_fits op expected r \<and> frame = encode_response r"
  have s: "STATUS_OK \<noteq> STATUS_ERROR" by (simp add: STATUS_OK_def STATUS_ERROR_def)
  show "decodeResponse frame op expected = Inr r"
    using r s u8.roundtrip
    by (cases r) (auto simp: decodeResponse_def start_at ebind_pair_Inr decode_listing_iff decode_read_iff
        decode_replaced_iff ok_header_def)
qed

text \<open>C37: a request that the client sends is understood: the broker reads from it the operation, the
  path, whether the private root was verified and, for a replacement, the token and the bytes.\<close>

theorem request_understood:
  assumes "encodeRequest op components verified sfx = Inr frame"
    and "case op of Op_Replace \<Rightarrow> replace_suffix (Some token) (Some bs) = Inr sfx | _ \<Rightarrow> sfx = []"
  shows "\<exists>payload cs. frame = be_bytes 4 (length payload) @ payload \<and> 0 < length payload \<and>
    length payload \<le> MAX_FRAME \<and> components = Some (map Some cs) \<and>
    broker_decode_request payload =
      Inr (verified, case op of Op_List \<Rightarrow> Req_List cs | Op_Read \<Rightarrow> Req_Read cs | Op_Replace \<Rightarrow> Req_Replace cs token bs)"
proof -
  let ?flag = "if verified then FLAG_VERIFIED_PRIVATE_FALLBACK else 0"
  obtain cs where v: "validateComponents components (op = Op_List) = Inr cs"
    and f: "frame = be_bytes 4 (length ([VERSION, opcode op, ?flag, 0] @ encoded_path cs @ sfx)) @
      [VERSION, opcode op, ?flag, 0] @ encoded_path cs @ sfx"
    and n: "length ([VERSION, opcode op, ?flag, 0] @ encoded_path cs @ sfx) \<le> MAX_FRAME"
    using assms(1) by (auto simp: encodeRequest_def encodePath_def Let_def res_simps split: if_splits)
  have p: "broker_path (opcode op = opcode Op_List) (dec_at pre (encoded_path cs @ sfx)) =
      Inr (cs, dec_at (pre @ encoded_path cs) sfx)" for pre
    using broker_path_read [OF v, of pre sfx] unfolding opcode_inject .
  have flags: "?flag = 0 \<or> ?flag = FLAG_VERIFIED_PRIVATE_FALLBACK" "(?flag = FLAG_VERIFIED_PRIVATE_FALLBACK) = verified"
    by (simp_all add: FLAG_VERIFIED_PRIVATE_FALLBACK_def)
  have e: "broker_end (dec_at pre []) = Inr ()" for pre by (simp add: broker_end_def dec_at_def)
  have u: "broker_u8 (dec_at pre (b # rest)) = Inr (b, dec_at (pre @ [b]) rest)" for pre b rest
    using bu8.roundtrip [where v = b and pre = pre and rest = rest] by (simp add: dec_at_def)
  have r: "broker_replace_fields cs (dec_at pre sfx) = Inr (Req_Replace cs token bs)" if "op = Op_Replace" for pre
    using assms(2) that
    by (auto simp: replace_suffix_def broker_replace_fields_def broker_roundtrips e wire_bounds split: if_splits)
  have "broker_decode_request ([VERSION, opcode op, ?flag, 0] @ encoded_path cs @ sfx) =
      Inr (verified, case op of Op_List \<Rightarrow> Req_List cs | Op_Read \<Rightarrow> Req_Read cs | Op_Replace \<Rightarrow> Req_Replace cs token bs)"
    using assms(2) flags p
    by (cases op) (simp_all add: broker_decode_request_def start_at u e r del: opcode.simps)
  moreover have "components = Some (map Some cs)" using v by (simp add: validateComponents_iff)
  ultimately show ?thesis using f n by fastforce
qed

theorem request_understood_witness:
  "broker_decode_request [1, 2, 1, 0, 0, 1, 0, 1, 0x61] = Inr (True, Req_Read [[0x61]])"
proof -
  have "encodeRequest Op_Read (Some [Some [0x61]]) True [] = Inr [0, 0, 0, 9, 1, 2, 1, 0, 0, 1, 0, 1, 0x61]"
    by (simp add: encodeRequest_def encodePath_def validateComponents_def check_component_def valid_component_def
        joined_length_def encoded_path_def wire_bounds VERSION_def FLAG_VERIFIED_PRIVATE_FALLBACK_def
        be_bytes_short)
  from request_understood [OF this] obtain payload where
    "[0, 0, 0, 9, 1, 2, 1, 0, 0, 1, 0, 1, 0x61] = be_bytes 4 (length payload) @ payload"
    "broker_decode_request payload = Inr (True, Req_Read [[0x61]])" by auto
  then show ?thesis by (simp add: be_bytes_short)
qed

text \<open>C38: an error response of the broker is reported as an integrity error with the broker's code,
  unless its message is not printable ASCII, which is a protocol error; it is never a success.\<close>

theorem broker_errors_reported:
  assumes "code < 256 ^ 2" and "length message < 256 ^ 2"
  shows "decodeResponse (error_response op code message) op expected =
    Inl (if list_all printable message then Integrity_Error ''broker rejected request'' (broker_error_code code)
         else Integrity_Error ''non-ASCII broker error'' ''protocol'')"
proof -
  have u: "Decoder_u8 (dec_at pre (b # rest)) = Inr (b, dec_at (pre @ [b]) rest)" for pre b rest
    using u8.roundtrip [where v = b and pre = pre and rest = rest] by simp
  show ?thesis
    using assms
    by (simp add: decodeResponse_def error_response_def start_at u decode_error_def u16.roundtrip
        bytes.roundtrip_end STATUS_ERROR_def del: broker_error_code.simps)
qed

theorem broker_errors_reported_witness:
  "decodeResponse (error_response Op_Read 5 [0x6e, 0x6f]) Op_Read [] =
     Inl (Integrity_Error ''broker rejected request'' ''not-found'')"
proof -
  have "list_all printable [0x6e, 0x6f :: byte]" by (simp add: printable_def)
  then show ?thesis using broker_errors_reported [of 5 "[0x6e, 0x6f]" Op_Read "[]"] by simp
qed

end
