(* ===== verification/Broker_Frames.thy ===== *)
theory Broker_Frames
  imports Broker_Wire
begin

text \<open>
  \<open>FrameReader\<close> of \<open>scripts/patches/lib/generated-app-mutation-client.js\<close>: it cuts the broker's output
  into frames and hands them to those who wait, in order. The state is the object's, with the
  promises that were settled, each known by the number of its \<open>read\<close>.
\<close>

datatype frame_failure = Bad_Frame_Length | Partial_At_End | Stream_Ended | Stream_Error string

datatype terminal_kind = Kind_Protocol | Kind_End | Kind_Stream

record reader =
  r_buffer :: buffer
  r_frames :: "buffer list"
  r_waiters :: "nat list"
  r_failure :: "frame_failure option"
  r_terminalKind :: "terminal_kind option"
  r_settled :: "(nat \<times> (frame_failure + buffer)) list"

definition new_reader :: reader where
  "new_reader = \<lparr>r_buffer = [], r_frames = [], r_waiters = [], r_failure = None, r_terminalKind = None,
     r_settled = []\<rparr>"

section \<open>Operations\<close>

definition settle :: "nat \<Rightarrow> frame_failure + buffer \<Rightarrow> reader \<Rightarrow> reader" where
  "settle w v r = r\<lparr>r_settled := r_settled r @ [(w, v)]\<rparr>"

definition reader_fail :: "frame_failure \<Rightarrow> terminal_kind \<Rightarrow> reader \<Rightarrow> reader" where
  "reader_fail e k r =
     (if r_failure r \<noteq> None then r
      else r\<lparr>r_failure := Some e, r_terminalKind := Some k, r_waiters := [],
             r_settled := r_settled r @ map (\<lambda>w. (w, Inl e)) (r_waiters r)\<rparr>)"

text \<open>The frame goes to the first who waits, or is kept.\<close>

definition deliver :: "buffer \<Rightarrow> reader \<Rightarrow> reader" where
  "deliver f r =
     (case r_waiters r of
        [] \<Rightarrow> r\<lparr>r_frames := r_frames r @ [f]\<rparr>
      | w # ws \<Rightarrow> settle w (Inr f) (r\<lparr>r_waiters := ws\<rparr>))"

text \<open>The loop of \<open>push\<close>: every round takes a frame, and at least five bytes, off the buffer.\<close>

function push_loop :: "reader \<Rightarrow> reader" where
  "push_loop r =
     (if length (r_buffer r) < 4 then r
      else let n = be_value (take 4 (r_buffer r)) in
        if n = 0 \<or> n > MAX_FRAME then reader_fail Bad_Frame_Length Kind_Protocol r
        else if length (r_buffer r) < 4 + n then r
        else push_loop (deliver (take n (drop 4 (r_buffer r))) (r\<lparr>r_buffer := drop (4 + n) (r_buffer r)\<rparr>)))"
  by auto

termination
  by (relation "measure (\<lambda>r. length (r_buffer r))") (auto simp: deliver_def settle_def split: list.split)

definition reader_push :: "buffer \<Rightarrow> reader \<Rightarrow> reader" where
  "reader_push chunk r =
     (if r_failure r \<noteq> None then r else push_loop (r\<lparr>r_buffer := r_buffer r @ chunk\<rparr>))"

definition reader_end :: "reader \<Rightarrow> reader" where
  "reader_end r =
     (if r_buffer r \<noteq> [] then reader_fail Partial_At_End Kind_Protocol r
      else reader_fail Stream_Ended Kind_End r)"

definition reader_error :: "string \<Rightarrow> reader \<Rightarrow> reader" where
  "reader_error e r = reader_fail (Stream_Error e) Kind_Stream r"

definition reader_read :: "nat \<Rightarrow> reader \<Rightarrow> reader" where
  "reader_read w r =
     (case r_frames r of
        f # fs \<Rightarrow> settle w (Inr f) (r\<lparr>r_frames := fs\<rparr>)
      | [] \<Rightarrow> (case r_failure r of
                Some e \<Rightarrow> settle w (Inl e) r
              | None \<Rightarrow> r\<lparr>r_waiters := r_waiters r @ [w]\<rparr>))"

definition pendingCount :: "reader \<Rightarrow> nat" where
  "pendingCount r = length (r_frames r)"

datatype shutdown_error = Unsolicited_At_Shutdown | Partial_At_Shutdown | Failed_Before frame_failure | Not_Ended

definition cleanShutdownError :: "reader \<Rightarrow> shutdown_error option" where
  "cleanShutdownError r =
     (if r_frames r \<noteq> [] then Some Unsolicited_At_Shutdown
      else if r_buffer r \<noteq> [] then Some Partial_At_Shutdown
      else if r_terminalKind r \<noteq> Some Kind_End
      then Some (case r_failure r of Some e \<Rightarrow> Failed_Before e | None \<Rightarrow> Not_Ended)
      else None)"

declare push_loop.simps [simp del]

section \<open>The specification\<close>

text \<open>A stream of bytes cut into frames: the frames, what is left, and whether that starts with a
  length out of bounds.\<close>

function unframe :: "buffer \<Rightarrow> buffer list \<times> buffer \<times> bool" where
  "unframe b =
     (if length b < 4 then ([], b, False)
      else let n = be_value (take 4 b) in
        if n = 0 \<or> n > MAX_FRAME then ([], b, True)
        else if length b < 4 + n then ([], b, False)
        else (case unframe (drop (4 + n) b) of (fs, rest, bad) \<Rightarrow> (take n (drop 4 b) # fs, rest, bad)))"
  by auto

termination by (relation "measure length") auto

declare unframe.simps [simp del]

definition frame_of :: "buffer \<Rightarrow> buffer" where
  "frame_of payload = be_bytes 4 (length payload) @ payload"

definition frame_fits :: "buffer \<Rightarrow> bool" where
  "frame_fits payload = (0 < length payload \<and> length payload \<le> MAX_FRAME)"

text \<open>What may happen to a reader: bytes arrive, the stream ends or breaks, someone reads.\<close>

datatype reader_event = Data buffer | End | Broken string | Read_Call nat

fun reader_step :: "reader_event \<Rightarrow> reader \<Rightarrow> reader" where
  "reader_step (Data c) r = reader_push c r"
| "reader_step End r = reader_end r"
| "reader_step (Broken e) r = reader_error e r"
| "reader_step (Read_Call w) r = reader_read w r"

definition reader_run :: "reader_event list \<Rightarrow> reader" where
  "reader_run es = fold reader_step es new_reader"

fun read_calls :: "reader_event list \<Rightarrow> nat list" where
  "read_calls [] = []"
| "read_calls (Read_Call w # es) = w # read_calls es"
| "read_calls (e # es) = read_calls es"

text \<open>The bytes that arrived before the stream ended or broke, and what ended it.\<close>

fun received :: "reader_event list \<Rightarrow> buffer" where
  "received [] = []"
| "received (Data c # es) = c @ received es"
| "received (Read_Call w # es) = received es"
| "received (e # es) = []"

fun ended_by :: "reader_event list \<Rightarrow> reader_event option" where
  "ended_by [] = None"
| "ended_by (End # es) = Some End"
| "ended_by (Broken e # es) = Some (Broken e)"
| "ended_by (e # es) = ended_by es"

text \<open>What the reader reports once no frame is left: a length out of bounds comes before the end of
  the stream, after which nothing is taken.\<close>

definition stream_failure :: "reader_event list \<Rightarrow> (frame_failure \<times> terminal_kind) option" where
  "stream_failure es =
     (case unframe (received es) of (fs, rest, bad) \<Rightarrow>
        if bad then Some (Bad_Frame_Length, Kind_Protocol)
        else (case ended_by es of
                Some End \<Rightarrow> Some (if rest = [] then (Stream_Ended, Kind_End) else (Partial_At_End, Kind_Protocol))
              | Some (Broken e) \<Rightarrow> Some (Stream_Error e, Kind_Stream)
              | _ \<Rightarrow> None))"

text \<open>The k-th read gets the k-th frame; a read beyond the last frame waits, or gets the failure.\<close>

definition answered :: "nat list \<Rightarrow> buffer list \<Rightarrow> (frame_failure \<times> terminal_kind) option \<Rightarrow> buffer \<Rightarrow> reader" where
  "answered calls fs fl b =
     \<lparr>r_buffer = b, r_frames = drop (length calls) fs,
      r_waiters = (if fl = None then drop (length fs) calls else []),
      r_failure = map_option fst fl, r_terminalKind = map_option snd fl,
      r_settled = zip calls (map Inr fs @ (case fl of None \<Rightarrow> [] | Some (e, k) \<Rightarrow> replicate (length calls) (Inl e)))\<rparr>"

section \<open>Lemmas\<close>

lemma buffer_deliver [simp]: "r_buffer (deliver f r) = r_buffer r"
  by (simp add: deliver_def settle_def split: list.split)

lemma zip_snoc1: "zip (c @ [w]) ys = zip c ys @ (if length c < length ys then [(w, ys ! length c)] else [])"
proof (induction c arbitrary: ys)
  case Nil
  show ?case by (cases ys) auto
next
  case (Cons a c)
  show ?case using Cons.IH by (cases ys) auto
qed

lemma zip_cut: "length fs = n \<Longrightarrow> zip (take n c) (map g fs) = zip c (map g fs)"
  using take_zip[of n c "map g fs"] by simp

lemma zip_long: "length c \<le> length ys \<Longrightarrow> zip c (ys @ zs) = zip c ys"
  by (simp add: zip_append2)

lemma drop_snoc: "drop (length c) (fs @ [f]) = (if length c \<le> length fs then drop (length c) fs @ [f] else [])"
  by simp

lemma deliver_answered: "deliver f (answered c fs None b) = answered c (fs @ [f]) None b"
proof (cases "length c \<le> length fs")
  case True
  thus ?thesis by (simp add: deliver_def answered_def zip_long[where ys = "map Inr fs"])
next
  case False
  hence d: "drop (length fs) c = c ! length fs # drop (Suc (length fs)) c"
    by (simp add: Cons_nth_drop_Suc)
  have "zip c (map Inr fs @ [Inr f :: frame_failure + buffer]) = zip c (map Inr fs) @ [(c ! length fs, Inr f)]"
    using False by (simp add: zip_append2 d zip_cut)
  thus ?thesis using False by (simp add: deliver_def answered_def settle_def d)
qed

lemma read_answered: "reader_read w (answered c fs fl b) = answered (c @ [w]) fs fl b"
proof (cases "length c < length fs")
  case True
  hence d: "drop (length c) fs = fs ! length c # drop (Suc (length c)) fs"
    by (simp add: Cons_nth_drop_Suc)
  show ?thesis using True
    by (cases fl) (auto simp: reader_read_def answered_def settle_def d zip_snoc1 nth_append zip_long)
next
  case False
  have l: "zip c (map Inr fs @ e # replicate (length c) e) = zip c (map Inr fs @ replicate (length c) e)" for e :: "frame_failure + buffer"
    using zip_long[of c "map Inr fs @ replicate (length c) e" "[e]"]
    by (simp add: replicate_append_same)
  have n: "(e # replicate (length c) e) ! (length c - length fs) = e" for e :: "frame_failure + buffer"
    by (cases "length c - length fs") auto
  show ?thesis using False l n
    by (cases fl) (auto simp: reader_read_def answered_def settle_def zip_snoc1 nth_append)
qed

lemma fail_answered:
  "reader_fail e k (answered c fs None b) = answered c fs (Some (e, k)) b"
  "reader_fail e k (answered c fs (Some x) b) = answered c fs (Some x) b"
proof -
  have "zip c (map Inr fs @ replicate (length c) (Inl e)) = zip c (map Inr fs) @ map (\<lambda>w. (w, Inl e)) (drop (length fs) c)"
    by (simp add: zip_append2 zip_replicate2 zip_cut)
  thus "reader_fail e k (answered c fs None b) = answered c fs (Some (e, k)) b"
    by (simp add: reader_fail_def answered_def)
qed (simp add: reader_fail_def answered_def)

text \<open>The buffer of a reader that has not failed.\<close>

lemma deliver_buffer: "deliver f (r\<lparr>r_buffer := b\<rparr>) = (deliver f r)\<lparr>r_buffer := b\<rparr>"
  by (simp add: deliver_def settle_def split: list.split)

lemma answered_buffer [simp]:
  "(answered c fs fl b)\<lparr>r_buffer := b'\<rparr> = answered c fs fl b'"
  "r_buffer (answered c fs fl b) = b"
  "r_failure (answered c fs fl b) = map_option fst fl"
  by (simp_all add: answered_def)

lemma push_loop_answered:
  "unframe b = (gs, rest, bad) \<Longrightarrow>
   push_loop (answered c fs None b) =
     answered c (fs @ gs) (if bad then Some (Bad_Frame_Length, Kind_Protocol) else None) rest"
proof (induction b arbitrary: fs gs rest bad rule: unframe.induct)
  case (1 b)
  show ?case
  proof (cases "length b < 4 \<or> be_value (take 4 b) = 0 \<or> be_value (take 4 b) > MAX_FRAME
                \<or> length b < 4 + be_value (take 4 b)")
    case True
    thus ?thesis using 1(2) by (subst push_loop.simps) (auto simp: unframe.simps[of b] fail_answered Let_def split: if_splits)
  next
    case False
    define n where "n = be_value (take 4 b)"
    obtain hs where h: "unframe (drop (4 + n) b) = (hs, rest, bad)" "gs = take n (drop 4 b) # hs"
      using 1(2) False by (auto simp: unframe.simps[of b] n_def Let_def split: prod.splits)
    show ?thesis
      using False 1(1)[OF _ n_def _ _ h(1), of "fs @ [take n (drop 4 b)]"]
      by (subst push_loop.simps) (simp add: n_def[symmetric] deliver_answered Let_def h(2))
  qed
qed

lemma unframe_append:
  "unframe (a @ b) =
     (case unframe a of (fs, rest, bad) \<Rightarrow>
        if bad then (fs, rest @ b, True)
        else (case unframe (rest @ b) of (gs, rest', bad') \<Rightarrow> (fs @ gs, rest', bad')))"
proof (induction a rule: unframe.induct)
  case (1 a)
  define n where "n = be_value (take 4 a)"
  show ?case
  proof (cases "length a < 4 \<or> \<not> (n = 0 \<or> n > MAX_FRAME) \<and> length a < 4 + n")
    case True
    hence "unframe a = ([], a, False)" by (auto simp: unframe.simps[of a] n_def Let_def)
    thus ?thesis by (simp split: prod.split)
  next
    case False
    have n: "n = be_value (take 4 (a @ b))" and l: "\<not> length (a @ b) < 4"
      using False by (auto simp: n_def)
    show ?thesis
    proof (cases "n = 0 \<or> n > MAX_FRAME")
      case True
      thus ?thesis using False l by (auto simp: unframe.simps[of a] unframe.simps[of "a @ b"] n_def n Let_def)
    next
      case f: False
      have "unframe (a @ b) = (case unframe (drop (4 + n) a @ b) of (fs, rest, bad) \<Rightarrow> (take n (drop 4 a) # fs, rest, bad))"
        using f False by (subst unframe.simps) (simp add: n_def[symmetric] Let_def)
      moreover have "unframe a = (case unframe (drop (4 + n) a) of (fs, rest, bad) \<Rightarrow> (take n (drop 4 a) # fs, rest, bad))"
        using f False by (subst unframe.simps) (simp add: n_def[symmetric] Let_def)
      moreover note 1[OF _ n_def]
      ultimately show ?thesis using f False by (auto split: prod.splits if_splits)
    qed
  qed
qed

text \<open>What one more event adds.\<close>

lemma snoc_events:
  "read_calls (es @ fs) = read_calls es @ read_calls fs"
  "received (es @ fs) = received es @ (if ended_by es = None then received fs else [])"
  "ended_by (es @ fs) = (if ended_by es = None then ended_by fs else ended_by es)"
  by (induction es rule: read_calls.induct, auto)+

lemma ended_by_cases: "ended_by es = Some e \<Longrightarrow> e = End \<or> (\<exists>m. e = Broken m)"
  by (induction es rule: ended_by.induct) auto

text \<open>The reader after a run, with the buffer where it is determined.\<close>

definition reader_after :: "reader_event list \<Rightarrow> reader \<Rightarrow> bool" where
  "reader_after es r =
     (case unframe (received es) of (fs, rest, bad) \<Rightarrow>
        r = answered (read_calls es) fs (stream_failure es) (r_buffer r) \<and>
        (\<not> bad \<longrightarrow> r_buffer r = rest))"

lemma failure_stays: "stream_failure es \<noteq> None \<Longrightarrow>
  stream_failure (es @ [e]) = stream_failure es \<and> fst (unframe (received (es @ [e]))) = fst (unframe (received es)) \<and>
  (snd (snd (unframe (received (es @ [e])))) = snd (snd (unframe (received es)))) \<and>
  (snd (snd (unframe (received es))) \<or> received (es @ [e]) = received es)"
proof -
  assume s: "stream_failure es \<noteq> None"
  obtain fs rest bad where u: "unframe (received es) = (fs, rest, bad)" by (cases "unframe (received es)")
  show ?thesis
  proof (cases bad)
    case True
    have v: "unframe (received es @ c) = (fs, rest @ c, True)" for c
      using u True by (simp add: unframe_append[of "received es"])
    have "unframe (received (es @ [e])) = (fs, rest @ (if ended_by es = None then received [e] else []), True)"
      by (simp only: snoc_events v)
    thus ?thesis using u True by (simp add: stream_failure_def)
  next
    case False
    then obtain x where "ended_by es = Some x" using s u by (cases "ended_by es") (auto simp: stream_failure_def)
    hence "received (es @ [e]) = received es" "ended_by (es @ [e]) = ended_by es" by (simp_all add: snoc_events)
    thus ?thesis using u by (simp add: stream_failure_def)
  qed
qed

lemma reader_after_step: "reader_after es r \<Longrightarrow> reader_after (es @ [e]) (reader_step e r)"
proof (cases "stream_failure es")
  case None
  assume a: "reader_after es r"
  have n: "ended_by es = None"
    using None ended_by_cases[of es] by (cases "ended_by es") (auto simp: stream_failure_def split: prod.splits if_splits)
  obtain fs rest where u: "unframe (received es) = (fs, rest, False)"
    using None by (cases "unframe (received es)") (auto simp: stream_failure_def split: if_splits)
  have r: "r = answered (read_calls es) fs None rest" using a None u by (auto simp: reader_after_def)
  show ?thesis
  proof (cases e)
    case (Data c)
    obtain gs rest' bad where v: "unframe (rest @ c) = (gs, rest', bad)" by (cases "unframe (rest @ c)")
    have "reader_step e r = answered (read_calls es) (fs @ gs) (if bad then Some (Bad_Frame_Length, Kind_Protocol) else None) rest'"
      using Data r v by (simp add: reader_push_def push_loop_answered)
    thus ?thesis using Data n u v by (simp add: reader_after_def stream_failure_def snoc_events unframe_append[of "received es"])
  qed (use n u r None in \<open>simp_all add: reader_after_def stream_failure_def snoc_events unframe_append[of "received es"]
         read_answered reader_end_def reader_error_def fail_answered\<close>)
next
  case (Some x)
  assume a: "reader_after es r"
  obtain fs rest bad where u: "unframe (received es) = (fs, rest, bad)" by (cases "unframe (received es)")
  obtain rest' where v: "unframe (received (es @ [e])) = (fs, rest', bad)" "bad \<or> rest' = rest"
    using failure_stays[of es e] Some u by (cases "unframe (received (es @ [e]))") auto
  have f: "stream_failure (es @ [e]) = Some x" using failure_stays[of es e] Some by simp
  have r: "r = answered (read_calls es) fs (Some x) (r_buffer r)" "\<not> bad \<longrightarrow> r_buffer r = rest"
    using a u Some by (auto simp: reader_after_def)
  define b where "b = r_buffer r"
  have "reader_step e r = answered (read_calls (es @ [e])) fs (Some x) b"
    by (cases e) (simp_all add: reader_push_def reader_end_def reader_error_def fail_answered read_answered snoc_events
         r(1)[folded b_def])
  thus ?thesis using u v r(2) f b_def by (auto simp: reader_after_def)
qed

lemma reader_after_run: "reader_after es (reader_run es)"
proof (induction es rule: rev_induct)
  case Nil
  show ?case by (simp add: reader_after_def reader_run_def new_reader_def answered_def stream_failure_def unframe.simps)
next
  case (snoc e es)
  thus ?case using reader_after_step[of es "reader_run es" e] by (simp add: reader_run_def)
qed

lemma unframe_frames:
  "unframe s = (ps, [], False) \<longleftrightarrow> s = concat (map frame_of ps) \<and> list_all frame_fits ps" (is "?l \<longleftrightarrow> ?r")
proof
  show "?l \<Longrightarrow> ?r"
  proof (induction s arbitrary: ps rule: unframe.induct)
    case (1 b)
    define n where "n = be_value (take 4 b)"
    show ?case
    proof (cases "length b < 4 \<or> n = 0 \<or> n > MAX_FRAME \<or> length b < 4 + n")
      case True
      thus ?thesis using 1(2) by (auto simp: unframe.simps[of b] n_def Let_def split: if_splits)
    next
      case False
      obtain qs where q: "unframe (drop (4 + n) b) = (qs, [], False)" "ps = take n (drop 4 b) # qs"
        using 1(2) False by (auto simp: unframe.simps[of b] n_def Let_def split: prod.splits)
      have i: "drop (4 + n) b = concat (map frame_of qs) \<and> list_all frame_fits qs"
        using 1(1)[OF _ n_def _ _ q(1)] False by simp
      have "be_bytes 4 n = take 4 b"
        using False be_bytes_be_value[of "take 4 b"] by (simp add: n_def)
      moreover have "b = take 4 b @ take n (drop 4 b) @ drop (4 + n) b"
        by (metis add.commute append_take_drop_id drop_drop)
      moreover have "length (take n (drop 4 b)) = n" using False by (simp, linarith)
      ultimately have "b = frame_of (take n (drop 4 b)) @ drop (4 + n) b" "frame_fits (take n (drop 4 b))"
        using False by (simp_all only: frame_of_def frame_fits_def append_assoc) auto
      thus ?thesis using i q(2) by simp
    qed
  qed
  have "list_all frame_fits ps \<Longrightarrow> unframe (concat (map frame_of ps)) = (ps, [], False)"
  proof (induction ps)
    case Nil
    show ?case by (simp add: unframe.simps)
  next
    case (Cons p ps)
    hence f: "0 < length p" "length p \<le> MAX_FRAME" "unframe (concat (map frame_of ps)) = (ps, [], False)"
      by (simp_all add: frame_fits_def)
    have "length p < 256 ^ 4" using f(2) by (simp add: MAX_FRAME_def)
    hence "be_value (be_bytes 4 (length p)) = length p" by (rule be_value_be_bytes)
    thus ?case using f by (subst unframe.simps) (simp add: frame_of_def Let_def)
  qed
  thus "?r \<Longrightarrow> ?l" by simp
qed

section \<open>Properties\<close>

text \<open>C11: however the bytes are cut into chunks and however the reads fall between them, the k-th read
  gets the k-th frame of the byte stream; a read past the last frame waits while the stream is sound and open,
  and fails with the one reason the stream stopped for otherwise; frames nobody has read are kept in order.\<close>

theorem reader_answers:
  "reader_run es =
     answered (read_calls es) (fst (unframe (received es))) (stream_failure es) (r_buffer (reader_run es))"
  using reader_after_run[of es] by (auto simp: reader_after_def split: prod.splits)

text \<open>C12: a shutdown counts as clean exactly when the stream ended, and what arrived before was a sequence of
  whole frames of admissible length, each of them asked for.\<close>

theorem clean_shutdown_exact:
  "cleanShutdownError (reader_run es) = None \<longleftrightarrow>
     ended_by es = Some End \<and>
     (\<exists>ps. received es = concat (map frame_of ps) \<and> list_all frame_fits ps \<and> length ps \<le> length (read_calls es))"
proof -
  obtain fs rest bad where u: "unframe (received es) = (fs, rest, bad)" by (cases "unframe (received es)")
  have r: "reader_run es = answered (read_calls es) fs (stream_failure es) (r_buffer (reader_run es))"
    "\<not> bad \<longrightarrow> r_buffer (reader_run es) = rest"
    using reader_after_run[of es] u by (auto simp: reader_after_def)
  have k: "map_option snd (stream_failure es) = Some Kind_End \<longleftrightarrow> \<not> bad \<and> ended_by es = Some End \<and> rest = []"
    using ended_by_cases[of es] u by (auto simp: stream_failure_def split: option.splits)
  have "cleanShutdownError (reader_run es) = None \<longleftrightarrow>
      length fs \<le> length (read_calls es) \<and> r_buffer (reader_run es) = [] \<and> map_option snd (stream_failure es) = Some Kind_End"
    by (subst r(1), auto simp: cleanShutdownError_def answered_def split: option.splits)
  also have "\<dots> \<longleftrightarrow> ended_by es = Some End \<and> unframe (received es) = (fs, [], False) \<and> length fs \<le> length (read_calls es)"
    using k r(2) u by auto
  also have "\<dots> \<longleftrightarrow> ended_by es = Some End \<and>
      (\<exists>ps. unframe (received es) = (ps, [], False) \<and> length ps \<le> length (read_calls es))"
    using u by auto
  finally show ?thesis by (simp only: unframe_frames conj_assoc)
qed

end
