(* ===== verification/Broker_Session.thy ===== *)
theory Broker_Session
  imports Broker_Frames
begin

text \<open>
  The session of \<open>openGeneratedAppMutationRoot\<close> (\<open>scripts/patches/lib/generated-app-mutation-client.js\<close>),
  from the moment the broker runs: the requests in their queue, the one that is under way, the poison
  that ends everything after the first failure, and \<open>close\<close>. Each step is what the event loop runs without
  giving way: between two of them anything else may happen, in any order. The broker, its pipes and its
  exit are the environment: they may do anything.
\<close>

section \<open>Errors\<close>

record integrity =
  ie_reason :: string
  ie_code :: string
  ie_operation :: string

fun operation_name :: "broker_operation \<Rightarrow> string" where
  "operation_name Op_List = ''list''"
| "operation_name Op_Read = ''read''"
| "operation_name Op_Replace = ''replace''"

text \<open>\<open>integrityError\<close>: an integrity error stays what it is, another error gets the code and the reason
  given.\<close>

definition integrityError :: "wire_error option \<Rightarrow> string option \<Rightarrow> string \<Rightarrow> string \<Rightarrow> integrity" where
  "integrityError error reason code opn =
     (case error of
        Some (Integrity_Error r c) \<Rightarrow> \<lparr>ie_reason = r, ie_code = c, ie_operation = opn\<rparr>
      | _ \<Rightarrow> \<lparr>ie_reason = (case reason of Some r \<Rightarrow> (if r \<noteq> [] then r else opn @ '' failed'') | None \<Rightarrow> opn @ '' failed''),
              ie_code = code, ie_operation = opn\<rparr>)"

section \<open>State\<close>

datatype request =
    Ask_List "buffer option list option"
  | Ask_Read "buffer option list option"
  | Ask_Replace "buffer option list option" "buffer option" "buffer option"

fun request_operation :: "request \<Rightarrow> broker_operation" where
  "request_operation (Ask_List cs) = Op_List"
| "request_operation (Ask_Read cs) = Op_Read"
| "request_operation (Ask_Replace cs t bs) = Op_Replace"

record call =
  call_number :: nat
  call_operation :: broker_operation
  call_frame :: buffer
  call_token :: buffer

datatype phase = Idle | Writing call | Reading call

datatype close_state = Open | Draining | Waiting_Exit bool | Closed "integrity option"

text \<open>The variables of the closure, and what has happened: the requests asked for, taken into the queue and written,
  how each ended, and what the reader saw.\<close>

record session =
  s_reader :: reader
  s_phase :: phase
  s_queue :: "call list"
  s_poison :: "integrity option"
  s_close :: close_state
  s_asked :: nat
  s_accepted :: "call list"
  s_written :: "call list"
  s_finished :: "(call \<times> (integrity + broker_response)) list"
  s_rejected :: "(nat \<times> integrity) list"
  s_events :: "reader_event list"

definition new_session :: session where
  "new_session = \<lparr>s_reader = new_reader, s_phase = Idle, s_queue = [], s_poison = None, s_close = Open,
     s_asked = 0, s_accepted = [], s_written = [], s_finished = [], s_rejected = [], s_events = []\<rparr>"

section \<open>Operations\<close>

text \<open>\<open>poisonClient\<close>: the first error stays.\<close>

definition poisonClient :: "integrity \<Rightarrow> session \<Rightarrow> session" where
  "poisonClient e s = (if s_poison s = None then s\<lparr>s_poison := Some e\<rparr> else s)"

definition encode_call :: "bool \<Rightarrow> request \<Rightarrow> wire_error + buffer \<times> buffer" where
  "encode_call verifiedPrivateRoot q =
     (case q of
        Ask_List cs \<Rightarrow> ebind (encodeRequest Op_List cs verifiedPrivateRoot []) (\<lambda>f. Inr (f, []))
      | Ask_Read cs \<Rightarrow> ebind (encodeRequest Op_Read cs verifiedPrivateRoot []) (\<lambda>f. Inr (f, []))
      | Ask_Replace cs t bs \<Rightarrow>
          ebind (replace_suffix t bs) (\<lambda>sfx.
            ebind (encodeRequest Op_Replace cs verifiedPrivateRoot sfx) (\<lambda>f. Inr (f, the t))))"

definition reject_now :: "integrity \<Rightarrow> session \<Rightarrow> session" where
  "reject_now e s = s\<lparr>s_rejected := s_rejected s @ [(s_asked s, e)], s_asked := Suc (s_asked s)\<rparr>"

text \<open>\<open>enqueue\<close>.\<close>

definition enqueue :: "broker_operation \<Rightarrow> buffer \<Rightarrow> buffer \<Rightarrow> session \<Rightarrow> session" where
  "enqueue op frame token s =
     (case s_poison s of
        Some p \<Rightarrow> reject_now p s
      | None \<Rightarrow>
          if s_close s \<noteq> Open
          then reject_now \<lparr>ie_reason = ''mutation client is closed'', ie_code = ''closed'', ie_operation = operation_name op\<rparr> s
          else let c = \<lparr>call_number = s_asked s, call_operation = op, call_frame = frame, call_token = token\<rparr> in
               s\<lparr>s_queue := s_queue s @ [c], s_accepted := s_accepted s @ [c], s_asked := Suc (s_asked s)\<rparr>)"

text \<open>\<open>list\<close>, \<open>read\<close> and \<open>replace\<close> of the client: a request that cannot be encoded poisons the session.\<close>

definition submit :: "bool \<Rightarrow> request \<Rightarrow> session \<Rightarrow> session" where
  "submit verifiedPrivateRoot q s =
     (let op = request_operation q in
      case encode_call verifiedPrivateRoot q of
        Inl e \<Rightarrow>
          (let typed = integrityError (Some e) (Some (''invalid '' @ operation_name op @ '' request'')) ''invalid-request''
                         (operation_name op)
           in reject_now typed (poisonClient typed s))
      | Inr (frame, token) \<Rightarrow> enqueue op frame token s)"

definition finish_call :: "call \<Rightarrow> integrity + broker_response \<Rightarrow> session \<Rightarrow> session" where
  "finish_call c v s = s\<lparr>s_phase := Idle, s_finished := s_finished s @ [(c, v)]\<rparr>"

definition fail_call :: "call \<Rightarrow> integrity \<Rightarrow> session \<Rightarrow> session" where
  "fail_call c e s = finish_call c (Inl e) (poisonClient e s)"

definition unsolicited :: "call \<Rightarrow> integrity" where
  "unsolicited c = \<lparr>ie_reason = ''unsolicited broker response'', ie_code = ''protocol'', ie_operation = operation_name (call_operation c)\<rparr>"

definition call_failed :: "call \<Rightarrow> wire_error option \<Rightarrow> integrity" where
  "call_failed c e = integrityError e None ''protocol'' (operation_name (call_operation c))"

text \<open>The start of a queued request: \<open>if (poison != null) throw poison\<close>, then the first half of
  \<open>request\<close>.\<close>

definition begin_call :: "call \<Rightarrow> session \<Rightarrow> session" where
  "begin_call c s =
     (case s_poison s of
        Some p \<Rightarrow> finish_call c (Inl p) s
      | None \<Rightarrow>
          if pendingCount (s_reader s) \<noteq> 0 then fail_call c (unsolicited c) s
          else s\<lparr>s_phase := Writing c, s_written := s_written s @ [c]\<rparr>)"

definition reader_does :: "reader_event \<Rightarrow> session \<Rightarrow> session" where
  "reader_does e s = s\<lparr>s_reader := reader_step e (s_reader s), s_events := s_events s @ [e]\<rparr>"

text \<open>\<open>request\<close> once its read has settled.\<close>

definition resume_call :: "call \<Rightarrow> frame_failure + buffer \<Rightarrow> session \<Rightarrow> session" where
  "resume_call c v s =
     (case v of
        Inl e \<Rightarrow> fail_call c (call_failed c None) s
      | Inr response \<Rightarrow>
          if pendingCount (s_reader s) \<noteq> 0 then fail_call c (unsolicited c) s
          else (case decodeResponse response (call_operation c) (call_token c) of
                  Inl e \<Rightarrow> fail_call c (call_failed c (Some e)) s
                | Inr r \<Rightarrow> finish_call c (Inr r) s))"

text \<open>The end of \<open>close\<close>: the exit code, \<open>None\<close> when the broker did not exit in time, and whether its
  file still has the digest it had, or how reading it failed.\<close>

definition close_error :: "string \<Rightarrow> string \<Rightarrow> integrity" where
  "close_error reason code = \<lparr>ie_reason = reason, ie_code = code, ie_operation = ''close''\<rparr>"

fun shutdown_message :: "shutdown_error \<Rightarrow> string" where
  "shutdown_message Unsolicited_At_Shutdown = ''unsolicited broker response at shutdown''"
| "shutdown_message Partial_At_Shutdown = ''partial broker response at shutdown''"
| "shutdown_message Not_Ended = ''broker response stream did not end cleanly''"
| "shutdown_message (Failed_Before Bad_Frame_Length) = ''broker frame length is out of bounds''"
| "shutdown_message (Failed_Before Partial_At_End) = ''broker response stream ended with a partial frame''"
| "shutdown_message (Failed_Before Stream_Ended) = ''broker response stream ended''"
| "shutdown_message (Failed_Before (Stream_Error m)) = m"

definition close_verdict :: "int option option \<Rightarrow> integrity + bool \<Rightarrow> reader \<Rightarrow> integrity option" where
  "close_verdict exitCode digestSame r =
     (case exitCode of
        None \<Rightarrow> Some (close_error ''broker did not close within the termination bound'' ''broker-exit'')
      | Some code \<Rightarrow>
          if code \<noteq> Some 0 then Some (close_error ''broker exited unsuccessfully'' ''broker-exit'')
          else (case cleanShutdownError r of
                  Some e \<Rightarrow> Some (close_error (let m = shutdown_message e in if m \<noteq> [] then m else ''integrity failure'') ''protocol'')
                | None \<Rightarrow>
                    (case digestSame of
                       Inl e \<Rightarrow> Some e
                     | Inr same \<Rightarrow>
                         if \<not> same
                         then Some (close_error ''broker executable changed during the session'' ''unsafe-broker'')
                         else None)))"

definition close_done :: "int option option \<Rightarrow> integrity + bool \<Rightarrow> bool \<Rightarrow> session \<Rightarrow> session" where
  "close_done exitCode digestSame checked s =
     (if checked
      then (case close_verdict exitCode digestSame (s_reader s) of
              Some e \<Rightarrow> s\<lparr>s_poison := Some e, s_close := Closed (Some e)\<rparr>
            | None \<Rightarrow> s\<lparr>s_close := Closed None\<rparr>)
      else s\<lparr>s_close := Closed None\<rparr>)"

section \<open>Steps\<close>

text \<open>The steps the session takes by itself: the next request starts, its write is done and the read is
  called, the request goes on with what the read gave.\<close>

inductive internal :: "session \<Rightarrow> session \<Rightarrow> bool" where
  Begin: "s_phase s = Idle \<Longrightarrow> s_queue s = c # cs \<Longrightarrow> internal s (begin_call c (s\<lparr>s_queue := cs\<rparr>))"
| Resume: "s_phase s = Reading c \<Longrightarrow> map_of (r_settled (s_reader s)) (call_number c) = Some v \<Longrightarrow>
    internal s (resume_call c v s)"

text \<open>The steps others cause: a caller, the pipes, the broker.\<close>

inductive external :: "bool \<Rightarrow> session \<Rightarrow> session \<Rightarrow> bool" for verified where
  Submit: "external verified s (submit verified q s)"
| Write_Done: "s_phase s = Writing c \<Longrightarrow>
    external verified s (reader_does (Read_Call (call_number c)) (s\<lparr>s_phase := Reading c\<rparr>))"
| Write_Fails: "s_phase s = Writing c \<Longrightarrow> external verified s (fail_call c (call_failed c None) s)"
| Stream: "(\<forall>x. s_close s \<noteq> Closed x) \<Longrightarrow> (\<forall>w. e \<noteq> Read_Call w) \<Longrightarrow> external verified s (reader_does e s)"
| Close: "s_close s = Open \<Longrightarrow> external verified s (s\<lparr>s_close := Draining\<rparr>)"
| Drained: "s_close s = Draining \<Longrightarrow> s_phase s = Idle \<Longrightarrow> s_queue s = [] \<Longrightarrow>
    external verified s (s\<lparr>s_close := Waiting_Exit (s_poison s = None)\<rparr>)"
| Close_Done: "s_close s = Waiting_Exit checked \<Longrightarrow>
    external verified s (close_done exitCode digestSame checked s)"

inductive reachable :: "bool \<Rightarrow> session \<Rightarrow> bool" for verified where
  Start: "reachable verified new_session"
| Internal: "reachable verified s \<Longrightarrow> internal s s' \<Longrightarrow> reachable verified s'"
| External: "reachable verified s \<Longrightarrow> external verified s s' \<Longrightarrow> reachable verified s'"

inductive_cases internalE: "internal s s'"
inductive_cases externalE: "external verified s s'"

section \<open>The ledger of a session\<close>

fun active :: "phase \<Rightarrow> call list" where
  "active Idle = []"
| "active (Writing c) = [c]"
| "active (Reading c) = [c]"

fun reading :: "phase \<Rightarrow> call list" where
  "reading (Reading c) = [c]"
| "reading ph = []"

definition decodes :: "call \<times> broker_response \<Rightarrow> buffer \<Rightarrow> bool" where
  "decodes cv f = (decodeResponse f (call_operation (fst cv)) (call_token (fst cv)) = Inr (snd cv))"

definition frames_seen :: "session \<Rightarrow> buffer list" where
  "frames_seen s = fst (unframe (received (s_events s)))"

text \<open>The requests in the order they were taken: answered ones, each by its own frame, then failed ones, the one under
  way, and those that wait.\<close>

definition numbered :: "nat \<Rightarrow> call list \<Rightarrow> bool" where
  "numbered n cs = (distinct (map call_number cs) \<and> list_all (\<lambda>c. call_number c < n) cs)"

definition orderly :: "session \<Rightarrow> bool" where
  "orderly s =
     (s_reader s = reader_run (s_events s) \<and>
      s_accepted s = map fst (s_finished s) @ active (s_phase s) @ s_queue s \<and>
      numbered (s_asked s) (s_accepted s))"

definition closes :: "session \<Rightarrow> bool" where
  "closes s =
     (case s_close s of
        Waiting_Exit checked \<Rightarrow> s_phase s = Idle \<and> s_queue s = [] \<and> (\<not> checked \<longrightarrow> s_poison s \<noteq> None)
      | Closed e \<Rightarrow> s_phase s = Idle \<and> s_queue s = [] \<and> (s_poison s = None \<longrightarrow> cleanShutdownError (s_reader s) = None)
      | _ \<Rightarrow> True)"

definition ledger :: "session \<Rightarrow> (call \<times> broker_response) list \<Rightarrow> (call \<times> integrity) list \<Rightarrow> bool" where
  "ledger s oks bads =
     (s_finished s = map (\<lambda>(c, v). (c, Inr v)) oks @ map (\<lambda>(c, e). (c, Inl e)) bads \<and>
      list_all2 decodes oks (take (length oks) (frames_seen s)) \<and>
      (if bads = []
       then s_written s = map fst oks @ active (s_phase s) \<and>
            read_calls (s_events s) = map (call_number \<circ> fst) oks @ map call_number (reading (s_phase s))
       else s_poison s \<noteq> None \<and> s_phase s = Idle \<and>
            (s_written s = map fst oks \<or> s_written s = map fst oks @ [fst (hd bads)]) \<and>
            (read_calls (s_events s) = map (call_number \<circ> fst) oks \<or>
             read_calls (s_events s) = map (call_number \<circ> fst) oks @ [call_number (fst (hd bads))])))"

definition session_inv :: "session \<Rightarrow> bool" where
  "session_inv s = (orderly s \<and> closes s \<and> (\<exists>oks bads. ledger s oks bads))"

lemmas session_defs = session_inv_def orderly_def closes_def ledger_def frames_seen_def

subsection \<open>Preservation\<close>

lemma frames_grow: "\<exists>gs. fst (unframe (received (es @ [e]))) = fst (unframe (received es)) @ gs"
  by (auto simp: snoc_events unframe_append[of "received es"] split: prod.split)

lemma ledger_frames:
  "list_all2 decodes oks (take (length oks) fs) \<Longrightarrow> list_all2 decodes oks (take (length oks) (fs @ gs))"
proof -
  assume a: "list_all2 decodes oks (take (length oks) fs)"
  hence "length oks \<le> length fs" by (auto dest: list_all2_lengthD)
  thus ?thesis using a by simp
qed

lemma inv_cong:
  assumes i: "session_inv s" and p: "s_poison s \<noteq> None \<longrightarrow> s_poison s' \<noteq> None"
    and f: "s_finished s' = s_finished s" "s_events s' = s_events s" "s_written s' = s_written s" "s_phase s' = s_phase s"
    and o': "orderly s \<longrightarrow> orderly s'" and c: "closes s \<longrightarrow> closes s'"
  shows "session_inv s'"
proof -
  obtain oks bads where "ledger s oks bads" using i by (auto simp: session_inv_def)
  hence "ledger s' oks bads" using p f by (cases "bads = []") (simp_all add: ledger_def frames_seen_def)
  thus ?thesis using i o' c by (auto simp: session_inv_def)
qed

lemma numbered_Suc: "numbered n cs \<Longrightarrow> numbered (Suc n) cs"
  by (auto simp: numbered_def list_all_iff less_Suc_eq)

lemma numbered_snoc: "numbered n cs \<Longrightarrow> call_number c = n \<Longrightarrow> numbered (Suc n) (cs @ [c])"
  by (auto simp: numbered_def list_all_iff less_Suc_eq)

lemma inv_reject [intro]: "session_inv s \<Longrightarrow> session_inv (reject_now e s)"
  by (erule inv_cong) (auto simp: reject_now_def orderly_def closes_def numbered_Suc split: close_state.splits)

lemma inv_poison [intro]: "session_inv s \<Longrightarrow> session_inv (poisonClient e s)"
  by (erule inv_cong) (auto simp: poisonClient_def orderly_def closes_def split: close_state.splits)

lemma inv_enqueue [intro]: "session_inv s \<Longrightarrow> session_inv (enqueue op frame token s)"
proof (cases "s_poison s = None \<and> s_close s = Open")
  case True
  define c where "c = \<lparr>call_number = s_asked s, call_operation = op, call_frame = frame, call_token = token\<rparr>"
  assume i: "session_inv s"
  hence n: "numbered (Suc (s_asked s)) (s_accepted s @ [c])"
    by (intro numbered_snoc) (auto simp: session_inv_def orderly_def c_def)
  have e: "enqueue op frame token s =
      s\<lparr>s_queue := s_queue s @ [c], s_accepted := s_accepted s @ [c], s_asked := Suc (s_asked s)\<rparr>"
    using True by (simp add: enqueue_def c_def Let_def)
  have "orderly s \<longrightarrow> orderly (enqueue op frame token s)" using n unfolding e by (auto simp: orderly_def)
  thus ?thesis by (rule inv_cong [OF i, rotated -2]) (use True in \<open>simp_all add: e closes_def\<close>)
next
  case False
  assume "session_inv s"
  thus ?thesis using False by (auto simp: enqueue_def split: option.split)
qed

lemma inv_submit [intro]: "session_inv s \<Longrightarrow> session_inv (submit verified q s)"
  by (auto simp: submit_def Let_def split: sum.split)

text \<open>The reader takes one more event, and the phase may change with it.\<close>

lemma ledger_event:
  assumes l: "ledger s oks bads"
    and r: "read_calls (s_events s @ [e]) = read_calls (s_events s)"
  shows "ledger (reader_does e s) oks bads"
proof -
  obtain gs where g: "fst (unframe (received (s_events s @ [e]))) = frames_seen s @ gs"
    using frames_grow[of "s_events s" e] by (auto simp: frames_seen_def)
  have "frames_seen (reader_does e s) = frames_seen s @ gs" using g by (simp add: frames_seen_def reader_does_def)
  hence "list_all2 decodes oks (take (length oks) (frames_seen (reader_does e s)))"
    using l ledger_frames[of oks "frames_seen s" gs] by (simp add: ledger_def)
  thus ?thesis using l r by (cases "bads = []") (simp_all add: ledger_def reader_does_def)
qed

lemma orderly_event [intro]: "orderly s \<Longrightarrow> orderly (reader_does e s)"
  by (auto simp: orderly_def reader_does_def reader_run_def)

lemma inv_stream [intro]:
  assumes i: "session_inv s" and n: "\<forall>w. e \<noteq> Read_Call w" and c: "\<forall>x. s_close s \<noteq> Closed x"
  shows "session_inv (reader_does e s)"
proof -
  have "read_calls (s_events s @ [e]) = read_calls (s_events s)" using n by (cases e) (simp_all add: snoc_events)
  moreover have "closes (reader_does e s)" using i c
    by (auto simp: session_inv_def closes_def reader_does_def split: close_state.splits)
  ultimately show ?thesis using i by (auto simp: session_inv_def intro: ledger_event)
qed

lemma inv_read:
  assumes i: "session_inv s" and p: "s_phase s = Writing c"
  shows "session_inv (reader_does (Read_Call (call_number c)) (s\<lparr>s_phase := Reading c\<rparr>))"
proof -
  obtain oks bads where l: "ledger s oks bads" using i by (auto simp: session_inv_def)
  hence b: "bads = []" using p by (auto simp: ledger_def split: if_splits)
  have f: "frames_seen (reader_does (Read_Call w) s') = frames_seen s'" for w s'
    by (simp add: frames_seen_def reader_does_def snoc_events)
  have "ledger (reader_does (Read_Call (call_number c)) (s\<lparr>s_phase := Reading c\<rparr>)) oks []"
    using l b p unfolding ledger_def f by (simp add: reader_does_def snoc_events frames_seen_def)
  moreover have "closes (reader_does (Read_Call (call_number c)) (s\<lparr>s_phase := Reading c\<rparr>))"
    using i p by (auto simp: session_inv_def closes_def reader_does_def split: close_state.splits)
  moreover have "orderly (s\<lparr>s_phase := Reading c\<rparr>)" using i p by (auto simp: session_inv_def orderly_def)
  ultimately show ?thesis by (auto simp: session_inv_def)
qed

text \<open>The end of the call under way, or of one that is not begun because of the poison.\<close>

lemma inv_fail_active:
  assumes i: "session_inv s" and p: "active (s_phase s) = [c]"
  shows "session_inv (fail_call c e s)"
proof -
  obtain oks bads where l: "ledger s oks bads" using i by (auto simp: session_inv_def)
  have b: "bads = []" using p l by (cases "s_phase s") (auto simp: ledger_def split: if_splits)
  have "ledger (fail_call c e s) oks [(c, e)]"
    using l p b by (cases "s_phase s") (auto simp: ledger_def fail_call_def finish_call_def poisonClient_def frames_seen_def)
  moreover have "orderly (fail_call c e s)" using i p
    by (auto simp: session_inv_def orderly_def fail_call_def finish_call_def poisonClient_def)
  moreover have "closes (fail_call c e s)" using i p
    by (auto simp: session_inv_def closes_def fail_call_def finish_call_def poisonClient_def split: close_state.splits)
  ultimately show ?thesis by (auto simp: session_inv_def)
qed

lemma inv_refuse:
  assumes i: "session_inv s" and p: "s_phase s = Idle" "s_queue s = c # cs"
    and q: "s_poison s' \<noteq> None" "s' = s\<lparr>s_queue := cs, s_poison := s_poison s'\<rparr>"
  shows "session_inv (finish_call c (Inl e) s')"
proof -
  obtain oks bads where l: "ledger s oks bads" using i by (auto simp: session_inv_def)
  have "ledger (finish_call c (Inl e) s') oks (bads @ [(c, e)])"
    by (subst q(2), use l p q(1) in \<open>cases "bads = []"\<close>) (auto simp: ledger_def finish_call_def frames_seen_def)
  moreover have "orderly (finish_call c (Inl e) s')" by (subst q(2), use i p in \<open>auto simp: session_inv_def orderly_def finish_call_def\<close>)
  moreover have "closes (finish_call c (Inl e) s')"
    by (subst q(2), use i p in \<open>auto simp: session_inv_def closes_def finish_call_def split: close_state.splits\<close>)
  ultimately show ?thesis by (auto simp: session_inv_def)
qed

lemma inv_begin:
  assumes i: "session_inv s" and p: "s_phase s = Idle" "s_queue s = c # cs"
  shows "session_inv (begin_call c (s\<lparr>s_queue := cs\<rparr>))"
proof (cases "s_poison s = None \<and> pendingCount (s_reader s) = 0")
  case True
  obtain oks bads where l: "ledger s oks bads" using i by (auto simp: session_inv_def)
  have b: "bads = []" using True l by (auto simp: ledger_def split: if_splits)
  have "ledger (begin_call c (s\<lparr>s_queue := cs\<rparr>)) oks []"
    using l b p True by (simp add: ledger_def begin_call_def frames_seen_def)
  moreover have "orderly (begin_call c (s\<lparr>s_queue := cs\<rparr>))" using i p True by (auto simp: session_inv_def orderly_def begin_call_def)
  moreover have "closes (begin_call c (s\<lparr>s_queue := cs\<rparr>))"
    using i p True by (auto simp: session_inv_def closes_def begin_call_def split: close_state.splits)
  ultimately show ?thesis by (auto simp: session_inv_def)
next
  case False
  thus ?thesis
    by (auto simp: begin_call_def fail_call_def poisonClient_def intro!: inv_refuse [OF i p] split: option.splits)
qed

lemma settled_nth:
  assumes r: "r = answered calls fs fl b" and d: "distinct calls" and n: "calls = ws @ [w]"
    and m: "map_of (r_settled r) w = Some (Inr f)"
  shows "length ws < length fs \<and> f = fs ! length ws"
proof -
  define ans where "ans = map Inr fs @ (case fl of None \<Rightarrow> [] | Some (e, k) \<Rightarrow> replicate (length calls) (Inl e))"
  have z: "(w, Inr f) \<in> set (zip calls ans)" using map_of_SomeD [OF m] r by (simp add: answered_def ans_def)
  then obtain i where i: "i < length calls" "i < length ans" "calls ! i = w" "ans ! i = Inr f"
    by (auto simp: in_set_zip)
  have "i = length ws" using i(1,3) d n by (auto simp: nth_append nth_eq_iff_index_eq [of "ws @ [w]"] split: if_splits)
  moreover have "i < length fs \<and> f = fs ! i"
    using i(2,4) by (auto simp: ans_def nth_append split: if_splits option.splits)
  ultimately show ?thesis by simp
qed

lemma settled_all:
  assumes r: "r = answered calls fs fl b" and f: "r_failure r \<noteq> None"
  shows "fst ` set (r_settled r) = set calls"
proof -
  obtain e k where "fl = Some (e, k)" using r f by (cases fl) auto
  hence "map fst (r_settled r) = calls" using r by (simp add: answered_def map_fst_zip_take)
  thus ?thesis by (metis list.set_map)
qed

lemma reader_answered: "session_inv s \<Longrightarrow>
  s_reader s = answered (read_calls (s_events s)) (frames_seen s) (stream_failure (s_events s)) (r_buffer (s_reader s))"
  using reader_after_run[of "s_events s"]
  by (auto simp: session_inv_def orderly_def frames_seen_def reader_after_def split: prod.splits)

lemma numbered_distinct: "numbered n (xs @ ys) \<Longrightarrow> distinct (map call_number xs)"
  by (simp add: numbered_def)

text \<open>What the call under way reads is the frame of its own place in the stream.\<close>

lemma read_own_frame:
  assumes i: "session_inv s" and l: "ledger s oks bads" and p: "s_phase s = Reading c"
    and m: "map_of (r_settled (s_reader s)) (call_number c) = Some (Inr f)"
  shows "take (Suc (length oks)) (frames_seen s) = take (length oks) (frames_seen s) @ [f]"
proof -
  have b: "bads = []" using l p by (auto simp: ledger_def split: if_splits)
  have c: "read_calls (s_events s) = map (call_number \<circ> fst) oks @ [call_number c]"
    using l b p by (simp add: ledger_def)
  have "s_accepted s = (map fst oks @ [c]) @ s_queue s"
    using i l b p by (auto simp: session_inv_def orderly_def ledger_def case_prod_unfold comp_def)
  moreover have "numbered (s_asked s) (s_accepted s)" using i by (auto simp: session_inv_def orderly_def)
  ultimately have "numbered (s_asked s) ((map fst oks @ [c]) @ s_queue s)" by simp
  from numbered_distinct [OF this] have d: "distinct (read_calls (s_events s))" by (simp add: c)
  note reader_answered [OF i]
  from settled_nth [OF this d c m]
  show ?thesis by (simp add: take_Suc_conv_app_nth)
qed

lemma inv_resume:
  assumes i: "session_inv s" and p: "s_phase s = Reading c"
    and m: "map_of (r_settled (s_reader s)) (call_number c) = Some v"
  shows "session_inv (resume_call c v s)"
proof (cases "\<exists>f r. v = Inr f \<and> pendingCount (s_reader s) = 0 \<and> decodeResponse f (call_operation c) (call_token c) = Inr r")
  case True
  then obtain f r where f: "v = Inr f" "pendingCount (s_reader s) = 0" "decodeResponse f (call_operation c) (call_token c) = Inr r"
    by blast
  have e: "resume_call c v s = finish_call c (Inr r) s" using f by (simp add: resume_call_def)
  obtain oks bads where l: "ledger s oks bads" using i by (auto simp: session_inv_def)
  have b: "bads = []" using l p by (auto simp: ledger_def split: if_splits)
  have t: "take (Suc (length oks)) (frames_seen s) = take (length oks) (frames_seen s) @ [f]"
    using read_own_frame [OF i l p] m f(1) by simp
  have "list_all2 decodes (oks @ [(c, r)]) (take (Suc (length oks)) (frames_seen s))"
    unfolding t using l f(3) by (simp add: ledger_def list_all2_appendI decodes_def)
  hence "ledger (finish_call c (Inr r) s) (oks @ [(c, r)]) []"
    using l b p by (simp add: ledger_def finish_call_def frames_seen_def)
  moreover have "orderly (finish_call c (Inr r) s)" using i p by (auto simp: session_inv_def orderly_def finish_call_def)
  moreover have "closes (finish_call c (Inr r) s)"
    using i p by (auto simp: session_inv_def closes_def finish_call_def split: close_state.splits)
  ultimately show ?thesis unfolding e by (auto simp: session_inv_def)
next
  case False
  hence "\<exists>e. resume_call c v s = fail_call c e s"
    by (auto simp: resume_call_def split: sum.splits)
  thus ?thesis using inv_fail_active [OF i] p by auto
qed

lemma inv_close:
  assumes i: "session_inv s" and c: "s_close s = Waiting_Exit checked"
  shows "session_inv (close_done exitCode digestSame checked s)"
proof -
  have v: "close_verdict exitCode digestSame r = None \<Longrightarrow> cleanShutdownError r = None" for r
    by (simp add: close_verdict_def split: option.splits if_splits)
  show ?thesis
    by (rule inv_cong [OF i])
      (use i c v in \<open>auto simp: close_done_def orderly_def closes_def session_inv_def split: option.splits\<close>)
qed

lemma inv_internal: "internal s s' \<Longrightarrow> session_inv s \<Longrightarrow> session_inv s'"
  by (erule internal.cases) (auto intro: inv_begin inv_resume)

lemma inv_external: "external verified s s' \<Longrightarrow> session_inv s \<Longrightarrow> session_inv s'"
proof (induction rule: external.cases)
  case Close
  show ?case by (rule inv_cong) (use Close in \<open>auto simp: orderly_def closes_def\<close>)
next
  case Drained
  show ?case by (rule inv_cong) (use Drained in \<open>auto simp: orderly_def closes_def\<close>)
qed (auto intro: inv_read inv_fail_active inv_close)

lemma inv_reachable: "reachable verified s \<Longrightarrow> session_inv s"
proof (induction rule: reachable.induct)
  case Start
  have "ledger new_session [] []" by (simp add: ledger_def new_session_def)
  moreover have "orderly new_session \<and> closes new_session"
    by (simp add: orderly_def new_session_def reader_run_def closes_def numbered_def)
  ultimately show ?case by (auto simp: session_inv_def)
qed (auto intro: inv_internal inv_external)

subsection \<open>Settling\<close>

text \<open>How much is left to do for the requests that were taken, when the callback of a write counts too.\<close>

inductive settling :: "bool \<Rightarrow> session \<Rightarrow> session \<Rightarrow> bool" for verified where
  Settle_Internal: "internal s s' \<Longrightarrow> settling verified s s'"
| Settle_Written: "s_phase s = Writing c \<Longrightarrow>
    settling verified s (reader_does (Read_Call (call_number c)) (s\<lparr>s_phase := Reading c\<rparr>))"
| Settle_Failed: "s_phase s = Writing c \<Longrightarrow> settling verified s (fail_call c (call_failed c None) s)"

fun phase_work :: "phase \<Rightarrow> nat" where
  "phase_work Idle = 0"
| "phase_work (Writing c) = 2"
| "phase_work (Reading c) = 1"

definition work_left :: "session \<Rightarrow> nat" where
  "work_left s = 3 * length (s_queue s) + phase_work (s_phase s)"

lemma same_fields [simp]:
  "s_queue (poisonClient e s) = s_queue s" "s_accepted (poisonClient e s) = s_accepted s"
  "s_reader (poisonClient e s) = s_reader s" "s_finished (poisonClient e s) = s_finished s"
  "s_written (poisonClient e s) = s_written s" "s_poison (poisonClient e s) \<noteq> None"
  "s_queue (fail_call c e s) = s_queue s" "s_accepted (fail_call c e s) = s_accepted s"
  "s_reader (fail_call c e s) = s_reader s" "s_phase (fail_call c e s) = Idle"
  "s_written (fail_call c e s) = s_written s" "s_poison (fail_call c e s) \<noteq> None"
  "s_queue (finish_call c v s) = s_queue s" "s_accepted (finish_call c v s) = s_accepted s"
  "s_reader (finish_call c v s) = s_reader s" "s_phase (finish_call c v s) = Idle"
  "s_written (finish_call c v s) = s_written s" "s_poison (finish_call c v s) = s_poison s"
  by (auto simp: poisonClient_def fail_call_def finish_call_def)

lemma poisoned_Some [simp]: "\<exists>y. s_poison (fail_call c e s) = Some y" "\<exists>y. s_poison (poisonClient e s) = Some y"
  by (simp_all flip: not_None_eq)

lemma settling_less: "settling verified s t \<Longrightarrow> work_left t < work_left s"
  by (induction rule: settling.induct, erule internal.cases)
    (auto simp: work_left_def begin_call_def resume_call_def reader_does_def split: option.split sum.split)

lemma settling_keeps: "settling verified s t \<Longrightarrow>
  s_accepted t = s_accepted s \<and> (r_failure (s_reader s) \<noteq> None \<longrightarrow> r_failure (s_reader t) \<noteq> None)"
  by (induction rule: settling.induct, erule internal.cases)
    (auto simp: begin_call_def resume_call_def reader_does_def reader_read_def settle_def split: option.split sum.split list.split)

lemma settling_reachable: "settling verified s t \<Longrightarrow> reachable verified s \<Longrightarrow> reachable verified t"
  by (erule settling.cases) (auto intro: Internal External Write_Done Write_Fails)

lemma settled_or_settling:
  assumes r: "reachable verified s" and f: "r_failure (s_reader s) \<noteq> None"
    and p: "s_accepted s \<noteq> map fst (s_finished s)"
  shows "\<exists>t. settling verified s t"
proof (cases "s_phase s")
  case Idle
  then obtain c cs where "s_queue s = c # cs"
    using inv_reachable [OF r] p by (cases "s_queue s") (auto simp: session_inv_def orderly_def)
  thus ?thesis using Idle by (auto intro: Settle_Internal Begin)
next
  case (Writing c)
  thus ?thesis by (auto intro: Settle_Written)
next
  case (Reading c)
  have i: "session_inv s" using r by (rule inv_reachable)
  obtain oks bads where l: "ledger s oks bads" using i by (auto simp: session_inv_def)
  have "call_number c \<in> set (read_calls (s_events s))" using l Reading by (auto simp: ledger_def split: if_splits)
  moreover have "fst ` set (r_settled (s_reader s)) = set (read_calls (s_events s))"
    by (rule settled_all [OF reader_answered [OF i] f])
  ultimately have "call_number c \<in> fst ` set (r_settled (s_reader s))" by simp
  then obtain v where "map_of (r_settled (s_reader s)) (call_number c) = Some v"
    by (metis map_of_eq_None_iff not_Some_eq)
  thus ?thesis using Reading by (auto intro: Settle_Internal Resume)
qed

section \<open>A session, step by step\<close>

text \<open>One listing of an empty directory, and a clean close.\<close>

definition sample_call :: call where
  "sample_call = \<lparr>call_number = 0, call_operation = Op_List, call_frame = [0, 0, 0, 6, 1, 1, 0, 0, 0, 0], call_token = []\<rparr>"

definition sample_reply :: buffer where
  "sample_reply = [0, 0, 0, 8, 1, 0, 1, 0, 0, 0, 0, 0]"

definition sample_asked :: session where
  "sample_asked = submit False (Ask_List (Some [])) new_session"

definition sample_begun :: session where
  "sample_begun = begin_call sample_call (sample_asked\<lparr>s_queue := []\<rparr>)"

definition sample_reading :: session where
  "sample_reading = reader_does (Read_Call 0) (sample_begun\<lparr>s_phase := Reading sample_call\<rparr>)"

definition sample_arrived :: session where
  "sample_arrived = reader_does (Data sample_reply) sample_reading"

definition sample_answered :: session where
  "sample_answered = resume_call sample_call (Inr (drop 4 sample_reply)) sample_arrived"

definition sample_closed :: session where
  "sample_closed =
     close_done (Some (Some 0)) (Inr True) True
       ((reader_does End (sample_answered\<lparr>s_close := Draining\<rparr>))\<lparr>s_close := Waiting_Exit True\<rparr>)"

lemma sample_asked_is:
  "sample_asked = new_session\<lparr>s_queue := [sample_call], s_accepted := [sample_call], s_asked := 1\<rparr>"
  by (simp add: sample_asked_def submit_def encode_call_def encodeRequest_def encodePath_def validateComponents_def
      joined_length_def encoded_path_def be_bytes_short VERSION_def Let_def enqueue_def new_session_def sample_call_def
      wire_bounds)

lemma sample_begun_is:
  "sample_begun = new_session\<lparr>s_accepted := [sample_call], s_asked := 1, s_phase := Writing sample_call,
     s_written := [sample_call]\<rparr>"
  by (simp add: sample_begun_def sample_asked_is begin_call_def new_session_def new_reader_def pendingCount_def)

lemma unframe_sample: "unframe sample_reply = ([drop 4 sample_reply], [], False)"
  unfolding unframe_frames by (simp add: sample_reply_def frame_of_def be_bytes_short frame_fits_def MAX_FRAME_def)

lemma new_reader_answered: "new_reader = answered [] [] None []"
  by (simp add: new_reader_def answered_def)

lemma sample_arrived_is:
  "sample_arrived = new_session\<lparr>s_accepted := [sample_call], s_asked := 1, s_phase := Reading sample_call,
     s_written := [sample_call], s_reader := answered [0] [drop 4 sample_reply] None [],
     s_events := [Read_Call 0, Data sample_reply]\<rparr>"
  by (simp add: sample_arrived_def sample_reading_def sample_begun_is reader_does_def new_session_def new_reader_answered
      read_answered reader_push_def push_loop_answered [OF unframe_sample])

lemma sample_decodes: "decodeResponse (drop 4 sample_reply) Op_List token = Inr (Listing [])"
  by (simp add: sample_reply_def decodeResponse_def Decoder_u8_def Decoder_u32_def Decoder_number_def Decoder_bytes_def
      VERSION_def STATUS_ERROR_def STATUS_OK_def decode_listing_def be_value_def Decoder_finish_def MAX_LIST_ENTRIES_def)

lemma sample_answered_is:
  "sample_answered = new_session\<lparr>s_accepted := [sample_call], s_asked := 1, s_written := [sample_call],
     s_finished := [(sample_call, Inr (Listing []))], s_reader := answered [0] [drop 4 sample_reply] None [],
     s_events := [Read_Call 0, Data sample_reply]\<rparr>"
  by (simp add: sample_answered_def sample_arrived_is resume_call_def finish_call_def new_session_def pendingCount_def
      sample_decodes sample_call_def answered_def)

lemma sample_closed_is:
  "sample_closed = new_session\<lparr>s_accepted := [sample_call], s_asked := 1, s_written := [sample_call],
     s_finished := [(sample_call, Inr (Listing []))], s_close := Closed None,
     s_reader := answered [0] [drop 4 sample_reply] (Some (Stream_Ended, Kind_End)) [],
     s_events := [Read_Call 0, Data sample_reply, End]\<rparr>"
  by (simp add: sample_closed_def sample_answered_is reader_does_def reader_end_def fail_answered new_session_def
      close_done_def close_verdict_def cleanShutdownError_def) (simp add: answered_def)

lemma sample_reachable:
  "reachable False sample_begun" "reachable False sample_arrived" "reachable False sample_closed"
proof -
  have a: "reachable False sample_asked" unfolding sample_asked_def by (intro External [OF Start] Submit)
  show b: "reachable False sample_begun"
    unfolding sample_begun_def
    by (rule Internal [OF a]) (rule Begin, simp_all add: sample_asked_is new_session_def)
  have "external False sample_begun sample_reading"
    unfolding sample_reading_def using Write_Done [of sample_begun sample_call False]
    by (simp add: sample_begun_is sample_call_def)
  hence c: "reachable False sample_reading" by (rule External [OF b])
  have "external False sample_reading sample_arrived"
    unfolding sample_arrived_def by (rule Stream)
      (simp_all add: sample_reading_def reader_does_def sample_begun_is new_session_def)
  thus d: "reachable False sample_arrived" by (rule External [OF c])
  have "internal sample_arrived sample_answered"
    unfolding sample_answered_def by (rule Resume)
      (simp_all add: sample_arrived_is answered_def sample_call_def)
  hence e: "reachable False sample_answered" by (rule Internal [OF d])
  have "external False sample_answered (sample_answered\<lparr>s_close := Draining\<rparr>)"
    by (rule Close) (simp add: sample_answered_is new_session_def)
  hence f: "reachable False (sample_answered\<lparr>s_close := Draining\<rparr>)" by (rule External [OF e])
  define g where "g = reader_does End (sample_answered\<lparr>s_close := Draining\<rparr>)"
  have "external False (sample_answered\<lparr>s_close := Draining\<rparr>) g" unfolding g_def by (rule Stream) simp_all
  hence h: "reachable False g" by (rule External [OF f])
  have "external False g (g\<lparr>s_close := Waiting_Exit (s_poison g = None)\<rparr>)"
    by (rule Drained) (simp_all add: g_def reader_does_def sample_answered_is new_session_def)
  hence "reachable False (g\<lparr>s_close := Waiting_Exit (s_poison g = None)\<rparr>)" by (rule External [OF h])
  moreover have "s_poison g = None" by (simp add: g_def reader_does_def sample_answered_is new_session_def)
  ultimately have "reachable False (g\<lparr>s_close := Waiting_Exit True\<rparr>)" by simp
  thus "reachable False sample_closed"
    unfolding sample_closed_def g_def by (rule External) (rule Close_Done, simp)
qed

section \<open>Properties\<close>

text \<open>C8: requests are answered in the order they were taken, each at most once: the answered ones come first, the
  k-th by the k-th frame of the broker's stream; once one fails all that follow fail and the session is
  poisoned; at most one request has been written that has no answer.\<close>

theorem session_in_order:
  assumes "reachable verified s"
  shows "\<exists>oks bads.
    s_finished s = map (\<lambda>(c, v). (c, Inr v)) oks @ map (\<lambda>(c, e). (c, Inl e)) bads \<and>
    s_accepted s = map fst oks @ map fst bads @ active (s_phase s) @ s_queue s \<and>
    distinct (map call_number (s_accepted s)) \<and>
    list_all2 decodes oks (take (length oks) (frames_seen s)) \<and>
    (bads = [] \<or> s_poison s \<noteq> None) \<and>
    s_written s = take (length (s_written s)) (s_accepted s) \<and>
    length oks \<le> length (s_written s) \<and> length (s_written s) \<le> length oks + 1"
proof -
  have i: "session_inv s" using assms by (rule inv_reachable)
  then obtain oks bads where l: "ledger s oks bads" by (auto simp: session_inv_def)
  have a: "s_accepted s = map fst oks @ map fst bads @ active (s_phase s) @ s_queue s"
    using i l by (auto simp: session_inv_def orderly_def ledger_def case_prod_unfold comp_def)
  have "numbered (s_asked s) (s_accepted s)" using i unfolding session_inv_def orderly_def by blast
  hence "distinct (map call_number (s_accepted s))" unfolding numbered_def by blast
  moreover have "s_written s = take (length (s_written s)) (s_accepted s) \<and>
      length oks \<le> length (s_written s) \<and> length (s_written s) \<le> length oks + 1"
  proof (cases bads)
    case Nil
    thus ?thesis using l a by (cases "s_phase s") (auto simp: ledger_def)
  next
    case (Cons b bs)
    thus ?thesis using l a by (auto simp: ledger_def)
  qed
  ultimately show ?thesis using l a unfolding ledger_def by (intro exI [of _ oks] exI [of _ bads]) (auto split: if_splits)
qed

theorem session_in_order_witness:
  "\<exists>oks bads.
    s_finished sample_closed = map (\<lambda>(c, v). (c, Inr v)) oks @ map (\<lambda>(c, e). (c, Inl e)) bads \<and>
    s_accepted sample_closed = map fst oks @ map fst bads \<and> oks = [(sample_call, Listing [])]"
proof -
  from session_in_order [OF sample_reachable(3)] obtain oks bads where o:
    "s_finished sample_closed = map (\<lambda>(c, v). (c, Inr v)) oks @ map (\<lambda>(c, e). (c, Inl e)) bads"
    "s_accepted sample_closed = map fst oks @ map fst bads @ active (s_phase sample_closed) @ s_queue sample_closed"
    by blast
  moreover from o(1) have "oks = [(sample_call, Listing [])]"
    by (cases oks; cases bads) (auto simp: sample_closed_is new_session_def)
  ultimately show ?thesis
    by (intro exI [of _ oks] exI [of _ bads]) (simp add: sample_closed_is new_session_def)
qed

text \<open>C9: after the first failure nothing more is written to the broker and no request is taken, whatever happens,
  and the session stays poisoned.\<close>

theorem poison_is_final:
  assumes "(\<lambda>a b. internal a b \<or> external verified a b)\<^sup>*\<^sup>* s t" and "s_poison s \<noteq> None"
  shows "s_poison t \<noteq> None \<and> s_written t = s_written s \<and> s_accepted t = s_accepted s"
  using assms
proof (induction rule: rtranclp_induct)
  case (step t u)
  have p: "s_poison t \<noteq> None" using step by simp
  have "s_poison u \<noteq> None \<and> s_written u = s_written t \<and> s_accepted u = s_accepted t"
    using step(2)
  proof
    assume "internal t u"
    thus ?thesis using p
      by (cases rule: internal.cases) (auto simp: begin_call_def resume_call_def split: sum.split)
  next
    assume "external verified t u"
    thus ?thesis
    proof (cases rule: external.cases)
      case (Submit q)
      thus ?thesis using p by (auto simp: submit_def enqueue_def reject_now_def Let_def split: sum.split)
    next
      case (Close_Done checked exitCode digestSame)
      thus ?thesis using p by (auto simp: close_done_def split: option.split)
    qed (use p in \<open>auto simp: reader_does_def\<close>)
  qed
  thus ?case using step by simp
qed simp

theorem poison_is_final_witness:
  "s_poison (fail_call sample_call (unsolicited sample_call) sample_begun) \<noteq> None \<and>
   s_written (submit False (Ask_List None) (fail_call sample_call (unsolicited sample_call) sample_begun)) = [sample_call]"
proof -
  let ?s = "fail_call sample_call (unsolicited sample_call) sample_begun"
  have "external False ?s (submit False (Ask_List None) ?s)" by (rule Submit)
  hence "(\<lambda>a b. internal a b \<or> external False a b)\<^sup>*\<^sup>* ?s (submit False (Ask_List None) ?s)" by blast
  from poison_is_final [OF this] show ?thesis by (simp add: sample_begun_is)
qed

text \<open>C10: once the broker's stream is over, every request that was taken ends: what is left to do shrinks
  with every step, whichever comes, and where no step is left each has its answer or its error.\<close>

theorem requests_settle:
  assumes "reachable verified s" and "r_failure (s_reader s) \<noteq> None" and "(settling verified ^^ n) s t"
  shows "n + work_left t \<le> work_left s \<and>
    ((\<exists>u. settling verified t u) \<or> s_accepted s = map fst (s_finished t))"
proof -
  from assms(3) have "n + work_left t \<le> work_left s \<and> s_accepted t = s_accepted s \<and> reachable verified t \<and>
      r_failure (s_reader t) \<noteq> None"
  proof (induction n arbitrary: t)
    case 0
    thus ?case using assms(1,2) by simp
  next
    case (Suc n)
    then obtain u where u: "(settling verified ^^ n) s u" "settling verified u t" by auto
    show ?case using Suc.IH [OF u(1)] settling_less [OF u(2)] settling_keeps [OF u(2)] settling_reachable [OF u(2)]
      by auto
  qed
  thus ?thesis using settled_or_settling [of verified t] by auto
qed

theorem requests_settle_witness:
  "0 + work_left sample_closed \<le> work_left sample_closed \<and>
    ((\<exists>u. settling False sample_closed u) \<or> s_accepted sample_closed = map fst (s_finished sample_closed))"
  by (rule requests_settle [OF sample_reachable(3)]) (simp_all add: sample_closed_is new_session_def)



end
