(* ===== verification/Patch_Runner.thy ===== *)
theory Patch_Runner
  imports Patch_Engine
begin

text \<open>
  \<open>scripts/patches/runner.js\<close> and \<open>scripts/patch-linux-window-ui.js\<close>: a whole patch run over an extracted
  application, and the command that makes one and decides its exit code. What descriptors there are,
  the contracts of the Linux Computer Use patches and the inspection of the patched application are
  parameters, as is the broker, which is opened before and closed after, whatever happened between.
\<close>

section \<open>Descriptors\<close>

text \<open>What the options and the repository give: the target system, the descriptors that were discovered
  or loaded, the enabled integrations, and the text of a descriptor error.\<close>

record 'w run_options =
  ro_linux :: linux_target
  ro_core :: "thrown + 'w descriptor list"
  ro_features :: "thrown + 'w descriptor list"
  ro_enabledIds :: "thrown + string list"
  ro_describe :: "descriptor_error \<Rightarrow> string"

definition normalized :: "'w run_options \<Rightarrow> thrown + 'w descriptor list \<Rightarrow> thrown + 'w descriptor list" where
  "normalized opts r =
     ebind r (\<lambda>ds. case normalizePatchDescriptors ds of
                     Inl e \<Rightarrow> Inl (Error (ro_describe opts e)) | Inr ns \<Rightarrow> Inr ns)"

definition corePatchDescriptors :: "'w run_options \<Rightarrow> thrown + 'w descriptor list" where
  "corePatchDescriptors opts = normalized opts (ro_core opts)"

definition featurePatchDescriptors :: "'w run_options \<Rightarrow> thrown + 'w descriptor list" where
  "featurePatchDescriptors opts = normalized opts (ro_features opts)"

definition in_phase :: "mval \<Rightarrow> 'w descriptor list \<Rightarrow> 'w descriptor list" where
  "in_phase phase ds = filter (\<lambda>d. d_phase d = Some phase) ds"

definition mainBundlePatchDescriptors :: "'w run_options \<Rightarrow> thrown + 'w descriptor list" where
  "mainBundlePatchDescriptors opts =
     normalized opts
       (ebind (corePatchDescriptors opts) (\<lambda>cs.
        ebind (featurePatchDescriptors opts) (\<lambda>fs.
          Inr (in_phase PHASE_MAIN_BUNDLE cs @ in_phase PHASE_MAIN_BUNDLE fs))))"

definition allPatchDescriptors :: "'w run_options \<Rightarrow> thrown + 'w descriptor list" where
  "allPatchDescriptors opts =
     normalized opts
       (ebind (corePatchDescriptors opts) (\<lambda>cs. ebind (featurePatchDescriptors opts) (\<lambda>fs. Inr (cs @ fs))))"

section \<open>Policies\<close>

text \<open>The name of a descriptor in the policies: \<open>name ?? id\<close>.\<close>

definition policy_name :: "'w descriptor \<Rightarrow> mval option" where
  "policy_name d = (case nullish (d_name d) of None \<Rightarrow> d_id d | Some v \<Rightarrow> Some v)"

definition policy_text :: "'w descriptor \<Rightarrow> string" where
  "policy_text d = (case policy_name d of Some v \<Rightarrow> mval_str v | None \<Rightarrow> ''undefined'')"

definition required_policy :: "'w patch_context \<Rightarrow> 'w descriptor \<Rightarrow> bool" where
  "required_policy c d = (d_ciPolicy d = Some (MStr ''required-official-dmg'') \<and> descriptorAppliesTo d c)"

definition MAIN_PROCESS_UI :: string where
  "MAIN_PROCESS_UI = ''main-process-ui''"

definition policy_context :: "'w run_options \<Rightarrow> 'w \<Rightarrow> 'w patch_context" where
  "policy_context opts w =
     \<lparr>linux = Some (ro_linux opts), reportWarnings = None, computerUseSupport = True,
      contextIcon = None, contextIntegration = None, world = w\<rparr>"

definition requiredPatchNamesForProfile :: "string \<Rightarrow> 'w run_options \<Rightarrow> 'w \<Rightarrow> thrown + string list" where
  "requiredPatchNamesForProfile profile opts w =
     (if profile \<noteq> ''official-dmg-build'' \<and> profile \<noteq> ''upstream-build'' then Inr []
      else ebind (corePatchDescriptors opts) (\<lambda>cs. ebind (featurePatchDescriptors opts) (\<lambda>fs.
             Inr (map policy_text (filter (required_policy (policy_context opts w)) (cs @ fs)) @ [MAIN_PROCESS_UI]))))"

section \<open>A run\<close>

definition set_report :: "(patch_report \<Rightarrow> patch_report) \<Rightarrow> ('w, unit) task" where
  "set_report f s = (Inr (), s\<lparr>rep := map_option f (rep s)\<rparr>)"

definition record_patch ::
  "string \<Rightarrow> string \<Rightarrow> string option \<Rightarrow> (string, mval) jsmap \<Rightarrow> ('w, unit) task" where
  "record_patch name status reason meta s = (Inr (), s\<lparr>rep := recordPatch (rep s) name status reason (Some meta)\<rparr>)"

definition ui_meta :: "(string, mval) jsmap" where
  "ui_meta = [(''phase'', MStr ''main-bundle''), (''ciPolicy'', MStr ''required-official-dmg''), (''sourceKind'', MStr ''core'')]"

definition recordMainProcessUiPatch :: "string \<Rightarrow> string option \<Rightarrow> ('w, unit) task" where
  "recordMainProcessUiPatch status reason = record_patch MAIN_PROCESS_UI status reason ui_meta"

definition setReportLinuxTarget :: "linux_target \<Rightarrow> ('w, unit) task" where
  "setReportLinuxTarget target = set_report (\<lambda>r. r\<lparr>report_linuxTarget := Some target\<rparr>)"

definition createMainBundleContext :: "'w run_options \<Rightarrow> string option \<Rightarrow> bool \<Rightarrow> ('w, unit) task" where
  "createMainBundleContext opts icon support s =
     (Inr (), s\<lparr>ctx := \<lparr>linux = Some (ro_linux opts), reportWarnings = None, computerUseSupport = support,
                        contextIcon = icon, contextIntegration = None, world = world (ctx s)\<rparr>\<rparr>)"

text \<open>The contracts: of the main bundle, of a settings asset and of an initial asset.\<close>

record contracts =
  main_contract :: "string \<Rightarrow> bool"
  settings_contract :: "string \<Rightarrow> bool"
  initial_contract :: "string \<Rightarrow> bool"

definition no_dot :: "char \<Rightarrow> bool" where
  "no_dot c = (c \<noteq> CHR ''.'')"

definition matchingAssetSources :: "'w capability \<Rightarrow> (string \<Rightarrow> bool) \<Rightarrow> ('w, string list) task" where
  "matchingAssetSources cap pattern =
     tbind (readMatchingWebviewAssetSourcesWithCapability cap pattern) (\<lambda>as. tpure (map source as))"

definition derivesLinuxComputerUseSupport :: "contracts \<Rightarrow> 'w capability \<Rightarrow> string \<Rightarrow> ('w, bool) task" where
  "derivesLinuxComputerUseSupport k cap mainSource =
     (if \<not> main_contract k mainSource then tpure False
      else tbind (matchingAssetSources cap (name_between ''computer-use-settings-'' no_dot ''.js'')) (\<lambda>settings.
           tbind (matchingAssetSources cap (name_between ''app-initial-'' no_dot ''.js'')) (\<lambda>initial.
             tpure (length (filter (settings_contract k) settings) = 1 \<and>
                    length (filter (initial_contract k) initial) = 1))))"

definition main_file :: "string \<Rightarrow> string" where
  "main_file name = ''.vite/build/'' @ name"

definition ui_warnings :: "string list \<Rightarrow> (string, mval) jsmap" where
  "ui_warnings ws = (if ws = [] then [] else [(''warnings'', MStrs ws)])"

text \<open>The main bundle: patched, replaced, and its outcome recorded as a patch of its own.\<close>

definition patch_main_bundle :: "'w run_options \<Rightarrow> 'w capability \<Rightarrow> asset \<Rightarrow> ('w, unit) task" where
  "patch_main_bundle opts cap main =
     tbind (tlift (mainBundlePatchDescriptors opts)) (\<lambda>ds.
     tbind (applyMainBundlePatchDescriptors (Text (source main)) ds) (\<lambda>res.
     tbind (replaceMainBundleWithCapability cap (Some main) (patchedSource res)) (\<lambda>u.
       record_patch MAIN_PROCESS_UI
         (patchStatusFromChange (patchedSource res \<noteq> Text (source main)) (requiredCoreWarnings res)
           (Some (MStr ''required-official-dmg'')))
         (first_warning (requiredCoreWarnings res)) (ui_meta @ ui_warnings (requiredCoreWarnings res)))))"

definition missing_main :: "('w, unit) task" where
  "missing_main =
     tbind (console_warn (''WARN: Could not find main bundle in .vite/build '' @ em_dash @ '' skipping main-process UI patches''))
       (\<lambda>u. recordMainProcessUiPatch PATCH_STATUS_FAILED_REQUIRED (Some ''Could not find main bundle in .vite/build''))"

definition warn_unless :: "bool \<Rightarrow> string \<Rightarrow> ('w, unit) task" where
  "warn_unless b line = (if b then tpure () else console_warn line)"

definition patchExtractedAppWithCapability ::
  "contracts \<Rightarrow> string \<Rightarrow> 'w run_options \<Rightarrow> 'w capability \<Rightarrow> ('w, unit) task" where
  "patchExtractedAppWithCapability k extractedDir opts cap =
     tbind (tlift (allPatchDescriptors opts)) (\<lambda>ds.
     tbind (setReportLinuxTarget (ro_linux opts)) (\<lambda>u.
     tbind (tlift (ro_enabledIds opts)) (\<lambda>ids.
     tbind (set_report (\<lambda>r. r\<lparr>enabledIntegrations := Some ids\<rparr>)) (\<lambda>u.
     tbind (findMainBundleWithCapability cap) (\<lambda>main.
     tbind (set_report (\<lambda>r. r\<lparr>mainBundle := map_option assetName main,
                             report_target := map_option (main_file \<circ> assetName) main\<rparr>)) (\<lambda>u.
     tbind (if main = None then missing_main else tpure ()) (\<lambda>u.
     tbind (findIconAssetWithCapability cap) (\<lambda>icon.
     tbind (set_report (\<lambda>r. r\<lparr>iconAsset := icon\<rparr>)) (\<lambda>u.
     tbind (warn_unless (icon \<noteq> None)
       (''WARN: Could not find app icon asset in webview/assets '' @ em_dash @ '' skipping icon patches'')) (\<lambda>u.
     tbind (case main of None \<Rightarrow> tpure False | Some m \<Rightarrow> derivesLinuxComputerUseSupport k cap (source m)) (\<lambda>support.
     tbind (warn_unless support
       (''WARN: Linux Computer Use patch contracts are incomplete '' @ em_dash @
        '' leaving Computer Use support unavailable'')) (\<lambda>u.
     tbind (createMainBundleContext opts icon support) (\<lambda>u.
     tbind (case main of None \<Rightarrow> tpure () | Some m \<Rightarrow> patch_main_bundle opts cap m) (\<lambda>u.
     tbind (applyExtractedAppPatchDescriptors extractedDir ds PHASE_EXTRACTED_APP_PRE_WEBVIEW) (\<lambda>u.
     tbind (applyWebviewAssetPatchDescriptors (Some cap) ds) (\<lambda>u.
       applyExtractedAppPatchDescriptors extractedDir ds PHASE_EXTRACTED_APP_POST_WEBVIEW))))))))))))))))"

text \<open>The broker: \<open>open\<close> gives the capability and the digest of its executable.\<close>

record 'w broker =
  broker_open :: "'w \<Rightarrow> (thrown + 'w capability \<times> string option) \<times> 'w"
  broker_close :: "'w \<Rightarrow> (thrown + unit) \<times> 'w"

text \<open>\<open>try ... finally\<close>: what the clean-up throws replaces what came before.\<close>

definition finally_do :: "('w, 'a) task \<Rightarrow> ('w, unit) task \<Rightarrow> ('w, 'a) task" where
  "finally_do m cleanup s =
     (case m s of (r, s1) \<Rightarrow> (case cleanup s1 of (Inl e, s2) \<Rightarrow> (Inl e, s2) | (Inr u, s2) \<Rightarrow> (r, s2)))"

definition patchExtractedApp ::
  "contracts \<Rightarrow> string \<Rightarrow> 'w run_options \<Rightarrow> 'w broker \<Rightarrow> ('w, string option) task" where
  "patchExtractedApp k extractedDir opts b =
     tbind (lift_world (broker_open b)) (\<lambda>(cap, digest).
       tbind (finally_do (patchExtractedAppWithCapability k extractedDir opts cap) (lift_world (broker_close b)))
         (\<lambda>u. tpure digest))"

section \<open>The command line\<close>

record command_line =
  reportJson :: "string option"
  enforceCritical :: bool
  mutationBrokerPath :: "string option"
  mutationBrokerDigestFd :: "nat option"
  verifiedPrivateRoot :: bool
  positional :: "string list"

datatype command_stop = Usage | Help

definition MAX_SAFE_INTEGER :: nat where
  "MAX_SAFE_INTEGER = 9007199254740991"

text \<open>\<open>/^(?:[3-9]|[1-9][0-9]+)$/\<close>, and a safe integer.\<close>

fun descriptor_number :: "string \<Rightarrow> bool" where
  "descriptor_number [] = False"
| "descriptor_number [c] = (51 \<le> code_unit c \<and> code_unit c \<le> 57)"
| "descriptor_number (c # cs) = (49 \<le> code_unit c \<and> code_unit c \<le> 57 \<and> list_all is_digit cs)"

definition valid_digest_fd :: "string \<Rightarrow> bool" where
  "valid_digest_fd v = (descriptor_number v \<and> digits_value 0 v \<le> MAX_SAFE_INTEGER)"

fun parse_command :: "string list \<Rightarrow> command_line \<Rightarrow> command_stop + command_line" where
  "parse_command [] c = Inr c"
| "parse_command (arg # rest) c =
     (if arg = ''--report-json'' then
        (case rest of
           (x # xs) # rest' \<Rightarrow> parse_command rest' (c\<lparr>reportJson := Some (x # xs)\<rparr>)
         | _ \<Rightarrow> Inl Usage)
      else if arg = ''--enforce-critical'' then parse_command rest (c\<lparr>enforceCritical := True\<rparr>)
      else if arg = ''--mutation-broker'' then
        (case rest of
           (x # xs) # rest' \<Rightarrow> parse_command rest' (c\<lparr>mutationBrokerPath := Some (x # xs)\<rparr>)
         | _ \<Rightarrow> Inl Usage)
      else if arg = ''--mutation-broker-digest-fd'' then
        (case rest of
           v # rest' \<Rightarrow>
             if mutationBrokerDigestFd c \<noteq> None \<or> \<not> valid_digest_fd v then Inl Usage
             else parse_command rest' (c\<lparr>mutationBrokerDigestFd := Some (digits_value 0 v)\<rparr>)
         | [] \<Rightarrow> Inl Usage)
      else if arg = ''--verified-private-root'' then parse_command rest (c\<lparr>verifiedPrivateRoot := True\<rparr>)
      else if arg = ''--help'' \<or> arg = ''-h'' then Inl Help
      else parse_command rest (c\<lparr>positional := positional c @ [arg]\<rparr>))"

definition command_defaults :: "string option \<Rightarrow> command_line" where
  "command_defaults env_broker =
     \<lparr>reportJson = None, enforceCritical = False, mutationBrokerPath = env_broker, mutationBrokerDigestFd = None,
      verifiedPrivateRoot = False, positional = []\<rparr>"

text \<open>What the command needs of its surroundings: the broker at a path, the post-patch findings in an
  application, writing the report, and writing a receipt to a descriptor completely.\<close>

record 'w surroundings =
  su_now :: string
  su_broker :: "string option \<Rightarrow> bool \<Rightarrow> 'w broker"
  su_findings :: "'w \<Rightarrow> thrown + (string option \<times> string option \<times> string option) list"
  su_write :: "string \<Rightarrow> patch_report option \<Rightarrow> bool"
  su_receipt :: "nat \<Rightarrow> string \<Rightarrow> bool"

record 'w command_end =
  ce_exit :: nat
  ce_report :: "patch_report option"
  ce_receipt :: "(nat \<times> string) option"
  ce_state :: "'w run_state"

definition wants_report :: "command_line \<Rightarrow> bool" where
  "wants_report c = (reportJson c \<noteq> None \<or> enforceCritical c)"

text \<open>The \<open>try\<close> block, and the \<open>catch\<close> that notes an integrity failure in the report.\<close>

definition patch_and_inspect ::
  "contracts \<Rightarrow> string \<Rightarrow> 'w run_options \<Rightarrow> 'w surroundings \<Rightarrow> command_line \<Rightarrow> ('w, string option) task" where
  "patch_and_inspect k dir opts su c =
     tbind (patchExtractedApp k dir opts (su_broker su (mutationBrokerPath c) (verifiedPrivateRoot c))) (\<lambda>digest s.
       if rep s = None then (Inr digest, s)
       else (case su_findings su (world (ctx s)) of
               Inl e \<Rightarrow> (Inl e, s)
             | Inr findings \<Rightarrow> tbind (set_report (\<lambda>r. r\<lparr>postPatchFindings := Some findings\<rparr>)) (\<lambda>u. tpure digest) s))"

definition note_integrity :: "('w, 'a) task \<Rightarrow> ('w, 'a) task" where
  "note_integrity m s =
     (case m s of
        (Inl e, s1) \<Rightarrow>
          (if isGeneratedAppIntegrityError e
           then (Inl e, snd (set_report (\<lambda>r. r\<lparr>mutationIntegrity :=
                   Some (''failed'', ''generated-app mutation integrity failure'')\<rparr>) s1))
           else (Inl e, s1))
      | (Inr x, s1) \<Rightarrow> (Inr x, s1))"

definition report_written :: "'w surroundings \<Rightarrow> command_line \<Rightarrow> patch_report option \<Rightarrow> bool" where
  "report_written su c r = (case reportJson c of None \<Rightarrow> True | Some path \<Rightarrow> su_write su path r)"

definition valid_digest :: "string \<Rightarrow> bool" where
  "valid_digest d = (length d = 64 \<and> list_all is_lower_hex d)"

definition receipt_ok :: "'w surroundings \<Rightarrow> command_line \<Rightarrow> string option \<Rightarrow> bool" where
  "receipt_ok su c digest =
     (case mutationBrokerDigestFd c of
        None \<Rightarrow> True
      | Some fd \<Rightarrow> (case digest of None \<Rightarrow> False | Some d \<Rightarrow> valid_digest d \<and> su_receipt su fd (d @ [CHR 0x0A])))"

definition run_command ::
  "contracts \<Rightarrow> string \<Rightarrow> 'w run_options \<Rightarrow> 'w surroundings \<Rightarrow> command_line \<Rightarrow> 'w run_state \<Rightarrow> 'w command_end" where
  "run_command k dir opts su c s0 =
     (let s = s0\<lparr>rep := (if wants_report c then Some (createPatchReport (su_now su)) else None)\<rparr>;
          (result, t) = note_integrity (patch_and_inspect k dir opts su c) s;
          written = report_written su c (rep t);
          stop = (\<lambda>code receipt. \<lparr>ce_exit = code, ce_report = (if reportJson c \<noteq> None \<and> written then rep t else None),
                                   ce_receipt = receipt, ce_state = t\<rparr>)
      in if \<not> written then stop 1 None
         else (case result of
                 Inl e \<Rightarrow> stop 1 None
               | Inr digest \<Rightarrow>
                   if enforceCritical c \<and> criticalFailuresFromReport (rep t) \<noteq> [] then stop 1 None
                   else if \<not> receipt_ok su c digest then stop 1 None
                   else stop 0 (case mutationBrokerDigestFd c of
                                  None \<Rightarrow> None | Some fd \<Rightarrow> map_option (\<lambda>d. (fd, d @ [CHR 0x0A])) digest)))"

definition main_command ::
  "contracts \<Rightarrow> 'w run_options \<Rightarrow> 'w surroundings \<Rightarrow> string option \<Rightarrow> string list \<Rightarrow> 'w run_state \<Rightarrow> 'w command_end" where
  "main_command k opts su env_broker args s =
     (let stop = (\<lambda>code. \<lparr>ce_exit = code, ce_report = None, ce_receipt = None, ce_state = s\<rparr>) in
      case parse_command args (command_defaults env_broker) of
        Inl Usage \<Rightarrow> stop 1
      | Inl Help \<Rightarrow> stop 0
      | Inr c \<Rightarrow>
          (case positional c of
             [dir] \<Rightarrow> if dir = [] then stop 1 else run_command k dir opts su c s
           | _ \<Rightarrow> stop 1))"

section \<open>What a run adds to the report\<close>

definition adds :: "entry list \<Rightarrow> 'w run_state \<Rightarrow> 'w run_state \<Rightarrow> bool" where
  "adds es s t \<longleftrightarrow> rep t = map_option (\<lambda>r. r\<lparr>patches := patches r @ es\<rparr>) (rep s)"

lemma adds_trans: "adds es s t \<Longrightarrow> adds fs t u \<Longrightarrow> adds (es @ fs) s u"
  by (simp add: adds_def option.map_comp comp_def)

lemma adds_same: "rep t = rep s \<Longrightarrow> adds [] s t"
  by (cases "rep s") (simp_all add: adds_def)

lemma recorded_adds: "recorded ds s t \<longleftrightarrow> (\<exists>es. list_all2 entry_for ds es \<and> adds es s t)"
  by (simp add: recorded_def adds_def)

lemma adds_Some: "adds es s t \<Longrightarrow> rep s = Some r \<Longrightarrow> rep t = Some (r\<lparr>patches := patches r @ es\<rparr>)"
  by (simp add: adds_def)

lemma quiet_rep: "quiet.framed m \<Longrightarrow> m s = (r, t) \<Longrightarrow> rep t = rep s"
  using quiet.framed_result [of m s r t] by (simp add: only_adds_def)

text \<open>The tasks of a run that leave the report alone.\<close>

lemma quiet_findMain: "quiet.framed (findMainBundleWithCapability cap)"
  by (auto simp: findMainBundleWithCapability_def readUtf8AssetSource_def
      intro!: quiet_intros quiet_listOfficial split: option.split)

lemma quiet_findIcon: "quiet.framed (findIconAssetWithCapability cap)"
  by (auto simp: findIconAssetWithCapability_def intro!: quiet_intros quiet_listOfficial)

lemma quiet_replaceMain: "quiet.framed (replaceMainBundleWithCapability cap m v)"
  by (auto simp: replaceMainBundleWithCapability_def intro!: quiet_intros split: option.split pvalue.split)

lemma quiet_derives: "quiet.framed (derivesLinuxComputerUseSupport k cap src)"
  by (auto simp: derivesLinuxComputerUseSupport_def matchingAssetSources_def
      intro!: quiet_intros quiet_readMatching)

lemma quiet_warn_unless: "quiet.framed (warn_unless b line)"
  by (auto simp: warn_unless_def intro!: quiet_intros)

lemma rep_parts:
  "set_report f s = (x, t) \<Longrightarrow> rep t = map_option f (rep s)"
  "createMainBundleContext opts icon support s = (x, t) \<Longrightarrow> rep t = rep s"
  by (auto simp: set_report_def createMainBundleContext_def)

lemma phase_adds:
  assumes "applyExtractedAppPatchDescriptors dir ds ph s = (Inr u, t)"
  shows "\<exists>es. list_all2 entry_for (in_phase ph ds) es \<and> adds es s t"
proof -
  have "tfold (extracted_step dir) (filter (\<lambda>d. d_phase d = Some ph) ds) () s = (Inr u, t)"
    using assms by (simp add: applyExtractedAppPatchDescriptors_def tthrow_def split: if_splits)
  from extracted.fold_records [OF this] show ?thesis by (simp add: recorded_adds in_phase_def)
qed

lemma webview_adds:
  assumes "applyWebviewAssetPatchDescriptors (Some cap) ds s = (Inr u, t)"
  shows "\<exists>es. list_all2 entry_for (in_phase PHASE_WEBVIEW_ASSET ds) es \<and> adds es s t"
proof -
  have "tfold (webview_step cap) (filter (\<lambda>d. d_phase d = Some PHASE_WEBVIEW_ASSET) ds) () s = (Inr u, t)"
    using assms by (simp add: applyWebviewAssetPatchDescriptors_def)
  from webview.fold_records [OF this] show ?thesis by (simp add: recorded_adds in_phase_def)
qed

text \<open>The entry of the whole main process.\<close>

definition ui_entry :: "entry \<Rightarrow> bool" where
  "ui_entry e \<longleftrightarrow> entry_name e = MAIN_PROCESS_UI \<and> critical_entry e"

lemma ui_entry_made: "no_policy x \<Longrightarrow> ui_entry (make_entry MAIN_PROCESS_UI st reason (Some (ui_meta @ x)))"
proof -
  assume n: "no_policy x"
  have "field (make_entry MAIN_PROCESS_UI st reason (Some (ui_meta @ x))) ''ciPolicy'' = Some (MStr ''required-official-dmg'')"
    using n by (simp add: field_make_entry reserved_key_def map_add_def no_policy_map_of ui_meta_def)
  thus ?thesis by (simp add: ui_entry_def critical_entry_def isCriticalPolicy_def make_entry_def)
qed

lemma no_policy_ui [simp]: "no_policy (ui_warnings ws)"
  by (simp add: ui_warnings_def)

lemma record_ui: "record_patch MAIN_PROCESS_UI st reason (ui_meta @ x) s = (Inr u, t) \<Longrightarrow> no_policy x \<Longrightarrow>
    \<exists>e. ui_entry e \<and> entry_status e = st \<and> adds [e] s t"
  using ui_entry_made [of x st reason]
  by (intro exI [of _ "make_entry MAIN_PROCESS_UI st reason (Some (ui_meta @ x))"])
    (auto simp: record_patch_def recordPatch_def adds_def make_entry_def)

lemma main_bundle_adds:
  assumes "patch_main_bundle opts cap m s = (Inr u, t)"
  shows "\<exists>ds es ui. mainBundlePatchDescriptors opts = Inr ds \<and>
    list_all2 entry_for (in_phase PHASE_MAIN_BUNDLE ds) es \<and> ui_entry ui \<and> adds (es @ [ui]) s t"
proof -
  obtain ds res s1 s2 b where ds: "mainBundlePatchDescriptors opts = Inr ds"
    and m: "applyMainBundlePatchDescriptors (Text (source m)) ds s = (Inr res, s1)"
    and r: "replaceMainBundleWithCapability cap (Some m) (patchedSource res) s1 = (Inr b, s2)"
    and u: "record_patch MAIN_PROCESS_UI
         (patchStatusFromChange (patchedSource res \<noteq> Text (source m)) (requiredCoreWarnings res)
           (Some (MStr ''required-official-dmg'')))
         (first_warning (requiredCoreWarnings res)) (ui_meta @ ui_warnings (requiredCoreWarnings res)) s2 = (Inr u, t)"
    using assms by (cases "mainBundlePatchDescriptors opts") (auto simp: patch_main_bundle_def res_simps tlift_def)
  obtain es where es: "list_all2 entry_for (in_phase PHASE_MAIN_BUNDLE ds) es" "adds es s s1"
    using main.fold_records [OF m [unfolded applyMainBundlePatchDescriptors_def]] by (auto simp: recorded_adds in_phase_def)
  obtain ui where ui: "ui_entry ui" "adds [ui] s2 t"
    using record_ui [OF u no_policy_ui] by blast
  have "adds [] s1 s2" using quiet_rep [OF quiet_replaceMain r] by (rule adds_same)
  from adds_trans [OF es(2) adds_trans [OF this ui(2)]] have "adds (es @ [ui]) s t" by simp
  thus ?thesis using ds es(1) ui(1) by blast
qed

text \<open>The report before the patches run: the target, the enabled integrations and what was found.\<close>

lemma missing_main_adds:
  assumes "missing_main s = (Inr u, t)"
  shows "\<exists>ui. ui_entry ui \<and> entry_status ui = PATCH_STATUS_FAILED_REQUIRED \<and> adds [ui] s t"
proof -
  obtain s1 where "console_warn (''WARN: Could not find main bundle in .vite/build '' @ em_dash @
      '' skipping main-process UI patches'') s = (Inr (), s1)"
    and r: "recordMainProcessUiPatch PATCH_STATUS_FAILED_REQUIRED (Some ''Could not find main bundle in .vite/build'') s1 = (Inr u, t)"
    using assms by (auto simp: missing_main_def res_simps)
  hence "adds [] s s1" by (intro adds_same) (auto simp: console_warn_def)
  thus ?thesis using record_ui [of PATCH_STATUS_FAILED_REQUIRED _ "[]" s1 u t] r adds_trans
    by (fastforce simp: recordMainProcessUiPatch_def)
qed

definition prepared :: "'w run_options \<Rightarrow> string list \<Rightarrow> asset option \<Rightarrow> string option \<Rightarrow> patch_report \<Rightarrow> patch_report" where
  "prepared opts ids main icon r =
     r\<lparr>report_linuxTarget := Some (ro_linux opts), enabledIntegrations := Some ids,
       mainBundle := map_option assetName main, report_target := map_option (main_file \<circ> assetName) main,
       iconAsset := icon\<rparr>"

text \<open>The entries of a run: those of the main bundle and the one about it, or only that one, failed, when there is no main
  bundle; then those of the other phases, in order.\<close>

definition run_entries :: "'w run_options \<Rightarrow> bool \<Rightarrow> entry list \<Rightarrow> bool" where
  "run_entries opts found es \<longleftrightarrow>
     (\<exists>ds ms mes ui oes. es = mes @ [ui] @ oes \<and> ui_entry ui \<and>
        allPatchDescriptors opts = Inr ds \<and> list_all2 entry_for ms mes \<and>
        (if found then \<exists>ns. mainBundlePatchDescriptors opts = Inr ns \<and> ms = in_phase PHASE_MAIN_BUNDLE ns
         else ms = [] \<and> entry_status ui = PATCH_STATUS_FAILED_REQUIRED) \<and>
        list_all2 entry_for (in_phase PHASE_EXTRACTED_APP_PRE_WEBVIEW ds @ in_phase PHASE_WEBVIEW_ASSET ds @
          in_phase PHASE_EXTRACTED_APP_POST_WEBVIEW ds) oes)"

lemma run_adds:
  assumes run: "patchExtractedAppWithCapability k dir opts cap s = (Inr u, t)" and r: "rep s = Some r"
  shows "\<exists>ids main icon es. rep t = Some ((prepared opts ids main icon r)\<lparr>patches := patches r @ es\<rparr>) \<and>
    run_entries opts (main \<noteq> None) es"
proof -
  from run obtain ds ids main icon support s2 s4 s5 s6 s7 s8 s9 s10 s11 s12 s13 s14 s15 s16 where
    ds: "allPatchDescriptors opts = Inr ds"
    and p2: "setReportLinuxTarget (ro_linux opts) s = (Inr (), s2)"
    and p4: "set_report (\<lambda>r. r\<lparr>enabledIntegrations := Some ids\<rparr>) s2 = (Inr (), s4)"
    and p5: "findMainBundleWithCapability cap s4 = (Inr main, s5)"
    and p6: "set_report (\<lambda>r. r\<lparr>mainBundle := map_option assetName main,
        report_target := map_option (main_file \<circ> assetName) main\<rparr>) s5 = (Inr (), s6)"
    and p7: "(if main = None then missing_main else tpure ()) s6 = (Inr (), s7)"
    and p8: "findIconAssetWithCapability cap s7 = (Inr icon, s8)"
    and p9: "set_report (\<lambda>r. r\<lparr>iconAsset := icon\<rparr>) s8 = (Inr (), s9)"
    and p10: "warn_unless (icon \<noteq> None) (''WARN: Could not find app icon asset in webview/assets '' @ em_dash @ '' skipping icon patches'') s9 = (Inr (), s10)"
    and p11: "(case main of None \<Rightarrow> tpure False | Some m \<Rightarrow> derivesLinuxComputerUseSupport k cap (source m)) s10 = (Inr support, s11)"
    and p12: "warn_unless support (''WARN: Linux Computer Use patch contracts are incomplete '' @ em_dash @
        '' leaving Computer Use support unavailable'') s11 = (Inr (), s12)"
    and p13: "createMainBundleContext opts icon support s12 = (Inr (), s13)"
    and p14: "(case main of None \<Rightarrow> tpure () | Some m \<Rightarrow> patch_main_bundle opts cap m) s13 = (Inr (), s14)"
    and p15: "applyExtractedAppPatchDescriptors dir ds PHASE_EXTRACTED_APP_PRE_WEBVIEW s14 = (Inr (), s15)"
    and p16: "applyWebviewAssetPatchDescriptors (Some cap) ds s15 = (Inr (), s16)"
    and p17: "applyExtractedAppPatchDescriptors dir ds PHASE_EXTRACTED_APP_POST_WEBVIEW s16 = (Inr u, t)"
    by (cases "allPatchDescriptors opts"; cases "ro_enabledIds opts")
      (auto simp: patchExtractedAppWithCapability_def tbind_eq_Inr tlift_def tpure_def tthrow_def)
  have q11: "quiet.framed (case main of None \<Rightarrow> tpure False | Some m \<Rightarrow> derivesLinuxComputerUseSupport k cap (source m))"
    by (auto intro: quiet_derives quiet.framed_pure split: option.split)
  obtain e1 where e1: "adds e1 s6 s7" and c1: "if main = None then \<exists>ui. e1 = [ui] \<and> ui_entry ui \<and> entry_status ui = PATCH_STATUS_FAILED_REQUIRED else e1 = []"
    using p7 missing_main_adds [of s6 "()" s7] by (cases main) (auto simp: tpure_def adds_same)
  obtain e2 where e2: "adds e2 s13 s14" and c2: "case main of None \<Rightarrow> e2 = [] | Some m \<Rightarrow>
      \<exists>ns es ui. mainBundlePatchDescriptors opts = Inr ns \<and> list_all2 entry_for (in_phase PHASE_MAIN_BUNDLE ns) es \<and> ui_entry ui \<and> e2 = es @ [ui]"
    using p14 main_bundle_adds [of opts cap _ s13 "()" s14] by (cases main) (fastforce simp: tpure_def adds_same)+
  obtain f1 f2 f3 where f: "adds f1 s14 s15" "adds f2 s15 s16" "adds f3 s16 t"
    and lf: "list_all2 entry_for (in_phase PHASE_EXTRACTED_APP_PRE_WEBVIEW ds) f1"
      "list_all2 entry_for (in_phase PHASE_WEBVIEW_ASSET ds) f2"
      "list_all2 entry_for (in_phase PHASE_EXTRACTED_APP_POST_WEBVIEW ds) f3"
    using phase_adds [OF p15] webview_adds [OF p16] phase_adds [OF p17] by blast
  have "rep s6 = Some (prepared opts ids main icon r\<lparr>iconAsset := iconAsset r\<rparr>)"
    using rep_parts(1) [OF p2 [unfolded setReportLinuxTarget_def]] rep_parts(1) [OF p4] rep_parts(1) [OF p6] r
      quiet_rep [OF quiet_findMain p5] by (simp add: prepared_def)
  hence "rep s9 = Some ((prepared opts ids main icon r)\<lparr>patches := patches r @ e1\<rparr>)"
    using adds_Some [OF e1] quiet_rep [OF quiet_findIcon p8] rep_parts(1) [OF p9] by (simp add: prepared_def)
  moreover have "rep s13 = rep s9"
    using quiet_rep [OF quiet_warn_unless p10] quiet_rep [OF q11 p11] quiet_rep [OF quiet_warn_unless p12] rep_parts(2) [OF p13] by simp
  moreover have "adds (e2 @ f1 @ f2 @ f3) s13 t" using e2 f adds_trans by metis
  ultimately have "rep t = Some ((prepared opts ids main icon r)\<lparr>patches := patches r @ e1 @ e2 @ f1 @ f2 @ f3\<rparr>)"
    by (simp add: adds_def)
  moreover have "run_entries opts (main \<noteq> None) (e1 @ e2 @ f1 @ f2 @ f3)"
  proof (cases main)
    case None
    thus ?thesis using c1 c2 ds lf unfolding run_entries_def
      by (intro exI [of _ ds] exI [of _ "[]"]) (auto intro!: list_all2_appendI)
  next
    case (Some m)
    then obtain ns es ui where "mainBundlePatchDescriptors opts = Inr ns"
      "list_all2 entry_for (in_phase PHASE_MAIN_BUNDLE ns) es" "ui_entry ui" "e2 = es @ [ui]"
      using c2 by auto
    thus ?thesis using Some c1 ds lf unfolding run_entries_def
      by (rule_tac x = ds in exI, rule_tac x = "in_phase PHASE_MAIN_BUNDLE ns" in exI, rule_tac x = es in exI,
          rule_tac x = ui in exI) (auto intro!: list_all2_appendI)
  qed
  ultimately show ?thesis by blast
qed

lemma critical_failures_of: "criticalFailuresFromReport (Some r) = [] \<longleftrightarrow>
    list_all (\<lambda>e. critical_entry e \<longrightarrow> \<not> failing e) (patches r)"
  by (auto simp: criticalFailuresFromReport_def report_patches_def filter_empty_conv list_all_iff)

lemma inspect_adds:
  assumes run: "patch_and_inspect k dir opts su c s = (Inr d, t)" and r: "rep s = Some r"
  shows "\<exists>ids main icon es fs w. rep t = Some ((prepared opts ids main icon r)\<lparr>patches := patches r @ es,
      postPatchFindings := Some fs\<rparr>) \<and> run_entries opts (main \<noteq> None) es \<and>
    broker_close (su_broker su (mutationBrokerPath c) (verifiedPrivateRoot c)) w = (Inr (), world (ctx t))"
proof -
  let ?b = "su_broker su (mutationBrokerPath c) (verifiedPrivateRoot c)"
  obtain s1 where p: "patchExtractedApp k dir opts ?b s = (Inr d, s1)"
    and f: "(if rep s1 = None then (Inr d, s1)
       else (case su_findings su (world (ctx s1)) of
               Inl e \<Rightarrow> (Inl e, s1)
             | Inr findings \<Rightarrow> tbind (set_report (\<lambda>r. r\<lparr>postPatchFindings := Some findings\<rparr>)) (\<lambda>u. tpure d) s1)) = (Inr d, t)"
    using run by (auto simp: patch_and_inspect_def tbind_eq_Inr tbind_def tpure_def split: if_splits sum.splits prod.splits)
  obtain cap digest s2 where o': "lift_world (broker_open ?b) s = (Inr (cap, digest), s2)"
    and fin: "finally_do (patchExtractedAppWithCapability k dir opts cap) (lift_world (broker_close ?b)) s2 = (Inr (), s1)"
    using p by (auto simp: patchExtractedApp_def tbind_eq_Inr tpure_def)
  obtain s3 where m: "patchExtractedAppWithCapability k dir opts cap s2 = (Inr (), s3)"
    and cl: "lift_world (broker_close ?b) s3 = (Inr (), s1)"
    using fin by (auto simp: finally_do_def split: prod.splits sum.splits)
  have "rep s2 = Some r" using r quiet_rep [OF quiet_lift o'] by simp
  from run_adds [OF m this] obtain ids main icon es where
    e: "rep s3 = Some ((prepared opts ids main icon r)\<lparr>patches := patches r @ es\<rparr>)" "run_entries opts (main \<noteq> None) es"
    by blast
  have r1: "rep s1 = rep s3" using quiet_rep [OF quiet_lift cl] .
  have "\<exists>q. rep s1 = Some q" unfolding r1 e(1) by (rule exI, rule refl)
  then obtain q where q: "rep s1 = Some q" by (elim exE)
  have "\<exists>fs. rep t = Some (q\<lparr>postPatchFindings := Some fs\<rparr>) \<and> ctx t = ctx s1"
  proof (cases "su_findings su (world (ctx s1))")
    case (Inl x)
    thus ?thesis using f by (simp add: q)
  next
    case (Inr fs)
    have "snd (tbind (set_report (\<lambda>r. r\<lparr>postPatchFindings := Some fs\<rparr>)) (\<lambda>u. tpure d) s1) = t"
      using f by (simp add: q Inr)
    hence "t = s1\<lparr>rep := Some (q\<lparr>postPatchFindings := Some fs\<rparr>)\<rparr>"
      by (simp only: set_report_def tbind_def tpure_def q option.map prod.case sum.case snd_conv)
    thus ?thesis by (intro exI [of _ fs]) simp
  qed
  then obtain fs where "rep t = map_option (\<lambda>r. r\<lparr>postPatchFindings := Some fs\<rparr>) (rep s1)" "ctx t = ctx s1"
    using q by auto
  moreover have "\<exists>w. broker_close ?b w = (Inr (), world (ctx s1))"
    using cl by (auto simp: lift_world_def split: prod.splits)
  moreover have "map_option (\<lambda>r. r\<lparr>postPatchFindings := Some fs\<rparr>) (rep s1) =
      Some ((prepared opts ids main icon r)\<lparr>patches := patches r @ es, postPatchFindings := Some fs\<rparr>)"
    unfolding r1 e(1) by simp
  ultimately show ?thesis using e(2) by metis
qed

lemma enforced_exit:
  assumes "ce_exit (run_command k dir opts su c s) = 0" and "enforceCritical c"
  shows "\<exists>r w. rep (ce_state (run_command k dir opts su c s)) = Some r \<and>
    (reportJson c \<noteq> None \<longrightarrow> ce_report (run_command k dir opts su c s) = Some r) \<and>
    criticalFailuresFromReport (Some r) = [] \<and> mutationIntegrity r = None \<and> mainBundle r \<noteq> None \<and>
    run_entries opts True (patches r) \<and>
    broker_close (su_broker su (mutationBrokerPath c) (verifiedPrivateRoot c)) w =
      (Inr (), world (ctx (ce_state (run_command k dir opts su c s))))"
proof -
  define s1 where "s1 = s\<lparr>rep := Some (createPatchReport (su_now su))\<rparr>"
  have w: "wants_report c" using assms(2) by (simp add: wants_report_def)
  obtain result t where n: "note_integrity (patch_and_inspect k dir opts su c) s1 = (result, t)"
    by (cases "note_integrity (patch_and_inspect k dir opts su c) s1")
  have z: "\<not> isl result" "report_written su c (rep t)" "criticalFailuresFromReport (rep t) = []"
    and st: "ce_state (run_command k dir opts su c s) = t"
    and re: "reportJson c \<noteq> None \<longrightarrow> ce_report (run_command k dir opts su c s) = rep t"
    using assms w n by (auto simp: run_command_def Let_def s1_def split: if_splits sum.splits)
  then obtain d where d: "patch_and_inspect k dir opts su c s1 = (Inr d, t)"
    using n by (auto simp: note_integrity_def split: prod.splits sum.splits if_splits)
  from inspect_adds [OF d, of "createPatchReport (su_now su)"] obtain ids main icon es fs w where
    e: "rep t = Some ((prepared opts ids main icon (createPatchReport (su_now su)))\<lparr>patches := es, postPatchFindings := Some fs\<rparr>)"
    "run_entries opts (main \<noteq> None) es"
    "broker_close (su_broker su (mutationBrokerPath c) (verifiedPrivateRoot c)) w = (Inr (), world (ctx t))"
    by (auto simp: s1_def createPatchReport_def)
  have "main \<noteq> None"
  proof
    assume "main = None"
    hence "\<exists>ui\<in>set es. critical_entry ui \<and> entry_status ui = PATCH_STATUS_FAILED_REQUIRED"
      using e(2) by (auto simp: run_entries_def ui_entry_def)
    thus False using z(3) e(1)
      by (auto simp: critical_failures_of list_all_iff failing_def success_status_def not_applicable_status_def)
  qed
  thus ?thesis using e z(3) st re by (auto simp: prepared_def createPatchReport_def)
qed

section \<open>An example run\<close>

text \<open>An application that is only a main bundle, and no patches.\<close>

definition sample_capability :: "unit capability" where
  "sample_capability =
     \<lparr>cap_list = (\<lambda>dir w. (Inr (Some (if dir = MAIN_BUILD_COMPONENTS
                                       then [\<lparr>raw_name = Some ''main.js'', raw_mode = Some 0x81A4\<rparr>] else [])), w)),
      cap_read = (\<lambda>path w. (Inr (Some \<lparr>read_mode = Some 0x81A4, read_operationId = Some (replicate 16 CHR ''0''),
                                        read_content = Some ''x''\<rparr>), w)),
      cap_replace = (\<lambda>path token bytes w. (Inr (), w))\<rparr>"

definition sample_options :: "unit run_options" where
  "sample_options = \<lparr>ro_linux = undefined, ro_core = Inr [], ro_features = Inr [], ro_enabledIds = Inr [],
     ro_describe = (\<lambda>e. [])\<rparr>"

definition sample_contracts :: contracts where
  "sample_contracts = \<lparr>main_contract = (\<lambda>s. False), settings_contract = (\<lambda>s. False), initial_contract = (\<lambda>s. False)\<rparr>"

lemma sample_fields:
  "cap_list sample_capability dir = (\<lambda>w. (Inr (Some (if dir = MAIN_BUILD_COMPONENTS
      then [\<lparr>raw_name = Some ''main.js'', raw_mode = Some 0x81A4\<rparr>] else [])), w))"
  "cap_read sample_capability path = (\<lambda>w. (Inr (Some \<lparr>read_mode = Some 0x81A4,
      read_operationId = Some (replicate 16 CHR ''0''), read_content = Some ''x''\<rparr>), w))"
  "ro_enabledIds sample_options = Inr []" "main_contract sample_contracts src = False"
  by (simp_all add: sample_capability_def sample_options_def sample_contracts_def)

lemma lift_unit: "lift_world (\<lambda>w. (r, w)) s = (r, s)"
  by (simp add: lift_world_def)

lemma sample_descriptors:
  "allPatchDescriptors sample_options = Inr []" "mainBundlePatchDescriptors sample_options = Inr []"
  by (simp_all add: allPatchDescriptors_def mainBundlePatchDescriptors_def corePatchDescriptors_def
      featurePatchDescriptors_def normalized_def sample_options_def normalizePatchDescriptors_def
      assertUniquePatchIds_def sortPatchDescriptors_def js_sort_def in_phase_def)

lemma sample_lists:
  "listOfficialAssetEntries sample_capability MAIN_BUILD_COMPONENTS s = (Inr [''main.js''], s)"
  "listOfficialAssetEntries sample_capability WEBVIEW_ASSET_COMPONENTS s = (Inr [], s)"
  by (simp_all add: listOfficialAssetEntries_def sample_fields tbind_def tpure_def lift_unit
      officialAssetEntry_def validMetadata_def isRegularFileMetadata_def FILE_TYPE_MASK_def REGULAR_FILE_TYPE_def
      ascii_round_trip_def List.map_filter_def js_sort_def char_class_defs name_rest_char_def
      MAIN_BUILD_COMPONENTS_def WEBVIEW_ASSET_COMPONENTS_def)

lemma sample_main: "findMainBundleWithCapability sample_capability s =
    (Inr (Some \<lparr>assetName = ''main.js'', operationId = replicate 16 CHR ''0'', originalAssetBytes = ''x'', source = ''x''\<rparr>), s)"
  by (simp add: findMainBundleWithCapability_def tbind_def sample_lists MAIN_BUNDLE_NAME_PATTERN_def
      readUtf8AssetSource_def sample_fields lift_unit tlift_def tpure_def checked_read_def validMetadata_def
      isRegularFileMetadata_def FILE_TYPE_MASK_def REGULAR_FILE_TYPE_def decodeUtf8Source_def valid_utf8_def
      utf8_lead_def byte_between_def char_class_defs)

lemma sample_icon: "findIconAssetWithCapability sample_capability s = (Inr None, s)"
  by (simp add: findIconAssetWithCapability_def tbind_def sample_lists tpure_def)

text \<open>Tasks that return a given value whatever the state.\<close>

definition gives :: "('w, 'a) task \<Rightarrow> 'a \<Rightarrow> bool" where
  "gives m x \<longleftrightarrow> (\<forall>s. fst (m s) = Inr x)"

lemma gives_bind: "gives m x \<Longrightarrow> gives (f x) y \<Longrightarrow> gives (tbind m f) y"
  by (auto simp: gives_def tbind_def split: prod.splits sum.splits) (metis fst_conv Inl_Inr_False sum.inject(2))+

lemma gives_parts:
  "gives (tpure x) x" "gives (set_report f) ()" "gives (setReportLinuxTarget l) ()" "gives (warn_unless b line) ()"
  "gives (createMainBundleContext opts icon support) ()" "gives (record_patch n st r meta) ()"
  "gives (findMainBundleWithCapability sample_capability)
     (Some \<lparr>assetName = ''main.js'', operationId = replicate 16 CHR ''0'', originalAssetBytes = ''x'', source = ''x''\<rparr>)"
  "gives (findIconAssetWithCapability sample_capability) None"
  "gives (derivesLinuxComputerUseSupport sample_contracts cap src) False"
  "gives (applyExtractedAppPatchDescriptors dir [] PHASE_EXTRACTED_APP_PRE_WEBVIEW) ()"
  "gives (applyExtractedAppPatchDescriptors dir [] PHASE_EXTRACTED_APP_POST_WEBVIEW) ()"
  "gives (applyWebviewAssetPatchDescriptors (Some cap) []) ()"
  "gives (applyMainBundlePatchDescriptors v [])
     \<lparr>patchedSource = v, warnings = [], coreWarnings = [], requiredCoreWarnings = []\<rparr>"
proof -
  show "gives (tpure x) x" by (simp add: gives_def tpure_def)
  show "gives (set_report f) ()" by (simp add: gives_def set_report_def)
  show "gives (setReportLinuxTarget l) ()" by (simp add: gives_def set_report_def setReportLinuxTarget_def)
  show "gives (warn_unless b line) ()" by (simp add: gives_def warn_unless_def console_warn_def tpure_def)
  show "gives (createMainBundleContext opts icon support) ()" by (simp add: gives_def createMainBundleContext_def)
  show "gives (record_patch n st r meta) ()" by (simp add: gives_def record_patch_def)
  show "gives (findMainBundleWithCapability sample_capability)
     (Some \<lparr>assetName = ''main.js'', operationId = replicate 16 CHR ''0'', originalAssetBytes = ''x'', source = ''x''\<rparr>)"
    by (simp only: gives_def sample_main fst_conv simp_thms)
  show "gives (findIconAssetWithCapability sample_capability) None" by (simp add: gives_def sample_icon)
  show "gives (derivesLinuxComputerUseSupport sample_contracts cap src) False"
    by (simp add: gives_def derivesLinuxComputerUseSupport_def sample_fields tpure_def)
  show "gives (applyExtractedAppPatchDescriptors dir [] PHASE_EXTRACTED_APP_PRE_WEBVIEW) ()"
    "gives (applyExtractedAppPatchDescriptors dir [] PHASE_EXTRACTED_APP_POST_WEBVIEW) ()"
    by (simp_all add: gives_def applyExtractedAppPatchDescriptors_def tpure_def)
  show "gives (applyWebviewAssetPatchDescriptors (Some cap) []) ()"
    by (simp add: gives_def applyWebviewAssetPatchDescriptors_def tpure_def)
  show "gives (applyMainBundlePatchDescriptors v [])
     \<lparr>patchedSource = v, warnings = [], coreWarnings = [], requiredCoreWarnings = []\<rparr>"
    by (simp add: gives_def applyMainBundlePatchDescriptors_def tpure_def)
qed

lemma gives_lift: "gives (tlift (Inr x)) x"
  by (simp add: tlift_def gives_parts)

lemma sample_main_returns:
  "gives (patch_main_bundle sample_options sample_capability
     \<lparr>assetName = ''main.js'', operationId = replicate 16 CHR ''0'', originalAssetBytes = ''x'', source = ''x''\<rparr>) ()"
proof -
  have "gives (replaceMainBundleWithCapability sample_capability (Some \<lparr>assetName = ''main.js'',
      operationId = replicate 16 CHR ''0'', originalAssetBytes = ''x'', source = ''x''\<rparr>) (Text ''x'')) False"
    by (simp add: replaceMainBundleWithCapability_def MAIN_BUNDLE_NAME_PATTERN_def gives_parts)
  thus ?thesis unfolding patch_main_bundle_def sample_descriptors
    by (intro gives_bind [OF gives_lift] gives_bind [OF gives_parts(13)] gives_bind [of "replaceMainBundleWithCapability _ _ _" False]
        gives_parts) simp
qed

lemma sample_run_returns:
  "gives (patchExtractedAppWithCapability sample_contracts ''d'' sample_options sample_capability) ()"
  unfolding patchExtractedAppWithCapability_def sample_descriptors sample_fields
  by (intro gives_bind [OF gives_lift] gives_bind [OF gives_parts(3)] gives_bind [OF gives_parts(2)]
      gives_bind [OF gives_parts(7)] gives_bind [OF gives_parts(8)] gives_bind [OF gives_parts(4)]
      gives_bind [OF gives_parts(5)] gives_bind [OF gives_parts(10)] gives_bind [OF gives_parts(12)] gives_parts(11)
      gives_bind [of _ False] gives_bind [of _ "()"])
    (simp_all add: gives_parts sample_main_returns)

lemmas run_eval = patchExtractedAppWithCapability_def tbind_def sample_descriptors tlift_def tpure_def
  setReportLinuxTarget_def set_report_def sample_main sample_icon warn_unless_def console_warn_def
  derivesLinuxComputerUseSupport_def sample_fields createMainBundleContext_def patch_main_bundle_def
  applyMainBundlePatchDescriptors_def replaceMainBundleWithCapability_def MAIN_BUNDLE_NAME_PATTERN_def
  record_patch_def applyExtractedAppPatchDescriptors_def applyWebviewAssetPatchDescriptors_def

lemma sample_run_sound:
  "criticalFailuresFromReport (rep (snd (patchExtractedAppWithCapability sample_contracts ''d'' sample_options
     sample_capability (s\<lparr>rep := Some (createPatchReport now)\<rparr>)))) = []"
  by (simp add: run_eval)
    (simp add: createPatchReport_def recordPatch_def critical_failures_of patchStatusFromChange_def make_entry_def
      failing_def success_status_def)

definition sample_surroundings :: "unit surroundings" where
  "sample_surroundings =
     \<lparr>su_now = ''now'',
      su_broker = (\<lambda>p v. \<lparr>broker_open = (\<lambda>w. (Inr (sample_capability, None), w)), broker_close = (\<lambda>w. (Inr (), w))\<rparr>),
      su_findings = (\<lambda>w. Inr []), su_write = (\<lambda>path r. True), su_receipt = (\<lambda>fd d. True)\<rparr>"

definition sample_command :: command_line where
  "sample_command = (command_defaults None)\<lparr>enforceCritical := True\<rparr>"

lemma sample_exit:
  "ce_exit (run_command sample_contracts ''d'' sample_options sample_surroundings sample_command (sample_state ())) = 0"
proof -
  define s where "s = (sample_state ())\<lparr>rep := Some (createPatchReport ''now'')\<rparr>"
  define t where "t = snd (patchExtractedAppWithCapability sample_contracts ''d'' sample_options sample_capability s)"
  have r: "patchExtractedAppWithCapability sample_contracts ''d'' sample_options sample_capability s = (Inr (), t)"
    using sample_run_returns unfolding gives_def t_def by (metis prod.collapse)
  have c: "criticalFailuresFromReport (rep t) = []" unfolding t_def s_def by (rule sample_run_sound)
  have p: "patchExtractedApp sample_contracts ''d'' sample_options
      (su_broker sample_surroundings None False) s = (Inr None, t)"
    by (simp add: patchExtractedApp_def sample_surroundings_def tbind_def lift_unit finally_do_def r tpure_def)
  have "patch_and_inspect sample_contracts ''d'' sample_options sample_surroundings sample_command s =
      (Inr None, t\<lparr>rep := map_option (\<lambda>r. r\<lparr>postPatchFindings := Some []\<rparr>) (rep t)\<rparr>)"
    using p
    by (simp add: patch_and_inspect_def tbind_def sample_command_def command_defaults_def sample_surroundings_def
        set_report_def tpure_def)
  moreover have "criticalFailuresFromReport (map_option (\<lambda>r. r\<lparr>postPatchFindings := Some []\<rparr>) (rep t)) = []"
    using c by (cases "rep t") (simp_all add: critical_failures_of criticalFailuresFromReport_def report_patches_def)
  ultimately show ?thesis
    by (simp add: run_command_def Let_def wants_report_def sample_command_def command_defaults_def
        sample_surroundings_def note_integrity_def report_written_def receipt_ok_def s_def [symmetric])
qed

section \<open>Properties\<close>





end
