(* ===== verification/Dmg_Acceptance.thy ===== *)
theory Dmg_Acceptance
  imports Patch_Runner
begin

text \<open>
  The acceptance of a new upstream disk image: \<open>scripts/lib/patch-validation.js\<close>,
  \<open>scripts/lib/upstream-dmg-acceptance.js\<close>, and the commands \<open>scripts/validate-upstream-dmg.js\<close> and
  \<open>scripts/ci/validate-patch-report.js\<close>. A patch report is judged against the patches that are
  required; what is found becomes blockers, warnings or reasons why nothing can be said, and
  these the verdict. The files that are read, what \<open>JSON.parse\<close> makes of them, the digests and the clock are
  parameters. An error met while reading is its message.
\<close>

section \<open>Validating a patch report\<close>

definition uniqueStrings :: "string option list \<Rightarrow> string list" where
  "uniqueStrings values = uniq (filter (\<lambda>v. v \<noteq> []) (List.map_filter (\<lambda>v. v) values))"

text \<open>\<open>None\<close> is a file that is read but holds no report.\<close>

definition readPatchReport :: "string \<Rightarrow> string + patch_report option \<Rightarrow> string + patch_report" where
  "readPatchReport reportPath content =
     (case content of
        Inl message \<Rightarrow> Inl message
      | Inr None \<Rightarrow> Inl (''Invalid patch report: '' @ reportPath)
      | Inr (Some r) \<Rightarrow> Inr r)"

record requirements =
  requiredAppliedPatches :: "string option list"
  requiredEnabledIntegrations :: "string option list"
  requiredSuccessfulPatches :: "string option list"

definition no_requirements :: requirements where
  "no_requirements = \<lparr>requiredAppliedPatches = [], requiredEnabledIntegrations = [], requiredSuccessfulPatches = []\<rparr>"

definition with_reason :: "string option \<Rightarrow> string" where
  "with_reason reason = (case reason of Some (c # cs) \<Rightarrow> '' ('' @ (c # cs) @ '')'' | _ \<Rightarrow> [])"

definition patches_by_name :: "patch_report \<Rightarrow> (string, entry) jsmap" where
  "patches_by_name r = map_new (map (\<lambda>e. (entry_name e, e)) (patches r))"

definition missing_failure :: "string \<Rightarrow> string" where
  "missing_failure name = name @ '': missing from patch report''"

definition status_failure :: "string \<Rightarrow> string \<Rightarrow> string option \<Rightarrow> string" where
  "status_failure name status reason = name @ '': '' @ status @ with_reason reason"

definition success_failure :: "patch_report \<Rightarrow> string \<Rightarrow> string list" where
  "success_failure r name =
     (case map_get (patches_by_name r) name of
        None \<Rightarrow> [missing_failure name]
      | Some e \<Rightarrow> if success_status (entry_status e) then [] else [status_failure name (entry_status e) (entry_reason e)])"

definition applied_failure :: "patch_report \<Rightarrow> string \<Rightarrow> string list" where
  "applied_failure r name =
     (case map_get (patches_by_name r) name of
        None \<Rightarrow> [missing_failure name]
      | Some e \<Rightarrow> if entry_status e = PATCH_STATUS_APPLIED then []
                  else [name @ '': expected applied, got '' @ entry_status e @ with_reason (entry_reason e)])"

definition integration_failure :: "patch_report \<Rightarrow> string \<Rightarrow> string list" where
  "integration_failure r i =
     (if i \<in> set (enabled_set (Some r)) then []
      else [''integration '' @ i @ '': not enabled in patch report''])"

text \<open>\<open>requiredNames\<close> is what \<open>requiredPatchNamesForProfile\<close> returns for the profile.\<close>

definition validatePatchReport :: "patch_report \<Rightarrow> string list \<Rightarrow> requirements \<Rightarrow> string list" where
  "validatePatchReport r requiredNames q =
     uniq (map missing_failure (filter (\<lambda>name. map_get (patches_by_name r) name = None) requiredNames) @
           map (\<lambda>f. status_failure (f_name f) (f_status f) (f_reason f)) (criticalFailuresFromReport (Some r)) @
           concat (map (integration_failure r) (uniqueStrings (requiredEnabledIntegrations q))) @
           concat (map (success_failure r) (uniqueStrings (requiredSuccessfulPatches q))) @
           concat (map (applied_failure r) (uniqueStrings (requiredAppliedPatches q))))"

section \<open>Blockers and warnings\<close>

record blocker =
  b_code :: string
  b_check :: string
  b_name :: string
  b_status :: string
  b_reason :: string

record drift_warning =
  w_name :: string
  w_status :: string
  w_reason :: "string option"

definition finding_blocker :: "string option \<times> string option \<times> string option \<Rightarrow> blocker" where
  "finding_blocker f =
     (case f of (symbol, path, reason) \<Rightarrow>
        \<lparr>b_code = ''post-patch-integrity'', b_check = ''core'',
         b_name = (case symbol of Some s \<Rightarrow> s | None \<Rightarrow> (case path of Some p \<Rightarrow> p | None \<Rightarrow> ''post-patch integrity'')),
         b_status = ''failed'',
         b_reason = (case reason of Some r \<Rightarrow> r | None \<Rightarrow> ''Post-patch integrity check failed'')\<rparr>)"

definition integrityFailures :: "patch_report \<Rightarrow> blocker list" where
  "integrityFailures r =
     (case mutationIntegrity r of
        Some (status, reason) \<Rightarrow>
          if status = ''failed''
          then [\<lparr>b_code = ''generated-app-mutation-integrity'', b_check = ''core'', b_name = ''generated-app mutation'',
                 b_status = ''failed'', b_reason = reason\<rparr>]
          else []
      | None \<Rightarrow> []) @
     (case postPatchFindings r of None \<Rightarrow> [] | Some fs \<Rightarrow> map finding_blocker fs)"

text \<open>The text before the first colon followed by a space.\<close>

fun before_separator :: "string \<Rightarrow> string" where
  "before_separator [] = []"
| "before_separator (c # cs) = (if starts_with '': '' (c # cs) then [] else c # before_separator cs)"

definition validationBlockers :: "string \<Rightarrow> string list \<Rightarrow> blocker list" where
  "validationBlockers check failures =
     map (\<lambda>f. \<lparr>b_code = ''required-patch'', b_check = check, b_name = before_separator f, b_status = ''failed'', b_reason = f\<rparr>)
       failures"

definition driftWarnings :: "patch_report \<Rightarrow> string list \<Rightarrow> drift_warning list" where
  "driftWarnings r excludedNames =
     map (\<lambda>f. \<lparr>w_name = f_name f, w_status = f_status f, w_reason = f_reason f\<rparr>)
       (filter (\<lambda>f. f_name f \<notin> set excludedNames) (optionalDriftFromReport (Some r)))"

definition integration_blocker :: "failure \<times> mval option \<Rightarrow> blocker" where
  "integration_blocker fi =
     (let i = (case snd fi of Some v \<Rightarrow> mval_str v | None \<Rightarrow> ''undefined'') in
      \<lparr>b_code = ''enabled-integration-drift'', b_check = ''integration:'' @ i, b_name = f_name (fst fi),
       b_status = f_status (fst fi),
       b_reason = (case f_reason (fst fi) of Some r \<Rightarrow> r
                   | None \<Rightarrow> ''Enabled integration '' @ i @ '' did not apply cleanly'')\<rparr>)"

section \<open>The identity of the image\<close>

record dmg_metadata =
  md_path :: "string option"
  md_url :: "string option"
  md_sha256 :: "string option"
  md_sizeBytes :: "string option"
  md_appVersion :: "string option"
  md_etag :: "string option"
  md_lastModified :: "string option"
  md_contentLength :: "string option"

record http_identity =
  hi_etag :: "string option"
  hi_lastModified :: "string option"
  hi_contentLength :: "string option"
  hi_key :: string

text \<open>The fields with two spellings hold the one that is given.\<close>

definition known :: "string option \<Rightarrow> string option" where
  "known v = (if v \<in> {Some [], Some ''unknown'', Some ''no-etag''} then None else v)"

definition httpIdentity :: "(string \<Rightarrow> string) \<Rightarrow> dmg_metadata option \<Rightarrow> http_identity option" where
  "httpIdentity sha metadata =
     (case metadata of
        None \<Rightarrow> None
      | Some m \<Rightarrow>
          (let etag = known (md_etag m); modified = known (md_lastModified m); len = known (md_contentLength m)
           in if etag = None \<and> (modified = None \<or> len = None) then None
              else Some \<lparr>hi_etag = etag, hi_lastModified = modified, hi_contentLength = len,
                         hi_key = sha (orEmpty modified @ ''|'' @ orEmpty etag @ ''|'' @ orEmpty len)\<rparr>))"

record official_dmg =
  od_sha256 :: "string option"
  od_sizeBytes :: "string option"
  od_appVersion :: "string option"

record dmg_info =
  dmg_path :: "string option"
  dmg_url :: "string option"
  dmg_sha256 :: "string option"
  dmg_sizeBytes :: "string option"
  dmg_appVersion :: "string option"
  dmg_httpIdentity :: "http_identity option"

definition or_opt :: "'a option \<Rightarrow> 'a option \<Rightarrow> 'a option" where
  "or_opt a b = (case a of None \<Rightarrow> b | Some x \<Rightarrow> Some x)"

text \<open>\<open>dmgFile\<close> is the resolved path of the image and, where the file is there, its digest and size.\<close>

definition buildDmgInfo ::
  "(string \<Rightarrow> string) \<Rightarrow> (string \<times> (string \<times> string) option) option \<Rightarrow> dmg_metadata option \<Rightarrow> official_dmg option
     \<Rightarrow> dmg_info" where
  "buildDmgInfo sha dmgFile metadata officialDmg =
     (let file = Option.bind dmgFile snd in
      \<lparr>dmg_path = or_opt (map_option fst dmgFile) (Option.bind metadata md_path),
       dmg_url = Option.bind metadata md_url,
       dmg_sha256 = (case file of Some (d, n) \<Rightarrow> Some d
                     | None \<Rightarrow> or_opt (Option.bind metadata md_sha256) (Option.bind officialDmg od_sha256)),
       dmg_sizeBytes = (case file of Some (d, n) \<Rightarrow> Some n
                        | None \<Rightarrow> or_opt (Option.bind metadata md_sizeBytes) (Option.bind officialDmg od_sizeBytes)),
       dmg_appVersion = or_opt (Option.bind officialDmg od_appVersion) (Option.bind metadata md_appVersion),
       dmg_httpIdentity = httpIdentity sha metadata\<rparr>)"

section \<open>The decision\<close>

record release_profile =
  profile_id :: string
  corePatchProfile :: string
  rejectEnabledIntegrationDrift :: bool

definition UPSTREAM_DMG_RELEASE_PROFILE :: release_profile where
  "UPSTREAM_DMG_RELEASE_PROFILE =
     \<lparr>profile_id = ''upstream-release'', corePatchProfile = ''upstream-build'', rejectEnabledIntegrationDrift = True\<rparr>"

record build_info =
  bi_officialDmg :: "official_dmg option"
  bi_source :: "string option"

text \<open>The input: the JSON files as they are read (\<open>None\<close> where there is none), the report file with its
  path and, where it exists, its content; the names that are required for a profile; the source that
  git knows, where it knows the commit.\<close>

record acceptance_input =
  ai_profile :: release_profile
  ai_metadata :: "string + dmg_metadata option"
  ai_buildInfo :: "string + build_info option"
  ai_report :: "(string \<times> (string + patch_report option) option) option"
  ai_buildStatus :: "string option"
  ai_dmgFile :: "(string \<times> (string \<times> string) option) option"
  ai_required :: "string \<Rightarrow> thrown + string list"
  ai_discoveredSource :: "string option"
  ai_runId :: "string option"
  ai_runAttempt :: "string option"
  ai_runUrl :: "string option"
  ai_source :: "string option"
  ai_sha :: "string \<Rightarrow> string"

datatype verdict = Rejected | Inconclusive | Accepted_With_Warnings | Accepted

record decision =
  de_profile :: string
  de_verdict :: verdict
  de_dmg :: dmg_info
  de_source :: "string option"
  de_buildStatus :: string
  de_reportCompleted :: bool
  de_enabledIntegrations :: "string list"
  de_blockers :: "blocker list"
  de_warnings :: "(string \<times> drift_warning) list"
  de_inconclusiveReasons :: "string list"
  de_runId :: "string option"
  de_runAttempt :: "string option"
  de_runUrl :: "string option"
  de_runSource :: string

definition readReportResult :: "(string \<times> (string + patch_report option) option) option \<Rightarrow> string + patch_report" where
  "readReportResult file =
     (case file of
        None \<Rightarrow> Inl ''report path not provided''
      | Some (path, None) \<Rightarrow> Inl (''missing report: '' @ path)
      | Some (path, Some content) \<Rightarrow> readPatchReport path content)"

definition loaded_value :: "string + 'a option \<Rightarrow> 'a option" where
  "loaded_value r = (case r of Inl e \<Rightarrow> None | Inr v \<Rightarrow> v)"

definition input_errors :: "acceptance_input \<Rightarrow> string list" where
  "input_errors i =
     (case ai_metadata i of Inl m \<Rightarrow> [''invalid DMG metadata: '' @ m] | Inr v \<Rightarrow> []) @
     (case ai_buildInfo i of Inl m \<Rightarrow> [''invalid build metadata: '' @ m] | Inr v \<Rightarrow> [])"

definition enabled_failures :: "release_profile \<Rightarrow> patch_report \<Rightarrow> (failure \<times> mval option) list" where
  "enabled_failures profile r =
     (if rejectEnabledIntegrationDrift profile then enabledIntegrationFailuresFromReport (Some r) else [])"

definition report_blockers :: "release_profile \<Rightarrow> string list \<Rightarrow> patch_report \<Rightarrow> blocker list" where
  "report_blockers profile requiredNames r =
     validationBlockers ''core'' (validatePatchReport r requiredNames no_requirements) @ integrityFailures r @
     map integration_blocker (enabled_failures profile r)"

definition report_warnings :: "release_profile \<Rightarrow> patch_report \<Rightarrow> (string \<times> drift_warning) list" where
  "report_warnings profile r =
     map (Pair ''core'') (driftWarnings r (map (f_name \<circ> fst) (enabled_failures profile r)))"

definition acceptance_dmg :: "acceptance_input \<Rightarrow> dmg_info" where
  "acceptance_dmg i =
     buildDmgInfo (ai_sha i) (ai_dmgFile i) (loaded_value (ai_metadata i))
       (Option.bind (loaded_value (ai_buildInfo i)) bi_officialDmg)"

definition fingerprint_known :: "dmg_info \<Rightarrow> bool" where
  "fingerprint_known d = (dmg_sha256 d \<notin> {None, Some []})"

definition inconclusive_reasons :: "acceptance_input \<Rightarrow> string list" where
  "inconclusive_reasons i =
     input_errors i @
     (case readReportResult (ai_report i) of Inl e \<Rightarrow> [e] | Inr r \<Rightarrow> []) @
     (if ai_buildStatus i = Some ''success'' then []
      else [''candidate build status: '' @ (case ai_buildStatus i of Some s \<Rightarrow> s | None \<Rightarrow> ''unknown'')]) @
     (if fingerprint_known (acceptance_dmg i) then [] else [''DMG fingerprint is unavailable''])"

definition verdict_of :: "'a list \<Rightarrow> 'b list \<Rightarrow> 'c list \<Rightarrow> verdict" where
  "verdict_of blockers reasons warns =
     (if blockers \<noteq> [] then Rejected else if reasons \<noteq> [] then Inconclusive
      else if warns \<noteq> [] then Accepted_With_Warnings else Accepted)"

definition evaluateUpstreamDmg :: "acceptance_input \<Rightarrow> thrown + decision" where
  "evaluateUpstreamDmg i =
     (let profile = ai_profile i; core = readReportResult (ai_report i); reasons = inconclusive_reasons i in
      ebind (case core of
               Inl e \<Rightarrow> Inr ([], [])
             | Inr r \<Rightarrow> ebind (ai_required i (corePatchProfile profile)) (\<lambda>names.
                          Inr (report_blockers profile names r, report_warnings profile r)))
        (\<lambda>(blockers, warns).
          Inr \<lparr>de_profile = profile_id profile,
               de_verdict = verdict_of blockers reasons warns,
               de_dmg = acceptance_dmg i,
               de_source = or_opt (Option.bind (loaded_value (ai_buildInfo i)) bi_source) (ai_discoveredSource i),
               de_buildStatus = (case ai_buildStatus i of Some s \<Rightarrow> s | None \<Rightarrow> ''unknown''),
               de_reportCompleted = (\<not> isl core),
               de_enabledIntegrations = (case core of Inl e \<Rightarrow> [] | Inr r \<Rightarrow> enabled_set (Some r)),
               de_blockers = blockers, de_warnings = warns,
               de_inconclusiveReasons = uniq (filter (\<lambda>x. x \<noteq> []) reasons),
               de_runId = ai_runId i, de_runAttempt = ai_runAttempt i, de_runUrl = ai_runUrl i,
               de_runSource = (case ai_source i of Some s \<Rightarrow> s | None \<Rightarrow> ''local'')\<rparr>))"

section \<open>The commands\<close>

fun verdict_text :: "verdict \<Rightarrow> string" where
  "verdict_text Rejected = ''rejected''"
| "verdict_text Inconclusive = ''inconclusive''"
| "verdict_text Accepted_With_Warnings = ''accepted_with_warnings''"
| "verdict_text Accepted = ''accepted''"

definition code_span :: "string \<Rightarrow> string" where
  "code_span s = ''`'' @ s @ ''`''"

definition decisionMarkdown :: "decision \<Rightarrow> string" where
  "decisionMarkdown d =
     join [CHR 0x0A]
       ([''## Upstream DMG acceptance'', [],
         ''- Verdict: '' @ code_span (verdict_text (de_verdict d)),
         ''- Profile: '' @ code_span (de_profile d),
         ''- DMG SHA-256: '' @ code_span (case dmg_sha256 (de_dmg d) of Some x \<Rightarrow> x | None \<Rightarrow> ''unknown''),
         ''- App version: '' @ code_span (case dmg_appVersion (de_dmg d) of Some x \<Rightarrow> x | None \<Rightarrow> ''unknown''),
         ''- Required blockers: '' @ code_span (nat_str (length (de_blockers d))),
         ''- Optional warnings: '' @ code_span (nat_str (length (de_warnings d)))] @
        (if de_blockers d = [] then []
         else [[], ''### Blockers''] @ map (\<lambda>b. ''- '' @ b_check b @ '': '' @ b_reason b) (de_blockers d)) @
        (if de_warnings d = [] then []
         else [[], ''### Optional drift''] @
              map (\<lambda>(check, w). ''- '' @ check @ '': '' @ w_name w @ '' ('' @ w_status w @ '')'') (de_warnings d)) @
        (if de_inconclusiveReasons d = [] then []
         else [[], ''### Inconclusive reasons''] @ map (\<lambda>r. ''- '' @ r) (de_inconclusiveReasons d))) @ [CHR 0x0A]"

text \<open>The options of \<open>validate-upstream-dmg.js\<close>: every one of \<open>DMG_VALUE_OPTIONS\<close> takes a value.\<close>

definition DMG_VALUE_OPTIONS :: "(string \<times> string) list" where
  "DMG_VALUE_OPTIONS =
     [(''--dmg'', ''dmgPath''), (''--core-report'', ''coreReportPath''), (''--build-info'', ''buildInfoPath''),
      (''--metadata'', ''metadataPath''), (''--build-status'', ''buildStatus''), (''--output'', ''outputPath''),
      (''--summary'', ''summaryPath''), (''--source'', ''source''), (''--run-id'', ''runId''),
      (''--run-attempt'', ''runAttempt''), (''--run-url'', ''runUrl''), (''--repo-root'', ''repoRoot'')]"

record dmg_arguments =
  da_values :: "(string, string) jsmap"
  da_enforce :: bool
  da_help :: bool

datatype argument_error = Requires_Value string | Unknown_Option string | Show_Usage

fun parse_dmg_arguments :: "string list \<Rightarrow> dmg_arguments \<Rightarrow> argument_error + dmg_arguments" where
  "parse_dmg_arguments [] a = Inr a"
| "parse_dmg_arguments (arg # rest) a =
     (if arg = ''--enforce'' then parse_dmg_arguments rest (a\<lparr>da_enforce := True\<rparr>)
      else if arg = ''--help'' \<or> arg = ''-h'' then parse_dmg_arguments rest (a\<lparr>da_help := True\<rparr>)
      else (case map_of DMG_VALUE_OPTIONS arg of
              None \<Rightarrow> Inl (Unknown_Option arg)
            | Some key \<Rightarrow>
                (case rest of
                   (c # cs) # rest' \<Rightarrow> parse_dmg_arguments rest' (a\<lparr>da_values := map_set key (c # cs) (da_values a)\<rparr>)
                 | _ \<Rightarrow> Inl (Requires_Value arg))))"

definition dmg_defaults :: dmg_arguments where
  "dmg_defaults = \<lparr>da_values = [(''buildStatus'', ''unknown''), (''source'', ''local'')], da_enforce = False, da_help = False\<rparr>"

definition decision_exit :: "bool \<Rightarrow> decision \<Rightarrow> nat" where
  "decision_exit enforce d =
     (if enforce \<and> de_verdict d = Rejected then 2 else if enforce \<and> de_verdict d = Inconclusive then 3 else 0)"

text \<open>The exit code, with the decision that was written; \<open>input\<close> reads the files the arguments name.\<close>

definition validate_dmg_main ::
  "((string, string) jsmap \<Rightarrow> acceptance_input) \<Rightarrow> string list \<Rightarrow> nat \<times> decision option" where
  "validate_dmg_main read_input argv =
     (case parse_dmg_arguments argv dmg_defaults of
        Inl e \<Rightarrow> (1, None)
      | Inr a \<Rightarrow>
          if da_help a then (0, None)
          else if map_get (da_values a) ''dmgPath'' = None \<or> map_get (da_values a) ''coreReportPath'' = None \<or>
                  map_get (da_values a) ''outputPath'' = None then (1, None)
          else (case evaluateUpstreamDmg (read_input (da_values a)) of
                  Inl e \<Rightarrow> (1, None)
                | Inr d \<Rightarrow> (decision_exit (da_enforce a) d, Some d)))"

text \<open>\<open>ci/validate-patch-report.js\<close>.\<close>

record report_arguments =
  ra_profile :: string
  ra_integrations :: "string list"
  ra_applied :: "string list"
  ra_successful :: "string list"
  ra_positional :: "string list"

datatype report_stop = Bad_Usage | Bad_Option string | Bad_Profile string | Print_Help

fun parse_report_arguments :: "string list \<Rightarrow> report_arguments \<Rightarrow> report_stop + report_arguments" where
  "parse_report_arguments [] a = Inr a"
| "parse_report_arguments (arg # rest) a =
     (if arg = ''--profile'' then
        (case rest of (c # cs) # rest' \<Rightarrow> parse_report_arguments rest' (a\<lparr>ra_profile := c # cs\<rparr>) | _ \<Rightarrow> Inl Bad_Usage)
      else if arg = ''--require-enabled-integration'' then
        (case rest of (c # cs) # rest' \<Rightarrow>
           parse_report_arguments rest' (a\<lparr>ra_integrations := ra_integrations a @ [c # cs]\<rparr>) | _ \<Rightarrow> Inl Bad_Usage)
      else if arg = ''--require-success'' then
        (case rest of (c # cs) # rest' \<Rightarrow>
           parse_report_arguments rest' (a\<lparr>ra_successful := ra_successful a @ [c # cs]\<rparr>) | _ \<Rightarrow> Inl Bad_Usage)
      else if arg = ''--require-applied'' then
        (case rest of (c # cs) # rest' \<Rightarrow>
           parse_report_arguments rest' (a\<lparr>ra_applied := ra_applied a @ [c # cs]\<rparr>) | _ \<Rightarrow> Inl Bad_Usage)
      else if arg = ''--help'' \<or> arg = ''-h'' then Inl Print_Help
      else if starts_with ''--'' arg then Inl (Bad_Option arg)
      else parse_report_arguments rest (a\<lparr>ra_positional := ra_positional a @ [arg]\<rparr>))"

definition report_defaults :: report_arguments where
  "report_defaults = \<lparr>ra_profile = ''official-dmg-build'', ra_integrations = [], ra_applied = [], ra_successful = [],
     ra_positional = []\<rparr>"

definition normalizeProfile :: "string \<Rightarrow> report_stop + string" where
  "normalizeProfile profile =
     (let p = (if profile = ''upstream-build'' then ''official-dmg-build'' else profile) in
      if p = ''official-dmg-build'' then Inr p else Inl (Bad_Profile profile))"

definition validateReport :: "(string \<Rightarrow> string list) \<Rightarrow> patch_report \<Rightarrow> string \<Rightarrow> requirements \<Rightarrow> report_stop + string list" where
  "validateReport required_names r profile q =
     ebind (normalizeProfile profile) (\<lambda>p. Inr (validatePatchReport r (required_names p) q))"

text \<open>The exit code of the command; \<open>reading\<close> gives the report at a path.\<close>

definition validate_report_main ::
  "(string \<Rightarrow> string list) \<Rightarrow> (string \<Rightarrow> string + patch_report) \<Rightarrow> string list \<Rightarrow> nat" where
  "validate_report_main required_names reading argv =
     (case parse_report_arguments argv report_defaults of
        Inl Print_Help \<Rightarrow> 0
      | Inl e \<Rightarrow> 1
      | Inr a \<Rightarrow>
          (case ra_positional a of
             [path] \<Rightarrow>
               (case reading path of
                  Inl e \<Rightarrow> 1
                | Inr r \<Rightarrow>
                    (case validateReport required_names r (ra_profile a)
                            \<lparr>requiredAppliedPatches = map Some (uniq (ra_applied a)),
                             requiredEnabledIntegrations = map Some (uniq (ra_integrations a)),
                             requiredSuccessfulPatches = map Some (uniq (ra_successful a))\<rparr> of
                       Inr [] \<Rightarrow> 0
                     | _ \<Rightarrow> 1))
           | _ \<Rightarrow> 1))"

section \<open>Lemmas\<close>

lemma uniq_Nil_iff [simp]: "uniq xs = [] \<longleftrightarrow> xs = []"
  by (metis set_empty set_uniq)

lemma patches_by_name_None: "map_get (patches_by_name r) n = None \<longleftrightarrow> n \<notin> entry_name ` set (patches r)"
  by (simp add: patches_by_name_def map_get_new_None image_image)

text \<open>Without further requirements, what fails is what is missing and what is critical.\<close>

lemma validate_nothing_more:
  "validatePatchReport r names no_requirements =
     uniq (map missing_failure (filter (\<lambda>n. n \<notin> entry_name ` set (patches r)) names) @
           map (\<lambda>f. status_failure (f_name f) (f_status f) (f_reason f)) (criticalFailuresFromReport (Some r)))"
  by (simp add: validatePatchReport_def no_requirements_def uniqueStrings_def List.map_filter_def patches_by_name_None uniq_def)

lemma validate_empty_iff:
  "validatePatchReport r names no_requirements = [] \<longleftrightarrow>
     set names \<subseteq> entry_name ` set (patches r) \<and> criticalFailuresFromReport (Some r) = []"
  by (auto simp: validate_nothing_more filter_empty_conv)

text \<open>An entry of an enabled integration.\<close>

definition of_enabled_integration :: "patch_report \<Rightarrow> entry \<Rightarrow> bool" where
  "of_enabled_integration r e \<longleftrightarrow> integration_kind e \<and>
     (case entry_integration e of Some (MStr i) \<Rightarrow> i \<in> set (enabled_set (Some r)) | _ \<Rightarrow> False)"

definition sound_report :: "release_profile \<Rightarrow> string list \<Rightarrow> patch_report \<Rightarrow> bool" where
  "sound_report profile names r \<longleftrightarrow>
     set names \<subseteq> entry_name ` set (patches r) \<and>
     list_all (\<lambda>e. failing e \<longrightarrow> \<not> critical_entry e \<and>
       \<not> (rejectEnabledIntegrationDrift profile \<and> of_enabled_integration r e)) (patches r) \<and>
     (\<nexists>reason. mutationIntegrity r = Some (''failed'', reason)) \<and> postPatchFindings r \<in> {None, Some []}"

lemma integrityFailures_Nil:
  "integrityFailures r = [] \<longleftrightarrow> (\<nexists>reason. mutationIntegrity r = Some (''failed'', reason)) \<and> postPatchFindings r \<in> {None, Some []}"
  by (auto simp: integrityFailures_def split: option.split)

lemma enabled_failures_Nil:
  "enabled_failures profile r = [] \<longleftrightarrow>
     list_all (\<lambda>e. failing e \<longrightarrow> \<not> (rejectEnabledIntegrationDrift profile \<and> of_enabled_integration r e)) (patches r)"
  by (auto simp: enabled_failures_def enabledIntegrationFailuresFromReport_def report_patches_def filter_empty_conv
      list_all_iff of_enabled_integration_def)

lemma report_blockers_Nil: "report_blockers profile names r = [] \<longleftrightarrow> sound_report profile names r"
  by (auto simp: report_blockers_def validationBlockers_def validate_empty_iff integrityFailures_Nil enabled_failures_Nil
      sound_report_def critical_failures_of list_all_iff)

lemma report_warnings_Nil:
  assumes "enabled_failures profile r = []"
  shows "report_warnings profile r = [] \<longleftrightarrow> list_all (\<lambda>e. failing e \<longrightarrow> critical_entry e) (patches r)"
  using assms
  by (auto simp: report_warnings_def driftWarnings_def optionalDriftFromReport_def report_patches_def filter_empty_conv list_all_iff)

text \<open>The parts of a decision.\<close>

lemma decision_parts:
  assumes "evaluateUpstreamDmg i = Inr d"
  shows "case readReportResult (ai_report i) of
     Inl e \<Rightarrow> de_blockers d = [] \<and> de_verdict d = Inconclusive
   | Inr r \<Rightarrow> \<exists>names. ai_required i (corePatchProfile (ai_profile i)) = Inr names \<and>
       de_blockers d = report_blockers (ai_profile i) names r \<and> de_warnings d = report_warnings (ai_profile i) r \<and>
       de_verdict d = verdict_of (de_blockers d) (inconclusive_reasons i) (de_warnings d)"
  using assms
  by (cases "readReportResult (ai_report i)")
    (auto simp: evaluateUpstreamDmg_def Let_def ebind_eq_Inr verdict_of_def inconclusive_reasons_def)

lemma no_reasons:
  "inconclusive_reasons i = [] \<longleftrightarrow>
     input_errors i = [] \<and> \<not> isl (readReportResult (ai_report i)) \<and> ai_buildStatus i = Some ''success'' \<and>
     fingerprint_known (acceptance_dmg i)"
  by (auto simp: inconclusive_reasons_def split: sum.splits)

section \<open>The build and the acceptance\<close>

lemma normalize_normal_keeps:
  assumes "normalizeDescriptor (Some d) p n = Inr d'" and "normal_descriptor d"
  shows "d_id d' = d_id d \<and> d_phase d' = d_phase d"
proof -
  have "d_id d' = descriptorId d" using normalizeDescriptor_id [OF assms(1)] .
  moreover have "descriptorId d = d_id d" "nullish (d_phase d) = d_phase d"
    using assms(2) by (auto simp: normal_descriptor_def descriptorId_def coalesce_def PATCH_PHASES_def)
  ultimately show ?thesis using assms
    by (auto simp: normalizeDescriptor_def Let_def normal_descriptor_def
        split: option.splits mval.splits list.splits slot.splits if_splits)
qed

lemma normalized_members:
  assumes "normalizePatchDescriptors ds = Inr ns" and "d \<in> set ds" and "normal_descriptor d"
  shows "\<exists>d'\<in>set ns. d_id d' = d_id d \<and> d_phase d' = d_phase d"
proof -
  obtain ms where m: "emap (\<lambda>(index, d). normalizeDescriptor (Some d) (d_sourcePath d) index) (enumerate 0 ds) = Inr ms"
    and n: "set ns = set ms"
    using assms(1) by (auto simp: normalizePatchDescriptors_def sortPatchDescriptors_def ebind_eq_Inr)
  have "d \<in> snd ` set (enumerate 0 ds)" using assms(2) by (metis list.set_map map_snd_enumerate)
  then obtain k where "(k, d) \<in> set (enumerate 0 ds)" by force
  from emap_set_dom [OF m this] obtain d' where "d' \<in> set ms" "normalizeDescriptor (Some d) (d_sourcePath d) k = Inr d'"
    by auto
  thus ?thesis using normalize_normal_keeps assms(3) n by metis
qed

lemma normalized_normal: "normalizePatchDescriptors ds = Inr ns \<Longrightarrow> d \<in> set ns \<Longrightarrow> normal_descriptor d"
proof -
  assume "normalizePatchDescriptors ds = Inr ns" "d \<in> set ns"
  then obtain ms where m: "emap (\<lambda>(index, d). normalizeDescriptor (Some d) (d_sourcePath d) index) (enumerate 0 ds) = Inr ms"
    and "d \<in> set ms"
    by (auto simp: normalizePatchDescriptors_def sortPatchDescriptors_def ebind_eq_Inr)
  from emap_set [OF m this(2)] show ?thesis using normalizeDescriptor_normal by auto
qed

lemma normalized_Inr: "normalized opts r = Inr ns \<longleftrightarrow> (\<exists>ds. r = Inr ds \<and> normalizePatchDescriptors ds = Inr ns)"
proof (cases r)
  case (Inr ds)
  thus ?thesis by (cases "normalizePatchDescriptors ds") (auto simp: normalized_def)
qed (simp add: normalized_def)

lemma entry_names: "list_all2 entry_for ds es \<Longrightarrow> d \<in> set ds \<Longrightarrow> id_text d \<in> entry_name ` set es"
  by (induction rule: list_all2_induct) (auto simp: entry_for_def)

text \<open>Every descriptor of the repository and of the enabled integrations has an entry.\<close>

lemma run_entries_members:
  assumes e: "run_entries opts True es" and c: "corePatchDescriptors opts = Inr cs" "featurePatchDescriptors opts = Inr fs"
    and d: "d \<in> set (cs @ fs)"
  shows "id_text d \<in> entry_name ` set es"
proof -
  have n: "normal_descriptor d"
    using d c normalized_normal by (fastforce simp: corePatchDescriptors_def featurePatchDescriptors_def normalized_Inr)
  obtain ds ns mes ui oes where es: "es = mes @ [ui] @ oes" and ds: "normalizePatchDescriptors (cs @ fs) = Inr ds"
    and ns: "normalizePatchDescriptors (in_phase PHASE_MAIN_BUNDLE cs @ in_phase PHASE_MAIN_BUNDLE fs) = Inr ns"
    and m: "list_all2 entry_for (in_phase PHASE_MAIN_BUNDLE ns) mes"
    and o': "list_all2 entry_for (in_phase PHASE_EXTRACTED_APP_PRE_WEBVIEW ds @ in_phase PHASE_WEBVIEW_ASSET ds @
          in_phase PHASE_EXTRACTED_APP_POST_WEBVIEW ds) oes"
    using e c by (auto simp: run_entries_def allPatchDescriptors_def mainBundlePatchDescriptors_def normalized_Inr)
  show ?thesis
  proof (cases "d_phase d = Some PHASE_MAIN_BUNDLE")
    case True
    hence "d \<in> set (in_phase PHASE_MAIN_BUNDLE cs @ in_phase PHASE_MAIN_BUNDLE fs)" using d by (auto simp: in_phase_def)
    from normalized_members [OF ns this n] True obtain d' where "d' \<in> set (in_phase PHASE_MAIN_BUNDLE ns)" "id_text d' = id_text d"
      by (auto simp: in_phase_def id_text_def)
    thus ?thesis using entry_names [OF m] es by force
  next
    case False
    obtain d' where d': "d' \<in> set ds" "id_text d' = id_text d" "d_phase d' = d_phase d"
      using normalized_members [OF ds d n] by (auto simp: id_text_def)
    have "d_phase d \<in> Some ` set PATCH_PHASES" using n by (auto simp: normal_descriptor_def)
    hence "d' \<in> set (in_phase PHASE_EXTRACTED_APP_PRE_WEBVIEW ds @ in_phase PHASE_WEBVIEW_ASSET ds @
          in_phase PHASE_EXTRACTED_APP_POST_WEBVIEW ds)"
      using False d' by (auto simp: in_phase_def PATCH_PHASES_def)
    thus ?thesis using entry_names [OF o'] es d'(2) by force
  qed
qed

text \<open>Each required descriptor is known in the policies by its id.\<close>

definition named_by_id :: "'w run_options \<Rightarrow> 'w \<Rightarrow> bool" where
  "named_by_id opts w =
     (let ok = list_all (\<lambda>d. required_policy (policy_context opts w) d \<longrightarrow> policy_text d = id_text d) in
      (case corePatchDescriptors opts of Inr cs \<Rightarrow> ok cs | Inl e \<Rightarrow> True) \<and>
      (case featurePatchDescriptors opts of Inr fs \<Rightarrow> ok fs | Inl e \<Rightarrow> True))"

lemma required_names_present:
  assumes e: "run_entries opts True es" and q: "requiredPatchNamesForProfile profile opts w = Inr names"
    and own: "named_by_id opts w"
  shows "set names \<subseteq> entry_name ` set es"
proof (cases "profile \<noteq> ''official-dmg-build'' \<and> profile \<noteq> ''upstream-build''")
  case True
  thus ?thesis using q by (auto simp: requiredPatchNamesForProfile_def)
next
  case False
  then obtain cs fs where c: "corePatchDescriptors opts = Inr cs" "featurePatchDescriptors opts = Inr fs"
    and n: "names = map policy_text (filter (required_policy (policy_context opts w)) (cs @ fs)) @ [MAIN_PROCESS_UI]"
    using q by (auto simp: requiredPatchNamesForProfile_def ebind_eq_Inr)
  have "MAIN_PROCESS_UI \<in> entry_name ` set es" using e by (auto simp: run_entries_def ui_entry_def)
  moreover have "policy_text d \<in> entry_name ` set es" if "d \<in> set (cs @ fs)" "required_policy (policy_context opts w) d" for d
    using run_entries_members [OF e c that(1)] own that c by (auto simp: named_by_id_def list_all_iff)
  ultimately show ?thesis by (auto simp: n)
qed

section \<open>An example\<close>

text \<open>A candidate with one optional patch that drifted.\<close>

definition sample_report :: patch_report where
  "sample_report = (createPatchReport ''now'')\<lparr>patches :=
     [make_entry MAIN_PROCESS_UI PATCH_STATUS_APPLIED None None,
      make_entry ''p'' PATCH_STATUS_SKIPPED_OPTIONAL (Some ''drift'') None]\<rparr>"

definition sample_input :: acceptance_input where
  "sample_input =
     \<lparr>ai_profile = UPSTREAM_DMG_RELEASE_PROFILE, ai_metadata = Inr None, ai_buildInfo = Inr None,
      ai_report = Some (''r.json'', Some (Inr (Some sample_report))), ai_buildStatus = Some ''success'',
      ai_dmgFile = Some (''/d.dmg'', Some (''ab'', ''1'')), ai_required = (\<lambda>p. Inr [MAIN_PROCESS_UI]),
      ai_discoveredSource = None, ai_runId = None, ai_runAttempt = None, ai_runUrl = None, ai_source = None,
      ai_sha = (\<lambda>s. s)\<rparr>"

lemma sample_input_read: "readReportResult (ai_report sample_input) = Inr sample_report"
  by (simp add: sample_input_def readReportResult_def readPatchReport_def)

lemma sample_decision: "\<exists>d. evaluateUpstreamDmg sample_input = Inr d"
  by (simp add: evaluateUpstreamDmg_def Let_def sample_input_read) (simp add: sample_input_def)

lemma sample_entry: "make_entry ''p'' PATCH_STATUS_SKIPPED_OPTIONAL (Some ''drift'') None \<in> set (patches sample_report)"
  "failing (make_entry ''p'' PATCH_STATUS_SKIPPED_OPTIONAL (Some ''drift'') None)"
  by (simp_all add: sample_report_def failing_def make_entry_def success_status_def not_applicable_status_def)

section \<open>Properties\<close>

text \<open>C19: an image is accepted, with or without warnings, exactly when its candidate was built, its input and fingerprint
  are there, and its report was read and is sound: every required patch has an entry, no critical patch and,
  under the release profile, none of an enabled integration failed, the broker kept its integrity, and the
  inspection after patching found nothing. It is accepted without warnings exactly when, besides, no patch failed
  at all.\<close>

theorem accepted_exactly:
  assumes "evaluateUpstreamDmg i = Inr d"
  shows "(de_verdict d \<in> {Accepted, Accepted_With_Warnings} \<longleftrightarrow>
      input_errors i = [] \<and> ai_buildStatus i = Some ''success'' \<and> fingerprint_known (acceptance_dmg i) \<and>
      (\<exists>r names. readReportResult (ai_report i) = Inr r \<and>
         ai_required i (corePatchProfile (ai_profile i)) = Inr names \<and> sound_report (ai_profile i) names r)) \<and>
    (de_verdict d = Accepted \<longleftrightarrow>
      de_verdict d \<in> {Accepted, Accepted_With_Warnings} \<and>
      (\<exists>r. readReportResult (ai_report i) = Inr r \<and> list_all (\<lambda>e. \<not> failing e) (patches r)))"
proof (cases "readReportResult (ai_report i)")
  case (Inl e)
  thus ?thesis using decision_parts [OF assms] by simp
next
  case (Inr r)
  from decision_parts [OF assms] Inr obtain names where
    n: "ai_required i (corePatchProfile (ai_profile i)) = Inr names"
    and b: "de_blockers d = report_blockers (ai_profile i) names r" "de_warnings d = report_warnings (ai_profile i) r"
    and v: "de_verdict d = verdict_of (de_blockers d) (inconclusive_reasons i) (de_warnings d)"
    by auto
  have ok: "de_verdict d \<in> {Accepted, Accepted_With_Warnings} \<longleftrightarrow>
      sound_report (ai_profile i) names r \<and> inconclusive_reasons i = []"
    by (simp add: v b verdict_of_def report_blockers_Nil)
  have "de_verdict d = Accepted \<longleftrightarrow> de_verdict d \<in> {Accepted, Accepted_With_Warnings} \<and> report_warnings (ai_profile i) r = []"
    by (simp add: v b verdict_of_def)
  moreover have "sound_report (ai_profile i) names r \<Longrightarrow>
      report_warnings (ai_profile i) r = [] \<longleftrightarrow> list_all (\<lambda>e. \<not> failing e) (patches r)"
    using report_warnings_Nil [of "ai_profile i" r] enabled_failures_Nil [of "ai_profile i" r]
    by (auto simp: sound_report_def list_all_iff)
  ultimately show ?thesis using ok n Inr by (auto simp: no_reasons)
qed

theorem accepted_exactly_witness:
  "\<exists>d. evaluateUpstreamDmg sample_input = Inr d \<and> de_verdict d = Accepted_With_Warnings"
proof -
  obtain d where d: "evaluateUpstreamDmg sample_input = Inr d" using sample_decision by blast
  have "sound_report (ai_profile sample_input) [MAIN_PROCESS_UI] sample_report"
    by (simp add: sound_report_def sample_report_def make_entry_def sample_input_def UPSTREAM_DMG_RELEASE_PROFILE_def
        critical_entry_def isCriticalPolicy_def field_def nullish_def map_get_def of_enabled_integration_def
        integration_kind_def createPatchReport_def failing_def success_status_def)
  moreover have "input_errors sample_input = [] \<and> ai_buildStatus sample_input = Some ''success'' \<and>
      fingerprint_known (acceptance_dmg sample_input)"
    by (simp add: sample_input_def input_errors_def acceptance_dmg_def buildDmgInfo_def fingerprint_known_def)
  moreover have "ai_required sample_input (corePatchProfile (ai_profile sample_input)) = Inr [MAIN_PROCESS_UI]"
    by (simp add: sample_input_def)
  ultimately have "de_verdict d \<in> {Accepted, Accepted_With_Warnings}"
    using accepted_exactly [OF d] sample_input_read by blast
  moreover have "de_verdict d \<noteq> Accepted"
    using accepted_exactly [OF d] sample_entry by (auto simp: sample_input_read list_all_iff)
  ultimately show ?thesis using d by blast
qed

text \<open>C24: no failed patch is passed over: each entry that failed stands in a blocker or in a warning of the
  decision.\<close>

theorem failing_entries_accounted:
  assumes "evaluateUpstreamDmg i = Inr d" and "readReportResult (ai_report i) = Inr r"
    and "e \<in> set (patches r)" and "failing e"
  shows "(\<exists>b\<in>set (de_blockers d). b_reason b = status_failure (entry_name e) (entry_status e) (entry_reason e) \<or>
      b_name b = entry_name e) \<or>
    (\<exists>w\<in>set (de_warnings d). w_name (snd w) = entry_name e)"
proof -
  from decision_parts [OF assms(1)] assms(2) obtain names where
    b: "de_blockers d = report_blockers (ai_profile i) names r" "de_warnings d = report_warnings (ai_profile i) r"
    by auto
  consider "critical_entry e" | "\<not> critical_entry e" "entry_name e \<in> set (map (f_name \<circ> fst) (enabled_failures (ai_profile i) r))"
    | "\<not> critical_entry e" "entry_name e \<notin> set (map (f_name \<circ> fst) (enabled_failures (ai_profile i) r))" by blast
  thus ?thesis
  proof cases
    case 1
    hence "status_failure (entry_name e) (entry_status e) (entry_reason e) \<in> set (validatePatchReport r names no_requirements)"
      using assms(3,4)
      by (auto simp: validate_nothing_more criticalFailuresFromReport_def report_patches_def reportEntryFailure_def image_iff)
    thus ?thesis by (auto simp: b report_blockers_def validationBlockers_def bex_Un)
  next
    case 2
    then obtain x where "x \<in> set (enabled_failures (ai_profile i) r)" "f_name (fst x) = entry_name e" by auto
    hence "b_name (integration_blocker x) = entry_name e" by (simp add: integration_blocker_def Let_def)
    moreover have "integration_blocker x \<in> set (de_blockers d)"
      using \<open>x \<in> _\<close> by (simp add: b report_blockers_def)
    ultimately show ?thesis by blast
  next
    case 3
    hence "reportEntryFailure e \<in> set (filter (\<lambda>f. f_name f \<notin> set (map (f_name \<circ> fst) (enabled_failures (ai_profile i) r)))
        (optionalDriftFromReport (Some r)))"
      using assms(3,4) by (auto simp: optionalDriftFromReport_def report_patches_def reportEntryFailure_def)
    hence "\<exists>w\<in>set (de_warnings d). w_name (snd w) = f_name (reportEntryFailure e)"
      unfolding b report_warnings_def driftWarnings_def by force
    thus ?thesis by (simp add: reportEntryFailure_def)
  qed
qed

theorem failing_entries_accounted_witness:
  "\<exists>d. evaluateUpstreamDmg sample_input = Inr d \<and>
     ((\<exists>b\<in>set (de_blockers d). b_reason b = ''p: skipped-optional (drift)'' \<or> b_name b = ''p'') \<or>
      (\<exists>w\<in>set (de_warnings d). w_name (snd w) = ''p''))"
proof -
  obtain d where d: "evaluateUpstreamDmg sample_input = Inr d" using sample_decision by blast
  show ?thesis using failing_entries_accounted [OF d sample_input_read sample_entry] d
    by (auto simp: make_entry_def status_failure_def with_reason_def)
qed



end
