(* ===== verification/Dmg_Issue.thy ===== *)
theory Dmg_Issue
  imports Dmg_Acceptance Label_Policy
begin

text \<open>
  \<open>scripts/ci/upstream-dmg-issue.js\<close>: the tracking issue of a rejected upstream image. The decision about the
  newest image opens, updates, reopens or closes issues, but only those that carry the hidden marker of this
  automation, and none that a maintainer has marked as manual only. GitHub is a parameter: what it answers may
  depend on all calls made before. A call that changes something is logged when it is made, whether or
  not it succeeds.
\<close>

section \<open>Issues\<close>

definition LABEL :: string where
  "LABEL = ''area: upstream dmg''"

definition MANUAL_ONLY_LABEL :: string where
  "MANUAL_ONLY_LABEL = ''workflow: manual only''"

definition ISSUE_LABELS :: "string list" where
  "ISSUE_LABELS = [''type: bug'', LABEL, ''status: ready for work'']"

text \<open>\<open>LEGACY_LABELS\<close> and \<open>ISSUE_LABEL_DEFINITIONS\<close>, which the module reads off the label policy as it is loaded.\<close>

definition LEGACY_LABELS :: "policy \<Rightarrow> string list" where
  "LEGACY_LABELS p = map mig_from (filter (\<lambda>m. mig_to m = LABEL) (migrations p))"

definition labelDefinition :: "policy \<Rightarrow> string \<Rightarrow> string + policy_label" where
  "labelDefinition p n =
     (case find (\<lambda>l. label_name l = n) (labels p) of
        Some l \<Rightarrow> Inr l
      | None \<Rightarrow> Inl (''Missing '' @ n @ '' in .github/labels.json''))"

definition ISSUE_LABEL_DEFINITIONS :: "policy \<Rightarrow> string + policy_label list" where
  "ISSUE_LABEL_DEFINITIONS p = emap (labelDefinition p) ISSUE_LABELS"

record issue =
  issue_number :: nat
  issue_open :: bool
  issue_labels :: "string list"
  issue_body :: "string option"
  issue_pull_request :: bool

definition has_label :: "issue \<Rightarrow> string \<Rightarrow> bool" where
  "has_label i n = (n \<in> set (issue_labels i))"

definition marker_start :: string where
  "marker_start = ''<!-- upstream-dmg-fingerprint:''"

definition fingerprintMarker :: "string \<Rightarrow> string" where
  "fingerprintMarker fingerprint = marker_start @ fingerprint @ '' -->''"

definition runMarker :: "string option \<Rightarrow> string" where
  "runMarker runId = ''<!-- upstream-dmg-run:'' @ (case runId of Some i \<Rightarrow> i | None \<Rightarrow> ''local'') @ '' -->''"

text \<open>\<open>FINGERPRINT_PATTERN\<close> at the start of a text in lower case, and the first place where it matches.\<close>

definition marker_at :: "string \<Rightarrow> string option" where
  "marker_at s =
     (let rest = drop (length marker_start) s; f = take 64 rest in
      if starts_with marker_start s \<and> length f = 64 \<and> list_all is_lower_hex f \<and> starts_with '' -->'' (drop 64 rest)
      then Some f else None)"

fun find_marker :: "string \<Rightarrow> string option" where
  "find_marker [] = None"
| "find_marker (c # cs) = (case marker_at (c # cs) of Some f \<Rightarrow> Some f | None \<Rightarrow> find_marker cs)"

definition issueFingerprint :: "issue \<Rightarrow> string option" where
  "issueFingerprint i = (case issue_body i of None \<Rightarrow> None | Some b \<Rightarrow> find_marker (to_lower b))"

text \<open>\<open>/^[a-f0-9]{64}$/i\<close>.\<close>

definition valid_fingerprint :: "string \<Rightarrow> bool" where
  "valid_fingerprint f = (length f = 64 \<and> list_all is_lower_hex (to_lower f))"

definition sha_of :: "decision \<Rightarrow> string" where
  "sha_of d = (case dmg_sha256 (de_dmg d) of Some s \<Rightarrow> s | None \<Rightarrow> [])"

definition issueTitle :: "decision \<Rightarrow> string" where
  "issueTitle d =
     ''Upstream DMG drift: '' @ (case dmg_appVersion (de_dmg d) of Some v \<Rightarrow> v | None \<Rightarrow> ''unknown version'') @
     '' ('' @ take 12 (sha_of d) @ '')''"

definition issueBody :: "decision \<Rightarrow> string" where
  "issueBody d =
     join [CHR 0x0A]
       ([fingerprintMarker (sha_of d), runMarker (de_runId d),
         ''The latest upstream DMG was rejected by the shared local/CI acceptance profile.'', [],
         ''## Candidate'', [],
         ''- App version: '' @ code_span (case dmg_appVersion (de_dmg d) of Some v \<Rightarrow> v | None \<Rightarrow> ''unknown''),
         ''- SHA-256: '' @ code_span (sha_of d),
         ''- Workflow run: '' @ (case de_runUrl d of
                                  Some (c # cs) \<Rightarrow> ''[open run]('' @ (c # cs) @ '')'' | _ \<Rightarrow> ''unknown''), [],
         ''## Blocking checks'', []] @
        map (\<lambda>b. ''- **'' @ b_check b @ ''**: '' @ b_reason b) (de_blockers d) @
        [[], ''## Maintainer checklist'', [],
         ''1. Download the exact DMG fingerprint shown above and reproduce the acceptance report locally.'',
         ''2. Update only current-DMG patch shapes; remove obsolete drift workarounds in the same change.'',
         ''3. Keep optional patches fail-soft and run the local release profile before opening a fix PR.'']) @ [CHR 0x0A]"

section \<open>GitHub\<close>

datatype close_reason = Completed | Not_Planned

datatype github_call =
    Create_Label policy_label
  | Create_Comment nat string
  | Close_Issue nat close_reason
  | Add_Labels nat "string list"
  | Update_Issue nat string string
  | Create_Issue string string "string list"

text \<open>An error of the API: its status, when it has one.\<close>

type_synonym github_error = "nat option"

record github =
  gh_issues :: "string \<Rightarrow> github_call list \<Rightarrow> github_error + issue list"
  gh_label :: "string \<Rightarrow> github_call list \<Rightarrow> github_error + unit"
  gh_call :: "github_call \<Rightarrow> github_call list \<Rightarrow> github_error + nat"

type_synonym 'a gh = "github_call list \<Rightarrow> (github_error + 'a) \<times> github_call list"

definition gpure :: "'a \<Rightarrow> 'a gh" where
  "gpure x log = (Inr x, log)"

definition gbind :: "'a gh \<Rightarrow> ('a \<Rightarrow> 'b gh) \<Rightarrow> 'b gh" where
  "gbind m f log = (case m log of (Inl e, log') \<Rightarrow> (Inl e, log') | (Inr x, log') \<Rightarrow> f x log')"

fun gfor :: "('a \<Rightarrow> unit gh) \<Rightarrow> 'a list \<Rightarrow> unit gh" where
  "gfor f [] = gpure ()"
| "gfor f (x # xs) = gbind (f x) (\<lambda>u. gfor f xs)"

definition call_github :: "github \<Rightarrow> github_call \<Rightarrow> nat gh" where
  "call_github g c log = (gh_call g c log, log @ [c])"

definition do_call :: "github \<Rightarrow> github_call \<Rightarrow> unit gh" where
  "do_call g c = gbind (call_github g c) (\<lambda>n. gpure ())"

section \<open>Reconciling\<close>

definition add_issue :: "issue \<Rightarrow> (nat, issue) jsmap \<Rightarrow> (nat, issue) jsmap" where
  "add_issue i m = map_set (issue_number i) i m"

text \<open>The issues under a label join those found so far; a label that does not exist has none.\<close>

definition collect_label :: "github \<Rightarrow> github_call list \<Rightarrow> string \<Rightarrow> (nat, issue) jsmap \<Rightarrow> github_error + (nat, issue) jsmap" where
  "collect_label g log label m =
     (case gh_issues g label log of
        Inl e \<Rightarrow> if e = Some 404 then Inr m else Inl e
      | Inr is \<Rightarrow> Inr (fold add_issue is m))"

definition owned :: "issue \<Rightarrow> bool" where
  "owned i = (\<not> issue_pull_request i \<and> issueFingerprint i \<noteq> None)"

definition listTrackingIssues :: "github \<Rightarrow> string list \<Rightarrow> issue list gh" where
  "listTrackingIssues g legacyLabels log =
     (case efold (collect_label g log) (LABEL # legacyLabels) [] of
        Inl e \<Rightarrow> (Inl e, log)
      | Inr m \<Rightarrow> (Inr (filter owned (map snd m)), log))"

definition ensure_label :: "github \<Rightarrow> policy_label \<Rightarrow> unit gh" where
  "ensure_label g def log =
     (case gh_label g (label_name def) log of
        Inr u \<Rightarrow> (Inr (), log)
      | Inl e \<Rightarrow> if e \<noteq> Some 404 then (Inl e, log) else do_call g (Create_Label def) log)"

definition ensureLabels :: "github \<Rightarrow> policy_label list \<Rightarrow> unit gh" where
  "ensureLabels g defs = gfor (ensure_label g) defs"

definition closeIssue :: "github \<Rightarrow> string \<Rightarrow> close_reason \<Rightarrow> issue \<Rightarrow> unit gh" where
  "closeIssue g message reason i =
     gbind (do_call g (Create_Comment (issue_number i) message)) (\<lambda>u. do_call g (Close_Issue (issue_number i) reason))"

datatype action =
    Ignored_Inconclusive | Ignored_Missing_Fingerprint | Ignored_Missing_Identity | Ignored_Stale
  | Closed_Resolved nat | Manual_Only nat | Updated nat | Reopened nat | Created nat

definition closable :: "issue \<Rightarrow> bool" where
  "closable i = (issue_open i \<and> \<not> has_label i MANUAL_ONLY_LABEL)"

definition update_matching :: "github \<Rightarrow> decision \<Rightarrow> issue \<Rightarrow> action gh" where
  "update_matching g d i =
     (if has_label i MANUAL_ONLY_LABEL then gpure (Manual_Only (issue_number i))
      else gbind (do_call g (Add_Labels (issue_number i) ISSUE_LABELS)) (\<lambda>u.
           gbind (do_call g (Update_Issue (issue_number i) (issueTitle d) (issueBody d))) (\<lambda>u.
           gbind (if (case issue_body i of None \<Rightarrow> False | Some b \<Rightarrow> str_includes (runMarker (de_runId d)) b) then gpure ()
                  else do_call g (Create_Comment (issue_number i)
                         (''Acceptance failed again. '' @
                          (case de_runUrl d of Some u \<Rightarrow> u | None \<Rightarrow> ''See the latest workflow artifacts.'')))) (\<lambda>u.
             gpure (if issue_open i then Updated (issue_number i) else Reopened (issue_number i))))))"

definition reconcile_rejected ::
  "github \<Rightarrow> policy_label list \<Rightarrow> decision \<Rightarrow> issue list \<Rightarrow> action gh" where
  "reconcile_rejected g defs d is =
     (let fingerprint = to_lower (sha_of d) in
      gbind (ensureLabels g defs) (\<lambda>u.
      gbind (gfor (closeIssue g (''Superseded by newer rejected upstream DMG '' @ code_span (take 12 fingerprint) @ ''.'') Not_Planned)
               (filter (\<lambda>i. closable i \<and> issueFingerprint i \<noteq> Some fingerprint) is)) (\<lambda>u.
        case find (\<lambda>i. issueFingerprint i = Some fingerprint) is of
          Some i \<Rightarrow> update_matching g d i
        | None \<Rightarrow> gbind (call_github g (Create_Issue (issueTitle d) (issueBody d) ISSUE_LABELS)) (\<lambda>n. gpure (Created n)))))"

definition reconcile_accepted :: "github \<Rightarrow> decision \<Rightarrow> issue list \<Rightarrow> action gh" where
  "reconcile_accepted g d is =
     gbind (gfor (closeIssue g (''Superseded by accepted upstream DMG '' @ code_span (take 12 (sha_of d)) @ ''.'') Completed)
              (filter closable is))
       (\<lambda>u. gpure (Closed_Resolved (length (filter closable is))))"

definition identity_key :: "decision \<Rightarrow> string option" where
  "identity_key d = map_option hi_key (dmg_httpIdentity (de_dmg d))"

definition reconcileUpstreamDmgIssue ::
  "github \<Rightarrow> string list \<Rightarrow> policy_label list \<Rightarrow> decision \<Rightarrow> string option \<Rightarrow> action gh" where
  "reconcileUpstreamDmgIssue g legacyLabels defs d currentHttpIdentityKey =
     (if de_verdict d = Inconclusive then gpure Ignored_Inconclusive
      else if \<not> valid_fingerprint (sha_of d) then gpure Ignored_Missing_Fingerprint
      else if identity_key d \<in> {None, Some []} \<or> currentHttpIdentityKey \<in> {None, Some []} then gpure Ignored_Missing_Identity
      else if currentHttpIdentityKey \<noteq> identity_key d then gpure Ignored_Stale
      else gbind (listTrackingIssues g legacyLabels) (\<lambda>is.
             if de_verdict d \<in> {Accepted, Accepted_With_Warnings} then reconcile_accepted g d is
             else reconcile_rejected g defs d is))"

section \<open>What a computation calls\<close>

text \<open>A computation only makes calls that satisfy \<open>P\<close>.\<close>

definition calls_only :: "(github_call \<Rightarrow> bool) \<Rightarrow> 'a gh \<Rightarrow> bool" where
  "calls_only P m \<longleftrightarrow> (\<forall>log. \<exists>cs. snd (m log) = log @ cs \<and> list_all P cs)"

lemma calls_onlyD: "calls_only P m \<Longrightarrow> m log = (r, log') \<Longrightarrow> \<exists>cs. log' = log @ cs \<and> list_all P cs"
  by (metis calls_only_def snd_conv)

lemma calls_only_pure: "calls_only P (gpure x)"
  by (simp add: calls_only_def gpure_def)

lemma calls_only_bind: "calls_only P m \<Longrightarrow> (\<And>x. calls_only P (f x)) \<Longrightarrow> calls_only P (gbind m f)"
  unfolding calls_only_def
proof
  fix log
  assume m: "\<forall>log. \<exists>cs. snd (m log) = log @ cs \<and> list_all P cs" and f: "\<And>x. \<forall>log. \<exists>cs. snd (f x log) = log @ cs \<and> list_all P cs"
  obtain r log1 where r: "m log = (r, log1)" by (cases "m log")
  then obtain cs where c: "log1 = log @ cs" "list_all P cs" using m by (metis snd_conv)
  show "\<exists>cs. snd (gbind m f log) = log @ cs \<and> list_all P cs"
  proof (cases r)
    case (Inl e)
    thus ?thesis using r c by (simp add: gbind_def)
  next
    case (Inr x)
    obtain ds where "snd (f x log1) = log1 @ ds" "list_all P ds" using f by metis
    thus ?thesis using r c Inr by (intro exI [of _ "cs @ ds"]) (simp add: gbind_def)
  qed
qed

lemma calls_only_for: "(\<And>x. x \<in> set xs \<Longrightarrow> calls_only P (f x)) \<Longrightarrow> calls_only P (gfor f xs)"
  by (induction xs) (auto intro: calls_only_pure calls_only_bind)

lemma calls_only_call: "P c \<Longrightarrow> calls_only P (call_github g c)"
  by (simp add: calls_only_def call_github_def)

lemma calls_only_do: "P c \<Longrightarrow> calls_only P (do_call g c)"
  by (auto simp: do_call_def intro: calls_only_bind calls_only_call calls_only_pure)

lemma calls_only_label: "P (Create_Label def) \<Longrightarrow> calls_only P (ensure_label g def)"
  using calls_only_do [of P "Create_Label def" g]
  by (auto simp: calls_only_def ensure_label_def split: sum.split)

lemma calls_only_labels: "(\<And>def. P (Create_Label def)) \<Longrightarrow> calls_only P (ensureLabels g defs)"
  unfolding ensureLabels_def by (rule calls_only_for, rule calls_only_label)

lemma calls_only_close:
  "P (Create_Comment (issue_number i) message) \<Longrightarrow> P (Close_Issue (issue_number i) reason) \<Longrightarrow>
   calls_only P (closeIssue g message reason i)"
  by (auto simp: closeIssue_def intro: calls_only_bind calls_only_do)

lemmas calls_only_intros = calls_only_pure calls_only_bind calls_only_for calls_only_call calls_only_do
  calls_only_labels calls_only_close

text \<open>Which calls are allowed: those on issues that the automation owns and may touch, closing only open ones, and
  those that create.\<close>

fun allowed :: "issue list \<Rightarrow> github_call \<Rightarrow> bool" where
  "allowed is (Create_Label def) = True"
| "allowed is (Create_Issue title body ls) = True"
| "allowed is (Close_Issue n reason) = (\<exists>i\<in>set is. issue_number i = n \<and> owned i \<and> closable i)"
| "allowed is (Create_Comment n body) = (\<exists>i\<in>set is. issue_number i = n \<and> owned i \<and> \<not> has_label i MANUAL_ONLY_LABEL)"
| "allowed is (Add_Labels n ls) = (\<exists>i\<in>set is. issue_number i = n \<and> owned i \<and> \<not> has_label i MANUAL_ONLY_LABEL)"
| "allowed is (Update_Issue n title body) = (\<exists>i\<in>set is. issue_number i = n \<and> owned i \<and> \<not> has_label i MANUAL_ONLY_LABEL)"

lemma update_allowed:
  "i \<in> set is \<Longrightarrow> owned i \<Longrightarrow> calls_only (allowed is) (update_matching g d i)"
  by (auto simp: update_matching_def intro!: calls_only_intros)

lemma close_allowed:
  "list_all owned js \<Longrightarrow> set js \<subseteq> set is \<Longrightarrow>
   calls_only (allowed is) (gfor (closeIssue g message reason) (filter (\<lambda>i. closable i \<and> Q i) js))"
  by (rule calls_only_for, rule calls_only_close) (auto simp: closable_def list_all_iff)

lemma find_member: "find P xs = Some x \<Longrightarrow> x \<in> set xs \<and> P x"
  by (induction xs) (auto split: if_splits)

lemma rejected_allowed:
  assumes "list_all owned js" "set js \<subseteq> set is"
  shows "calls_only (allowed is) (reconcile_rejected g defs d js)"
proof -
  have "calls_only (allowed is) (case find (\<lambda>i. issueFingerprint i = Some (to_lower (sha_of d))) js of
      Some i \<Rightarrow> update_matching g d i
    | None \<Rightarrow> gbind (call_github g (Create_Issue (issueTitle d) (issueBody d) ISSUE_LABELS)) (\<lambda>n. gpure (Created n)))"
    using assms
    by (auto intro!: calls_only_intros update_allowed dest!: find_member simp: list_all_iff split: option.split)
  thus ?thesis unfolding reconcile_rejected_def Let_def
    by (intro calls_only_bind calls_only_labels close_allowed assms) simp_all
qed

text \<open>The issues that are listed are those under one of the labels.\<close>

definition listed :: "github \<Rightarrow> string list \<Rightarrow> github_call list \<Rightarrow> issue list" where
  "listed g ls log = concat (map (\<lambda>l. case gh_issues g l log of Inr is \<Rightarrow> is | Inl e \<Rightarrow> []) ls)"

lemma update_values: "snd ` set (AList.update k v m) \<subseteq> insert v (snd ` set m)"
  by (induction m) auto

lemma add_issues_values: "snd ` set (fold add_issue is m) \<subseteq> set is \<union> snd ` set m"
proof (induction "is" arbitrary: m)
  case (Cons i "is")
  thus ?case using Cons.IH [of "add_issue i m"] update_values [of "issue_number i" i m]
    by (auto simp: add_issue_def map_set_def)
qed simp

lemma listed_Cons: "set (listed g (l # ls) log) = set (listed g [l] log) \<union> set (listed g ls log)"
  by (simp add: listed_def)

lemma collected_one: "collect_label g log l m = Inr m' \<Longrightarrow> snd ` set m' \<subseteq> set (listed g [l] log) \<union> snd ` set m"
  using add_issues_values [of _ m] by (auto simp: collect_label_def listed_def split: sum.splits if_splits)

lemma collected_values:
  "efold (collect_label g log) ls m = Inr m' \<Longrightarrow> snd ` set m' \<subseteq> set (listed g ls log) \<union> snd ` set m"
proof (induction ls arbitrary: m)
  case (Cons l ls)
  then obtain m1 where m1: "collect_label g log l m = Inr m1" "efold (collect_label g log) ls m1 = Inr m'"
    by (auto simp: ebind_eq_Inr split: sum.splits)
  thus ?case using collected_one [OF m1(1)] Cons.IH [OF m1(2)] unfolding listed_Cons [of g l ls] by blast
qed simp

lemma tracking_issues:
  "listTrackingIssues g ls log = (Inr js, log') \<Longrightarrow>
   log' = log \<and> list_all owned js \<and> set js \<subseteq> set (listed g (LABEL # ls) log)"
  using collected_values [of g log "LABEL # ls" "[]"]
  by (fastforce simp: listTrackingIssues_def list_all_iff split: sum.splits)

text \<open>Where a computation starts with another, every call of the first is a call of the whole.\<close>

lemma gbind_Inr: "gbind m f log = (Inr y, log') \<longleftrightarrow> (\<exists>x log1. m log = (Inr x, log1) \<and> f x log1 = (Inr y, log'))"
  by (auto simp: gbind_def split: prod.splits sum.splits)

lemma do_call_Inr: "do_call g c log = (Inr u, log') \<longleftrightarrow> log' = log @ [c] \<and> (\<exists>n. gh_call g c log = Inr n)"
  by (auto simp: do_call_def gbind_def call_github_def gpure_def split: sum.splits)

lemma close_issue_Inr: "closeIssue g message reason i log = (Inr u, log') \<Longrightarrow>
    log' = log @ [Create_Comment (issue_number i) message, Close_Issue (issue_number i) reason]"
  by (auto simp: closeIssue_def gbind_Inr do_call_Inr)

lemma close_issues_Inr: "gfor (closeIssue g message reason) is log = (Inr u, log') \<Longrightarrow>
    log' = log @ concat (map (\<lambda>i. [Create_Comment (issue_number i) message, Close_Issue (issue_number i) reason]) is)"
  by (induction "is" arbitrary: log) (fastforce simp: gpure_def gbind_Inr dest!: close_issue_Inr)+

section \<open>One reconciliation\<close>

text \<open>A decision is acted on only when it is conclusive and about the image that is offered now.\<close>

definition current_candidate :: "decision \<Rightarrow> string option \<Rightarrow> bool" where
  "current_candidate d key \<longleftrightarrow>
     de_verdict d \<noteq> Inconclusive \<and> valid_fingerprint (sha_of d) \<and> key = identity_key d \<and> key \<notin> {None, Some []}"

definition accepted_verdict :: "decision \<Rightarrow> bool" where
  "accepted_verdict d \<longleftrightarrow> de_verdict d \<in> {Accepted, Accepted_With_Warnings}"

lemma reconcile_ignored:
  "\<not> current_candidate d key \<Longrightarrow> \<exists>a. reconcileUpstreamDmgIssue g ls defs d key log = (Inr a, log) \<and>
     a \<in> {Ignored_Inconclusive, Ignored_Missing_Fingerprint, Ignored_Missing_Identity, Ignored_Stale}"
  by (auto simp: reconcileUpstreamDmgIssue_def current_candidate_def gpure_def)

lemma reconcile_current:
  assumes "current_candidate d key"
  shows "reconcileUpstreamDmgIssue g ls defs d key log =
    (case listTrackingIssues g ls log of
       (Inl e, log1) \<Rightarrow> (Inl e, log)
     | (Inr js, log1) \<Rightarrow>
         if accepted_verdict d then reconcile_accepted g d js log else reconcile_rejected g defs d js log)"
  using assms tracking_issues [of g ls log]
  by (auto simp: reconcileUpstreamDmgIssue_def current_candidate_def accepted_verdict_def gbind_def
      listTrackingIssues_def split: sum.splits)

lemma accepted_allowed:
  "list_all owned js \<Longrightarrow> set js \<subseteq> set is \<Longrightarrow> calls_only (allowed is) (reconcile_accepted g d js)"
  unfolding reconcile_accepted_def
  using close_allowed [of js "is" g _ Completed "\<lambda>i. True"] by (auto intro: calls_only_bind calls_only_pure)

text \<open>How a run of a current decision goes on once the issues are listed.\<close>

lemma reconcile_runs:
  assumes run: "reconcileUpstreamDmgIssue g ls defs d key log = (r, log')" and P: "\<And>js. listTrackingIssues g ls log = (Inr js, log) \<Longrightarrow>
      calls_only P (reconcile_accepted g d js) \<and> calls_only P (reconcile_rejected g defs d js)"
  shows "\<exists>cs. log' = log @ cs \<and> list_all P cs \<and> (cs \<noteq> [] \<longrightarrow> current_candidate d key)"
proof (cases "current_candidate d key")
  case False
  thus ?thesis using reconcile_ignored [OF False, of g ls defs log] run by auto
next
  case True
  show ?thesis
  proof (cases "fst (listTrackingIssues g ls log)")
    case (Inl e)
    thus ?thesis using run reconcile_current [OF True, of g ls defs log]
      by (cases "listTrackingIssues g ls log") auto
  next
    case (Inr js)
    hence l: "listTrackingIssues g ls log = (Inr js, log)"
      using tracking_issues by (cases "listTrackingIssues g ls log") (metis fst_conv)
    thus ?thesis
      using run True P [OF l] reconcile_current [OF True, of g ls defs log]
      by (auto split: if_splits dest: calls_onlyD)
  qed
qed

text \<open>The marker of an issue is found again in its text.\<close>

lemma marker_at_start:
  "length f = 64 \<Longrightarrow> list_all is_lower_hex f \<Longrightarrow> marker_at (marker_start @ f @ '' -->'' @ rest) = Some f"
  by (simp add: marker_at_def Let_def starts_with_def)

lemma find_marker_at: "marker_at s = Some f \<Longrightarrow> find_marker s = Some f"
  by (cases s) (auto simp: marker_at_def Let_def marker_start_def starts_with_def split: if_splits)

lemma lower_marks: "to_lower marker_start = marker_start" "to_lower '' -->'' = '' -->''"
  by code_simp+

lemma to_lower_append: "to_lower (s @ t) = to_lower s @ to_lower t"
  by (simp add: to_lower_def)

lemma find_marker_start:
  "valid_fingerprint f \<Longrightarrow> find_marker (to_lower (fingerprintMarker f @ rest)) = Some (to_lower f)"
  using marker_at_start [of "to_lower f" "to_lower rest"]
  by (intro find_marker_at)
    (simp only: fingerprintMarker_def to_lower_append lower_marks append_assoc valid_fingerprint_def length_to_lower)

lemma body_fingerprint:
  "issue_body i = Some (issueBody d) \<Longrightarrow> valid_fingerprint (sha_of d) \<Longrightarrow> issueFingerprint i = Some (to_lower (sha_of d))"
proof -
  have "\<exists>rest. issueBody d = fingerprintMarker (sha_of d) @ rest"
    by (simp add: issueBody_def del: join.simps) (simp only: join.simps append_assoc, blast)
  thus "issue_body i = Some (issueBody d) \<Longrightarrow> valid_fingerprint (sha_of d) \<Longrightarrow> ?thesis"
    by (auto simp: issueFingerprint_def find_marker_start)
qed

text \<open>What each part of a run calls, when it succeeds.\<close>

definition creates :: "github_call \<Rightarrow> bool" where
  "creates c \<longleftrightarrow> (case c of Create_Issue t b ls \<Rightarrow> True | _ \<Rightarrow> False)"

lemma creates_simps [simp]:
  "creates (Create_Issue t b ls)" "\<not> creates (Create_Label def)" "\<not> creates (Create_Comment n m)"
  "\<not> creates (Close_Issue n r)" "\<not> creates (Add_Labels n ls)" "\<not> creates (Update_Issue n t b)"
  by (simp_all add: creates_def)

lemma found_creates_none:
  assumes "issueFingerprint i = Some (to_lower (sha_of d))" "i \<in> set js"
  shows "calls_only (\<lambda>c. \<not> creates c) (reconcile_rejected g defs d js)"
proof -
  obtain j where j: "find (\<lambda>i. issueFingerprint i = Some (to_lower (sha_of d))) js = Some j"
    using assms by (metis (mono_tags, lifting) find_None_iff not_None_eq)
  show ?thesis unfolding reconcile_rejected_def Let_def j option.case update_matching_def
    by (auto intro!: calls_only_intros)
qed

lemma accepted_creates_none: "calls_only (\<lambda>c. \<not> creates c) (reconcile_accepted g d js)"
  unfolding reconcile_accepted_def by (auto intro!: calls_only_intros)

definition superseded :: "decision \<Rightarrow> issue \<Rightarrow> bool" where
  "superseded d i \<longleftrightarrow> closable i \<and> (accepted_verdict d \<or> issueFingerprint i \<noteq> Some (to_lower (sha_of d)))"

lemma any_calls: "calls_only (\<lambda>c. True) (update_matching g d i)"
  "calls_only (\<lambda>c. True) (ensureLabels g defs)"
  unfolding update_matching_def by (auto intro!: calls_only_intros)

lemma accepted_closes:
  assumes "reconcile_accepted g d js log = (Inr a, log')" "i \<in> set js" "closable i"
  shows "\<exists>cs reason. log' = log @ cs \<and> Close_Issue (issue_number i) reason \<in> set cs"
  using assms by (fastforce simp: reconcile_accepted_def gbind_Inr gpure_def dest!: close_issues_Inr)

lemma rejected_closes:
  assumes run: "reconcile_rejected g defs d js log = (Inr a, log')" and i: "i \<in> set js" "closable i"
    "issueFingerprint i \<noteq> Some (to_lower (sha_of d))"
  shows "\<exists>cs reason. log' = log @ cs \<and> Close_Issue (issue_number i) reason \<in> set cs"
proof -
  let ?old = "filter (\<lambda>i. closable i \<and> issueFingerprint i \<noteq> Some (to_lower (sha_of d))) js"
  let ?rest = "case find (\<lambda>i. issueFingerprint i = Some (to_lower (sha_of d))) js of
      Some i \<Rightarrow> update_matching g d i
    | None \<Rightarrow> gbind (call_github g (Create_Issue (issueTitle d) (issueBody d) ISSUE_LABELS)) (\<lambda>n. gpure (Created n))"
  obtain log1 log2 m where r: "ensureLabels g defs log = (Inr (), log1)"
    "gfor (closeIssue g m Not_Planned) ?old log1 = (Inr (), log2)" "?rest log2 = (Inr a, log')"
    using run by (auto simp: reconcile_rejected_def Let_def gbind_Inr)
  have rest: "calls_only (\<lambda>c. True) ?rest"
    by (auto intro!: calls_only_intros any_calls split: option.split)
  obtain cs3 where c: "log' = log2 @ cs3" using calls_onlyD [where m = ?rest, OF rest r(3)] by blast
  obtain cs1 where "log1 = log @ cs1" using calls_onlyD [where m = "ensureLabels g defs", OF any_calls(2) r(1)] by blast
  thus ?thesis using c close_issues_Inr [OF r(2)] i by fastforce
qed

lemma run_allowed:
  assumes "reconcileUpstreamDmgIssue g legacyLabels defs d key log = (r, log')"
  shows "\<exists>cs. log' = log @ cs \<and> list_all (allowed (listed g (LABEL # legacyLabels) log)) cs \<and>
             (cs \<noteq> [] \<longrightarrow> current_candidate d key)"
  using tracking_issues accepted_allowed rejected_allowed by (intro reconcile_runs [OF assms]) blast

section \<open>An example\<close>

text \<open>Decisions about one image, and a GitHub where issue 3 was opened when it was rejected.\<close>

definition example_dmg :: dmg_info where
  "example_dmg =
     \<lparr>dmg_path = None, dmg_url = None, dmg_sha256 = Some (replicate 64 (CHR ''A'')), dmg_sizeBytes = None,
      dmg_appVersion = Some ''1.2'',
      dmg_httpIdentity = Some \<lparr>hi_etag = Some ''e'', hi_lastModified = None, hi_contentLength = None, hi_key = ''k''\<rparr>\<rparr>"

definition example_decision :: "verdict \<Rightarrow> decision" where
  "example_decision v =
     \<lparr>de_profile = ''upstream-release'', de_verdict = v, de_dmg = example_dmg, de_source = None,
      de_buildStatus = ''success'', de_reportCompleted = True, de_enabledIntegrations = [],
      de_blockers = [], de_warnings = [], de_inconclusiveReasons = [],
      de_runId = Some ''1'', de_runAttempt = None, de_runUrl = None, de_runSource = ''ci''\<rparr>"

definition example_issue :: issue where
  "example_issue =
     \<lparr>issue_number = 3, issue_open = True, issue_labels = [LABEL],
      issue_body = Some (issueBody (example_decision Rejected)), issue_pull_request = False\<rparr>"

definition example_github :: github where
  "example_github =
     \<lparr>gh_issues = (\<lambda>l log. if l = LABEL then Inr [example_issue] else Inl (Some 404)),
      gh_label = (\<lambda>l log. Inr ()), gh_call = (\<lambda>c log. Inr 1)\<rparr>"

lemma example_fingerprint: "valid_fingerprint (sha_of (example_decision v))"
  by code_simp

lemma example_current: "v \<noteq> Inconclusive \<Longrightarrow> current_candidate (example_decision v) (Some ''k'')"
  using example_fingerprint [of v]
  by (simp add: current_candidate_def identity_key_def example_decision_def example_dmg_def)

lemma example_owned: "owned example_issue" "closable example_issue"
proof -
  have "issueFingerprint example_issue = Some (to_lower (sha_of (example_decision Rejected)))"
    using body_fingerprint [of example_issue "example_decision Rejected"] example_fingerprint
    by (simp add: example_issue_def)
  thus "owned example_issue" by (simp add: owned_def example_issue_def)
  show "closable example_issue" by code_simp
qed

lemma example_listed: "listTrackingIssues example_github [''old''] log = (Inr [example_issue], log)"
  using example_owned(1)
  by (simp add: listTrackingIssues_def collect_label_def example_github_def add_issue_def map_set_def LABEL_def)

lemma example_accepted:
  "reconcileUpstreamDmgIssue example_github [''old''] [] (example_decision Accepted) (Some ''k'') [] =
    (Inr (Closed_Resolved 1),
     [Create_Comment 3 ''Superseded by accepted upstream DMG `AAAAAAAAAAAA`.'', Close_Issue 3 Completed])"
proof -
  have "accepted_verdict (example_decision Accepted)" by code_simp
  moreover have "reconcile_accepted example_github (example_decision Accepted) [example_issue] [] =
    (Inr (Closed_Resolved 1),
     [Create_Comment 3 ''Superseded by accepted upstream DMG `AAAAAAAAAAAA`.'', Close_Issue 3 Completed])"
    by code_simp
  ultimately show ?thesis
    using reconcile_current [OF example_current [of Accepted], of example_github "[''old'']" "[]" "[]"] example_listed [of "[]"]
    by simp
qed

section \<open>Properties\<close>

text \<open>C21: The automation only touches what it owns. Whatever GitHub answers, every call of a run that changes an
  issue is on an issue listed under one of its labels that is no pull request, carries the fingerprint marker and
  is not marked manual only, and only open ones are closed; a run whose decision is inconclusive or is not
  about the image offered now changes nothing.\<close>

theorem only_owned_issues_touched:
  assumes "reconcileUpstreamDmgIssue g legacyLabels defs d key log = (r, log')"
  shows "\<exists>cs. log' = log @ cs \<and> list_all (allowed (listed g (LABEL # legacyLabels) log)) cs \<and>
             (cs \<noteq> [] \<longrightarrow> current_candidate d key)"
  using assms by (rule run_allowed)

theorem only_owned_issues_touched_witness:
  "\<exists>cs. [Create_Comment 3 ''Superseded by accepted upstream DMG `AAAAAAAAAAAA`.'', Close_Issue 3 Completed] = [] @ cs \<and>
     list_all (allowed (listed example_github [LABEL, ''old''] [])) cs \<and>
     (cs \<noteq> [] \<longrightarrow> current_candidate (example_decision Accepted) (Some ''k''))"
  using only_owned_issues_touched [OF example_accepted] by simp

text \<open>C22: One issue per image. Where the listed issues hold one whose text was written for an image with the
  fingerprint of the decision, a run creates no issue, whatever else it does: the marker written is read back.\<close>

theorem one_issue_per_fingerprint:
  assumes "listTrackingIssues g legacyLabels log = (Inr js, log)" "i \<in> set js" "issue_body i = Some (issueBody written)"
    "valid_fingerprint (sha_of written)" "to_lower (sha_of written) = to_lower (sha_of d)"
    "reconcileUpstreamDmgIssue g legacyLabels defs d key log = (r, log')"
  shows "\<exists>cs. log' = log @ cs \<and> (\<forall>c\<in>set cs. \<not> creates c)"
proof -
  have "issueFingerprint i = Some (to_lower (sha_of d))" using body_fingerprint assms by simp
  hence "\<exists>cs. log' = log @ cs \<and> list_all (\<lambda>c. \<not> creates c) cs \<and> (cs \<noteq> [] \<longrightarrow> current_candidate d key)"
    using assms(1,2) found_creates_none accepted_creates_none
    by (intro reconcile_runs [OF assms(6)]) auto
  thus ?thesis by (auto simp: list_all_iff)
qed

theorem one_issue_per_fingerprint_witness:
  "\<exists>cs. snd (reconcileUpstreamDmgIssue example_github [''old''] [] (example_decision Rejected) (Some ''k'') []) = [] @ cs \<and>
     (\<forall>c\<in>set cs. \<not> creates c)"
  by (rule one_issue_per_fingerprint [OF example_listed, where i = example_issue and written = "example_decision Rejected"])
    (simp_all add: example_fingerprint example_issue_def prod_eq_iff)

text \<open>C23: A run that succeeds leaves no superseded issue open: when the image is accepted every open issue that the
  automation owns and may touch is closed, and when it is rejected every one about another image.\<close>

theorem superseded_issues_closed:
  assumes "reconcileUpstreamDmgIssue g legacyLabels defs d key log = (Inr a, log')" "current_candidate d key"
  shows "\<exists>js cs. listTrackingIssues g legacyLabels log = (Inr js, log) \<and> log' = log @ cs \<and>
    (\<forall>i\<in>set js. superseded d i \<longrightarrow> (\<exists>reason. Close_Issue (issue_number i) reason \<in> set cs))"
proof -
  obtain cs where cs: "log' = log @ cs" using run_allowed [OF assms(1)] by blast
  obtain js where js: "listTrackingIssues g legacyLabels log = (Inr js, log)"
      and run: "(if accepted_verdict d then reconcile_accepted g d js log else reconcile_rejected g defs d js log) = (Inr a, log')"
    using assms(1) tracking_issues [of g legacyLabels log] unfolding reconcile_current [OF assms(2)]
    by (auto split: prod.splits sum.splits)
  have "\<exists>reason. Close_Issue (issue_number i) reason \<in> set cs" if "i \<in> set js" "superseded d i" for i
    using that run accepted_closes [of g d js log a log' i] rejected_closes [of g defs d js log a log' i] cs
    by (auto simp: superseded_def split: if_splits)
  thus ?thesis using js cs by blast
qed

theorem superseded_issues_closed_witness:
  "\<exists>js cs. listTrackingIssues example_github [''old''] [] = (Inr js, []) \<and>
     [Create_Comment 3 ''Superseded by accepted upstream DMG `AAAAAAAAAAAA`.'', Close_Issue 3 Completed] = [] @ cs \<and>
     (\<forall>i\<in>set js. superseded (example_decision Accepted) i \<longrightarrow> (\<exists>reason. Close_Issue (issue_number i) reason \<in> set cs))"
  using superseded_issues_closed [OF example_accepted example_current] by simp

end
