(* ===== verification/Spec2Isabelle.thy ===== *)
theory Spec2Isabelle
  imports Linux_Target Patch_Engine Label_Client Pr_Limit Integration_Plans Integration_Patches Broker_Session Dmg_Issue
begin

text \<open>
  ChatGPT for Linux: the JavaScript that turns the official macOS application into a Linux one,
  and that keeps its repository in order.

  \<^bold>\<open>The program.\<close> The build takes the official disk image apart, patches the JavaScript of the
  application it holds, and packs the result for the Linux distribution at hand.
  \<^item> \<open>scripts/lib/linux-target-context.js\<close> finds out what system the build is for.
  \<^item> \<open>scripts/patches/descriptor.js\<close> and \<open>engine.js\<close>: a patch is a descriptor with a phase, a
    criticality and an \<open>apply\<close> function; the engine normalises and sorts the descriptors and
    runs the phases over the main bundle, the webview assets and the extracted application. Each
    run leaves an entry in the report (\<open>scripts/lib/patch-report.js\<close>), whose critical failures stop
    the build. \<open>scripts/patches/strategy-telemetry.js\<close> notes which variant of a patch matched.
  \<^item> \<open>scripts/patches/lib/assets.js\<close> reads and replaces the application's files, but only through
    a capability that a privileged broker provides.
  \<^item> \<open>scripts/lib/port-integrations.js\<close>: optional extensions with a manifest, which may install
    files in the application, add files and dependencies to a package, and bring patches of their own.
  \<^item> \<open>scripts/patches/runner.js\<close> and \<open>scripts/patch-linux-window-ui.js\<close> make a whole run and decide the
    exit code of the build; \<open>scripts/lib/upstream-dmg-acceptance.js\<close> and \<open>patch-validation.js\<close> judge a
    new official image by the report of its candidate, and \<open>scripts/ci/upstream-dmg-issue.js\<close> keeps one
    tracking issue for an image that is rejected.
  \<^item> \<open>scripts/ci/manage-labels.js\<close> converges the labels of the GitHub repository to a policy, and
    \<open>scripts/ci/enforce-pr-limit.js\<close> closes the pull requests a contributor has in excess.

  \<^bold>\<open>The theories.\<close> One theory per component, each opening with the code it models:
  \<^item> \<open>Js_Prelude\<close>: results that may be a thrown error (\<open>Inl\<close> the error), strings as lists of code
    units, insertion-ordered maps and sets as association lists, stable sorting by a comparator
    (locale \<open>consistent_comparator\<close>), the two string orders. \<open>Node_Path\<close>: the POSIX part of
    \<open>node:path\<close>.
  \<^item> \<open>Linux_Target\<close>: os-release, tokens, versions, package format and manager.
  \<^item> \<open>Patch_Report\<close>, \<open>Patch_Descriptor\<close>, \<open>Patch_Effects\<close>, \<open>Patch_Assets\<close>, \<open>Patch_Engine\<close>: the patch
    engine. A run is a function on \<open>run_state\<close>, which holds the context the patches see (with the
    extracted application as its \<open>world\<close>), the report, the captured warnings and the telemetry buffer;
    a patch function is any such function, so the theorems hold for every patch. The locale
    \<open>frame\<close> says what relation a run keeps; it is interpreted as \<open>quiet\<close> (the report is left
    alone) and \<open>reading\<close> (the application is left alone). The locale \<open>phase_runner\<close> holds what the
    three phases share and is interpreted on each.
  \<^item> \<open>Label_Policy\<close>, \<open>Label_Plan\<close>, \<open>Label_Client\<close>: validation of the policy and of snapshots, the
    plans, and the client with its retries, pages, worker pool (a step relation) and actions.
    \<open>Pr_Limit\<close>: limits, overrides and enforcement.
  \<^item> \<open>Broker_Wire\<close>, \<open>Broker_Frames\<close>, \<open>Broker_Session\<close>: the client of the broker
    (\<open>scripts/patches/lib/generated-app-mutation-client.js\<close>). Requests and responses at their byte width,
    against the encoder and decoder of the Rust broker (the locale \<open>codec\<close> is a parser with its
    encoding, interpreted on every field of the protocol); the reader that cuts the stream into frames,
    as a function of the events it saw; the session as a step relation, in which callers, pipes and the
    broker may act between any two steps the client takes.
  \<^item> \<open>Integration_Paths\<close>, \<open>Integration_Config\<close>, \<open>Integration_Plans\<close>: paths that stay inside, file
    modes, entry lists; configuration, discovery, enablement, canonical JSON; the install and package
    plans. \<open>Integration_Patches\<close>: the patches and hooks they bring, wrapped and kept apart. The locale \<open>exclusive_claims\<close> is the registry in which no two keys conflict; it is
    interpreted for install targets, which must not overlap, and for integration ids.
  \<^item> \<open>Patch_Runner\<close>: descriptor lists, policies, the run of all phases between opening and closing the
    broker, and the command line with its gate and receipt. \<open>Dmg_Acceptance\<close>: the validation of a report,
    the verdict on an image and the two command lines. \<open>Dmg_Issue\<close>: the issues of that verdict, as a
    computation that logs every call which changes something on GitHub.

  \<^bold>\<open>Reading the model.\<close> A function of the code keeps its name. An object is a record, a field that
  may be missing or of another type an \<open>option\<close> or a datatype with the cases the code tells apart; a
  thrown error is a constructor of the component's error type, without the text of its message where
  nothing depends on it. What is not in the repository is a parameter: the GitHub API, the file
  system, \<open>JSON.parse\<close>, digests, the mutation capability, the patch functions. The loops are
  structural or over the given list; the client's retries and pages recurse on the attempts and pages
  that are left, at most 3 and 100, which are the bounds of the code.

  \<^bold>\<open>What the theorems show.\<close> Each property stands in the theory of its component under its number.
  The phases report every descriptor exactly once, are stopped by integrity errors only, refine the
  fold of the successful patches, and their two gates agree; patching assets is all or nothing, and
  a unique asset is written at most once, where it was read. The session with the broker answers in order, every
  request settles, a failure is final, and a clean close means that nothing was lost. Label plans are empty exactly when the
  repository is as the policy has it; retirement is safe and complete, is guarded by a current
  snapshot, and its execution verifies itself; the worker pool computes the map in every interleaving
  and always ends. A run of the command reports every
  descriptor of every phase, and exit code 0 under enforcement means that the report is written and has no
  critical failure; such a report passes the validation of the release profile. An image is accepted exactly
  when its report is sound, and no failed patch is passed over. The issue automation touches what it owns
  only, opens no second issue for an image and closes what is superseded. Only pull requests in excess are closed. Install and package targets are exclusive
  and stay inside; modes, os-release fields and canonical JSON round-trip or are unique.

  \<^bold>\<open>What is not modelled.\<close> The patch implementations rewrite a third-party minified bundle that the
  repository does not hold. The shell scripts, the Rust crates, packaging and Nix files are in other
  languages. Of the JavaScript that is modelled in part, the copying of files to disk, the
  command lines' printing, timers and the clock are left out.
\<close>

end
